(* ===== verification/Prelude.thy ===== *)
theory Prelude
  imports Complex_Main "HOL-Library.Word" "HOL-Library.AList"
begin

text \<open>
  Shared vocabulary of the development.
  \<^item> Machine integers: \<open>u8\<close>, \<open>u16\<close>, \<open>u32\<close> and \<open>u64\<close> are words of that width, with
    Rust's \<open>saturating_add\<close>, \<open>saturating_sub\<close> and \<open>checked_sub\<close>.
  \<^item> Time: \<open>Duration\<close> and \<open>MonotonicInstant\<close> are counted in nanoseconds.
  \<^item> \<open>BTreeMap\<close>: an association list with strictly ascending keys.
  \<^item> \<open>HashMap\<close>: an association list with distinct keys, whose order stands for one
    (unspecified) iteration order of the Rust map.
  The collections \<open>word_sat\<close>, \<open>bt_simps\<close> and \<open>hm_simps\<close> gather the
  rewrite rules the component theories pass to the simplifier.
\<close>

named_theorems word_sat "unsigned readings of the saturating operations"
named_theorems bt_simps "rewrite rules for sorted association lists"
named_theorems hm_simps "rewrite rules for hash maps"

section \<open>Machine integers\<close>

type_synonym u8 = "8 word"
type_synonym u16 = "16 word"
type_synonym u32 = "32 word"
type_synonym u64 = "64 word"

definition saturating_add :: "'a::len word \<Rightarrow> 'a word \<Rightarrow> 'a word" where
  "saturating_add a b = (if unat a + unat b < 2 ^ LENGTH('a) then a + b else - 1)"

definition saturating_sub :: "'a::len word \<Rightarrow> 'a word \<Rightarrow> 'a word" where
  "saturating_sub a b = (if b \<le> a then a - b else 0)"

definition checked_sub :: "'a::len word \<Rightarrow> 'a word \<Rightarrow> 'a word option" where
  "checked_sub a b = (if b \<le> a then Some (a - b) else None)"

lemma unat_saturating_add [word_sat]:
  "unat (saturating_add a b :: 'a::len word) = min (unat a + unat b) (2 ^ LENGTH('a) - 1)"
proof (cases "unat a + unat b < 2 ^ LENGTH('a)")
  case True
  then show ?thesis
    by (simp add: saturating_add_def unat_word_ariths)
next
  case False
  then show ?thesis
    by (simp add: saturating_add_def unsigned_minus_1_eq_mask mask_eq_exp_minus_1)
qed

lemma unat_saturating_sub [word_sat]:
  "unat (saturating_sub a b) = unat a - unat b"
  by (auto simp: saturating_sub_def unat_sub word_le_nat_alt)

lemma saturating_add_ge: "(a :: 'a::len word) \<le> saturating_add a b"
proof -
  have "unat a < 2 ^ LENGTH('a)" by (rule unsigned_less)
  then have "unat a \<le> 2 ^ LENGTH('a) - 1" by arith
  then show ?thesis by (simp add: word_le_nat_alt unat_saturating_add)
qed

lemma saturating_sub_le: "saturating_sub a b \<le> a"
  by (simp add: word_le_nat_alt unat_saturating_sub)

section \<open>Durations and instants\<close>

type_synonym duration = nat
type_synonym instant = nat

abbreviation millis :: "nat \<Rightarrow> duration" where
  "millis n \<equiv> n * 1000000"

abbreviation secs :: "nat \<Rightarrow> duration" where
  "secs n \<equiv> n * 1000000000"


section \<open>BTreeMap: sorted association lists\<close>

type_synonym ('k, 'v) btree = "('k \<times> 'v) list"

abbreviation bt_keys :: "('k, 'v) btree \<Rightarrow> 'k list" where
  "bt_keys m \<equiv> map fst m"

abbreviation bt_values :: "('k, 'v) btree \<Rightarrow> 'v list" where
  "bt_values m \<equiv> map snd m"

definition bt_inv :: "('k::linorder, 'v) btree \<Rightarrow> bool" where
  "bt_inv m \<longleftrightarrow> sorted_wrt (<) (bt_keys m)"

fun bt_insert :: "'k::linorder \<Rightarrow> 'v \<Rightarrow> ('k, 'v) btree \<Rightarrow> ('k, 'v) btree" where
  "bt_insert k v [] = [(k, v)]"
| "bt_insert k v ((a, b) # m) =
     (if k < a then (k, v) # (a, b) # m
      else if k = a then (k, v) # m
      else (a, b) # bt_insert k v m)"

fun bt_remove :: "'k::linorder \<Rightarrow> ('k, 'v) btree \<Rightarrow> ('k, 'v) btree" where
  "bt_remove k [] = []"
| "bt_remove k ((a, b) # m) = (if k = a then m else (a, b) # bt_remove k m)"

definition bt_pop_last :: "('k, 'v) btree \<Rightarrow> ('k, 'v) btree" where
  "bt_pop_last m = butlast m"

lemma bt_inv_Nil [simp]: "bt_inv []"
  by (simp add: bt_inv_def)

lemma bt_inv_Cons: "bt_inv ((a, b) # m) \<longleftrightarrow> (\<forall>x \<in> fst ` set m. a < x) \<and> bt_inv m"
  by (auto simp: bt_inv_def)

lemma keys_bt_insert [bt_simps]: "fst ` set (bt_insert k v m) = insert k (fst ` set m)"
  by (induction k v m rule: bt_insert.induct) (simp_all add: insert_commute)

lemma keys_bt_remove: "fst ` set (bt_remove k m) \<subseteq> fst ` set m"
  by (induction k m rule: bt_remove.induct) auto

lemma bt_inv_insert [bt_simps]: "bt_inv m \<Longrightarrow> bt_inv (bt_insert k v m)"
  by (induction m) (fastforce simp: bt_inv_Cons keys_bt_insert)+

lemma bt_inv_remove [bt_simps]: "bt_inv m \<Longrightarrow> bt_inv (bt_remove k m)"
proof (induction m)
  case (Cons x m)
  then show ?case
    using keys_bt_remove [of k m] by (cases x) (fastforce simp: bt_inv_Cons)
qed simp

lemma map_of_bt_insert [bt_simps]: "map_of (bt_insert k v m) = (map_of m)(k \<mapsto> v)"
  by (induction m) (auto simp: fun_eq_iff)

lemma bt_fresh: "bt_inv ((a, b) # m) \<Longrightarrow> map_of m a = None"
  by (force simp: bt_inv_Cons map_of_eq_None_iff)

lemma map_of_bt_remove [bt_simps]: "bt_inv m \<Longrightarrow> map_of (bt_remove k m) = (map_of m)(k := None)"
proof (induction m)
  case (Cons x m)
  then show ?case
    by (cases x) (auto simp: fun_eq_iff bt_fresh bt_inv_Cons)
qed simp

lemma bt_inv_take [bt_simps]: "bt_inv m \<Longrightarrow> bt_inv (take n m)"
  by (simp add: bt_inv_def take_map [symmetric] sorted_wrt_take)

lemma bt_inv_distinct: "bt_inv m \<Longrightarrow> distinct (bt_keys m)"
  by (simp add: bt_inv_def strict_sorted_iff)

text \<open>Two sorted lists with the same contents are equal: the list is determined by the map.\<close>

lemma alist_by_keys: "distinct (map fst m) \<Longrightarrow> m = map (\<lambda>k. (k, the (map_of m k))) (map fst m)"
  by (simp add: o_def) (rule map_idI [symmetric], force)

lemma bt_ext:
  assumes "bt_inv m" and "bt_inv n" and "map_of m = map_of n"
  shows "m = n"
proof -
  have "bt_keys m = bt_keys n"
  proof (rule strict_sorted_equal)
    have "dom (map_of m) = dom (map_of n)" using assms(3) by simp
    then show "set (bt_keys m) = set (bt_keys n)" by (simp add: dom_map_of_conv_image_fst)
  qed (use assms(1,2) in \<open>simp_all add: bt_inv_def\<close>)
  then show ?thesis
    using alist_by_keys [OF bt_inv_distinct [OF assms(1)]]
      alist_by_keys [OF bt_inv_distinct [OF assms(2)]] assms(3) by simp
qed

section \<open>HashMap: association lists with distinct keys\<close>

type_synonym ('k, 'v) hashmap = "('k \<times> 'v) list"

abbreviation hm_get :: "('k, 'v) hashmap \<Rightarrow> 'k \<Rightarrow> 'v option" where
  "hm_get m k \<equiv> map_of m k"

abbreviation hm_insert :: "'k \<Rightarrow> 'v \<Rightarrow> ('k, 'v) hashmap \<Rightarrow> ('k, 'v) hashmap" where
  "hm_insert k v m \<equiv> AList.update k v m"

abbreviation hm_remove :: "'k \<Rightarrow> ('k, 'v) hashmap \<Rightarrow> ('k, 'v) hashmap" where
  "hm_remove k m \<equiv> AList.delete k m"

definition hm_inv :: "('k, 'v) hashmap \<Rightarrow> bool" where
  "hm_inv m \<longleftrightarrow> distinct (map fst m)"

lemma hm_inv_Nil [simp]: "hm_inv []"
  by (simp add: hm_inv_def)

lemma hm_get_insert [hm_simps]: "hm_get (hm_insert k v m) = (hm_get m)(k \<mapsto> v)"
  by (rule update_conv')

lemma hm_get_remove [hm_simps]: "hm_get (hm_remove k m) = (hm_get m)(k := None)"
  by (rule delete_conv')

lemma hm_inv_insert [hm_simps]: "hm_inv m \<Longrightarrow> hm_inv (hm_insert k v m)"
  by (simp add: hm_inv_def distinct_update)

lemma hm_inv_remove [hm_simps]: "hm_inv m \<Longrightarrow> hm_inv (hm_remove k m)"
  by (simp add: hm_inv_def distinct_delete)

lemma hm_get_set: "hm_inv m \<Longrightarrow> hm_get m k = Some v \<longleftrightarrow> (k, v) \<in> set m"
  by (simp add: hm_inv_def map_of_eq_Some_iff)

lemma hm_insert_nonempty [simp]: "hm_insert k v m \<noteq> []"
  by (cases m) auto

lemma set_hm_insert: "set (hm_insert k v m) \<subseteq> insert (k, v) (set m)"
  by (induction m) auto

lemma set_delete_subset: "set (hm_remove k m) \<subseteq> set m"
  by (induction m) auto

section \<open>Keyed stores\<close>

text \<open>
  The interface a component relies on when it keeps values under keys: a lookup, an update and a
  removal that behave like those of a map. Two stores that are updated side by side stay in
  correspondence, key by key.
\<close>

definition mirrored :: "('v \<Rightarrow> 'w \<Rightarrow> bool) \<Rightarrow> ('k \<Rightarrow> 'v option) \<Rightarrow> ('k \<Rightarrow> 'w option) \<Rightarrow> bool" where
  "mirrored R f g \<longleftrightarrow> (\<forall>k. rel_option R (f k) (g k))"

locale keyed_store =
  fixes get :: "'s \<Rightarrow> 'k \<Rightarrow> 'v option"
    and put :: "'k \<Rightarrow> 'v \<Rightarrow> 's \<Rightarrow> 's"
    and del :: "'k \<Rightarrow> 's \<Rightarrow> 's"
    and invar :: "'s \<Rightarrow> bool"
  assumes get_put: "invar s \<Longrightarrow> get (put k v s) = (get s)(k \<mapsto> v)"
    and get_del: "invar s \<Longrightarrow> get (del k s) = (get s)(k := None)"
    and invar_put: "invar s \<Longrightarrow> invar (put k v s)"
    and invar_del: "invar s \<Longrightarrow> invar (del k s)"
begin

lemma fold_del: "invar s \<Longrightarrow> invar (fold del ks s) \<and>
    get (fold del ks s) = (\<lambda>k. if k \<in> set ks then None else get s k)"
proof (induction ks arbitrary: s)
  case (Cons k ks)
  from Cons.IH [OF invar_del [OF Cons.prems]] show ?case
    by (auto simp: fun_eq_iff get_del [OF Cons.prems])
qed simp

end

locale mirrored_stores =
  A: keyed_store getA putA delA invA + B: keyed_store getB putB delB invB
  for getA :: "'s \<Rightarrow> 'k \<Rightarrow> 'v option" and putA delA invA
    and getB :: "'t \<Rightarrow> 'k \<Rightarrow> 'w option" and putB delB invB +
  fixes R :: "'v \<Rightarrow> 'w \<Rightarrow> bool"
begin

lemma mirrored_put:
  "invA s \<Longrightarrow> invB t \<Longrightarrow> mirrored R (getA s) (getB t) \<Longrightarrow> R v w \<Longrightarrow>
   mirrored R (getA (putA k v s)) (getB (putB k w t))"
  by (simp add: mirrored_def A.get_put B.get_put)

lemma mirrored_del:
  "invA s \<Longrightarrow> invB t \<Longrightarrow> mirrored R (getA s) (getB t) \<Longrightarrow>
   mirrored R (getA (delA k s)) (getB (delB k t))"
  by (simp add: mirrored_def A.get_del B.get_del)

lemma mirrored_put_left:
  "invA s \<Longrightarrow> mirrored R (getA s) (getB t) \<Longrightarrow> getB t k = Some w \<Longrightarrow> R v w \<Longrightarrow>
   mirrored R (getA (putA k v s)) (getB t)"
  by (simp add: mirrored_def A.get_put)

lemma mirrored_del_all:
  "invA s \<Longrightarrow> invB t \<Longrightarrow> mirrored R (getA s) (getB t) \<Longrightarrow>
   mirrored R (getA (fold delA ks s)) (getB (fold delB ks t))"
  by (simp add: mirrored_def A.fold_del B.fold_del)

end

interpretation hm: keyed_store map_of AList.update AList.delete hm_inv
  by unfold_locales (simp_all add: hm_simps)

interpretation bt: keyed_store map_of bt_insert bt_remove bt_inv
  by unfold_locales (simp_all add: bt_simps)

end
