(* ===== verification/Wire_Types.thy ===== *)
theory Wire_Types
  imports Prelude "HOL-Library.Sublist"
begin

text \<open>
  Wire-level value types of \<open>src/rust/src/types\<close>: connection states and their byte codes
  (\<open>connection.rs\<close>), channel names, book depths and the two endpoints (\<open>channel.rs\<close>),
  asset codes and their normalisation (\<open>asset.rs\<close>), and trading pairs (\<open>symbol.rs\<close>).
  Strings are byte lists. The lemmas show that the encodings are round trips, that
  normalisation is idempotent, and what the two validating constructors guarantee.
\<close>

section \<open>Connection states\<close>

datatype connection_state =
  Idle | Connecting | Authenticating | Resubscribing | Open | BackingOff | Closing | Closed | Failed

fun as_u8 :: "connection_state \<Rightarrow> u8" where
  "as_u8 Idle = 0"
| "as_u8 Connecting = 1"
| "as_u8 Authenticating = 2"
| "as_u8 Resubscribing = 3"
| "as_u8 Open = 4"
| "as_u8 BackingOff = 5"
| "as_u8 Closing = 6"
| "as_u8 Closed = 7"
| "as_u8 Failed = 8"

definition from_u8 :: "u8 \<Rightarrow> connection_state option" where
  "from_u8 b =
     (if b = 0 then Some Idle
      else if b = 1 then Some Connecting
      else if b = 2 then Some Authenticating
      else if b = 3 then Some Resubscribing
      else if b = 4 then Some Open
      else if b = 5 then Some BackingOff
      else if b = 6 then Some Closing
      else if b = 7 then Some Closed
      else if b = 8 then Some Failed
      else None)"

lemma from_u8_as_u8 [simp]: "from_u8 (as_u8 s) = Some s"
  by (cases s) (simp_all add: from_u8_def)

lemma from_u8_Some: "from_u8 b = Some s \<Longrightarrow> as_u8 s = b"
  by (auto simp: from_u8_def split: if_splits)

section \<open>Endpoints, channels, depths\<close>

datatype ws_url = Public | Auth

definition as_wire_url :: "ws_url \<Rightarrow> string" where
  "as_wire_url u =
     (case u of Public \<Rightarrow> ''wss://ws.kraken.com/v2'' | Auth \<Rightarrow> ''wss://ws-auth.kraken.com/v2'')"

datatype channel_name =
  Ticker | Book | BookRaw | Trade | Ohlc | Status | Executions | Balances | Heartbeat

text \<open>The \<open>strum\<close> rendering: the lowercase variant name, \<open>BookRaw\<close> rendered as \<open>book\<close>.\<close>

fun channel_str :: "channel_name \<Rightarrow> string" where
  "channel_str Ticker = ''ticker''"
| "channel_str Book = ''book''"
| "channel_str BookRaw = ''book''"
| "channel_str Trade = ''trade''"
| "channel_str Ohlc = ''ohlc''"
| "channel_str Status = ''status''"
| "channel_str Executions = ''executions''"
| "channel_str Balances = ''balances''"
| "channel_str Heartbeat = ''heartbeat''"

fun wire_channel :: "channel_name \<Rightarrow> channel_name" where
  "wire_channel BookRaw = Book"
| "wire_channel c = c"

definition from_wire_str :: "string \<Rightarrow> channel_name option" where
  "from_wire_str s =
     (if s = ''ticker'' then Some Ticker
      else if s = ''book'' then Some Book
      else if s = ''trade'' then Some Trade
      else if s = ''ohlc'' then Some Ohlc
      else if s = ''status'' then Some Status
      else if s = ''executions'' then Some Executions
      else if s = ''balances'' then Some Balances
      else if s = ''heartbeat'' then Some Heartbeat
      else None)"

lemma from_wire_str_channel_str: "from_wire_str (channel_str c) = Some (wire_channel c)"
  by (cases c) (simp_all add: from_wire_str_def)

lemma channel_str_from_wire_str: "from_wire_str s = Some c \<Longrightarrow> channel_str c = s"
  by (auto simp: from_wire_str_def split: if_splits)

datatype book_depth = D10 | D25 | D100 | D500 | D1000

fun as_wire_u32 :: "book_depth \<Rightarrow> u32" where
  "as_wire_u32 D10 = 10"
| "as_wire_u32 D25 = 25"
| "as_wire_u32 D100 = 100"
| "as_wire_u32 D500 = 500"
| "as_wire_u32 D1000 = 1000"

fun wire_depth :: "book_depth \<Rightarrow> book_depth" where
  "wire_depth D10 = D25"
| "wire_depth D25 = D25"
| "wire_depth D100 = D100"
| "wire_depth D500 = D500"
| "wire_depth D1000 = D1000"

datatype ohlc_interval = M1 | M5 | M15 | M30 | H1 | H4 | D1 | D7 | D15

fun interval_minutes :: "ohlc_interval \<Rightarrow> u64" where
  "interval_minutes M1 = 1"
| "interval_minutes M5 = 5"
| "interval_minutes M15 = 15"
| "interval_minutes M30 = 30"
| "interval_minutes H1 = 60"
| "interval_minutes H4 = 240"
| "interval_minutes D1 = 1440"
| "interval_minutes D7 = 10080"
| "interval_minutes D15 = 21600"

datatype ticker_trigger = Trades | Bbo

fun trigger_str :: "ticker_trigger \<Rightarrow> string" where
  "trigger_str Trades = ''trades''"
| "trigger_str Bbo = ''bbo''"

datatype asset_class = Forex | TokenizedAsset | SyntheticPair | FuturesContract

fun asset_class_str :: "asset_class \<Rightarrow> string" where
  "asset_class_str Forex = ''forex''"
| "asset_class_str TokenizedAsset = ''tokenized_asset''"
| "asset_class_str SyntheticPair = ''synthetic_pair''"
| "asset_class_str FuturesContract = ''futures_contract''"

definition asset_class_from_wire_str :: "string \<Rightarrow> asset_class option" where
  "asset_class_from_wire_str s =
     (if s = ''forex'' then Some Forex
      else if s = ''tokenized_asset'' then Some TokenizedAsset
      else if s = ''synthetic_pair'' then Some SyntheticPair
      else if s = ''futures_contract'' then Some FuturesContract
      else None)"

lemma asset_class_round_trip: "asset_class_from_wire_str (asset_class_str c) = Some c"
  by (cases c) (simp_all add: asset_class_from_wire_str_def)

section \<open>ASCII\<close>

definition is_ascii_uppercase :: "char \<Rightarrow> bool" where
  "is_ascii_uppercase c \<longleftrightarrow> of_char c \<in> {65 .. (90 :: nat)}"

definition is_ascii_lowercase :: "char \<Rightarrow> bool" where
  "is_ascii_lowercase c \<longleftrightarrow> of_char c \<in> {97 .. (122 :: nat)}"

definition is_ascii_digit :: "char \<Rightarrow> bool" where
  "is_ascii_digit c \<longleftrightarrow> of_char c \<in> {48 .. (57 :: nat)}"

definition is_ascii_alphabetic :: "char \<Rightarrow> bool" where
  "is_ascii_alphabetic c \<longleftrightarrow> is_ascii_uppercase c \<or> is_ascii_lowercase c"

definition is_ascii_alphanumeric :: "char \<Rightarrow> bool" where
  "is_ascii_alphanumeric c \<longleftrightarrow> is_ascii_alphabetic c \<or> is_ascii_digit c"

definition to_ascii_upper_char :: "char \<Rightarrow> char" where
  "to_ascii_upper_char c = (if is_ascii_lowercase c then char_of (of_char c - 32 :: nat) else c)"

abbreviation to_ascii_uppercase :: "string \<Rightarrow> string" where
  "to_ascii_uppercase s \<equiv> map to_ascii_upper_char s"

lemmas ascii_defs = is_ascii_uppercase_def is_ascii_lowercase_def is_ascii_digit_def
  is_ascii_alphabetic_def is_ascii_alphanumeric_def to_ascii_upper_char_def

lemma of_char_less_256: "of_char c < (256 :: nat)"
  by (metis char_of_mod_256 mod_less_divisor of_char_mod_256 zero_less_numeral of_char_of)

lemma of_char_upper:
  "of_char (to_ascii_upper_char c) =
     (if is_ascii_lowercase c then of_char c - 32 else of_char c :: nat)"
  using of_char_less_256 [of c]
  by (auto simp: to_ascii_upper_char_def is_ascii_lowercase_def)

lemma upper_upper [simp]: "to_ascii_upper_char (to_ascii_upper_char c) = to_ascii_upper_char c"
  using of_char_upper [of c]
  by (auto simp: to_ascii_upper_char_def [of "to_ascii_upper_char c"] is_ascii_lowercase_def)

lemma upper_alphabetic [simp]:
  "is_ascii_alphabetic (to_ascii_upper_char c) = is_ascii_alphabetic c"
  using of_char_upper [of c]
  by (auto simp: is_ascii_alphabetic_def is_ascii_lowercase_def is_ascii_uppercase_def split: if_splits)

lemma upper_digit [simp]: "is_ascii_digit (to_ascii_upper_char c) = is_ascii_digit c"
  using of_char_upper [of c]
  by (auto simp: is_ascii_digit_def is_ascii_lowercase_def split: if_splits)

lemma upper_alphanumeric [simp]:
  "is_ascii_alphanumeric (to_ascii_upper_char c) = is_ascii_alphanumeric c"
  by (simp add: is_ascii_alphanumeric_def)

lemma upper_idem [simp]: "to_ascii_uppercase (to_ascii_uppercase s) = to_ascii_uppercase s"
  by simp

section \<open>Asset codes\<close>

datatype symbol_error = SymEmpty | LegacyPrefix | NonAlphanumeric | NonAlphabetic | MissingSeparator

definition normalise_table :: "(string \<times> string) list" where
  "normalise_table =
     [(''XXBT'', ''BTC''), (''XBT'', ''BTC''), (''XETC'', ''ETC''), (''XETH'', ''ETH''),
      (''XLTC'', ''LTC''), (''XMLN'', ''MLN''), (''XREP'', ''REP''), (''XXDG'', ''XDG''),
      (''XXLM'', ''XLM''), (''XXMR'', ''XMR''), (''XXRP'', ''XRP''), (''XZEC'', ''ZEC''),
      (''ZARS'', ''ARS''), (''ZAUD'', ''AUD''), (''ZCAD'', ''CAD''), (''ZCLP'', ''CLP''),
      (''ZCOP'', ''COP''), (''ZDKK'', ''DKK''), (''ZEUR'', ''EUR''), (''ZGBP'', ''GBP''),
      (''ZGEL'', ''GEL''), (''ZGHS'', ''GHS''), (''ZJPY'', ''JPY''), (''ZLKR'', ''LKR''),
      (''ZMXN'', ''MXN''), (''ZPLN'', ''PLN''), (''ZSEK'', ''SEK''), (''ZUGX'', ''UGX''),
      (''ZUSD'', ''USD''), (''ZVND'', ''VND''), (''ZXOF'', ''XOF''), (''KFEE'', ''FEE'')]"

definition normalise_asset :: "string \<Rightarrow> string" where
  "normalise_asset raw = (case map_of normalise_table raw of Some modern \<Rightarrow> modern | None \<Rightarrow> raw)"

lemma normalise_table_modern:
  "(legacy, modern) \<in> set normalise_table \<Longrightarrow> map_of normalise_table modern = None"
proof -
  have "list_all (\<lambda>(_, m). map_of normalise_table m = None) normalise_table"
    by code_simp
  then show "(legacy, modern) \<in> set normalise_table \<Longrightarrow> map_of normalise_table modern = None"
    by (auto simp: list_all_iff)
qed

lemma normalise_asset_idem: "normalise_asset (normalise_asset s) = normalise_asset s"
  using normalise_table_modern [OF map_of_SomeD]
  by (auto simp: normalise_asset_def split: option.splits)

lemma normalise_asset_fixed: "normalise_asset s = s \<longleftrightarrow> map_of normalise_table s = None"
  using normalise_table_modern [OF map_of_SomeD, of s s]
  by (auto simp: normalise_asset_def split: option.splits)

text \<open>\<open>AssetCode::new\<close>, \<open>AssetCode::from_wire\<close>.\<close>

definition asset_code_new :: "string \<Rightarrow> symbol_error + string" where
  "asset_code_new s =
     (if s = [] then Inl SymEmpty
      else if \<not> list_all is_ascii_alphabetic s then Inl NonAlphabetic
      else let u = to_ascii_uppercase s in
        if normalise_asset u \<noteq> u then Inl LegacyPrefix else Inr u)"

definition asset_code_from_wire :: "string \<Rightarrow> string" where
  "asset_code_from_wire raw = normalise_asset raw"

section \<open>Trading pairs\<close>

fun split_once :: "char \<Rightarrow> string \<Rightarrow> (string \<times> string) option" where
  "split_once d [] = None"
| "split_once d (c # s) =
     (if c = d then Some ([], s)
      else map_option (\<lambda>(a, b). (c # a, b)) (split_once d s))"

text \<open>\<open>Symbol::validate_leg\<close>; \<open>Inr ()\<close> is Rust's \<open>Ok(())\<close>.\<close>

definition validate_leg :: "string \<Rightarrow> symbol_error + unit" where
  "validate_leg leg =
     (if leg = [] then Inl SymEmpty
      else if \<not> list_all is_ascii_alphanumeric leg then Inl NonAlphanumeric
      else let upper = to_ascii_uppercase leg in
        if normalise_asset upper \<noteq> upper then Inl LegacyPrefix else Inr ())"

definition symbol_new :: "string \<Rightarrow> symbol_error + string" where
  "symbol_new s =
     (if s = [] then Inl SymEmpty
      else if prefix ''XX'' s \<or> prefix ''ZZ'' s then Inl LegacyPrefix
      else case split_once (CHR ''/'') s of
        None \<Rightarrow> Inl MissingSeparator
      | Some (base, quote) \<Rightarrow>
          (case validate_leg base of
             Inl e \<Rightarrow> Inl e
           | Inr _ \<Rightarrow> (case validate_leg quote of
               Inl e \<Rightarrow> Inl e
             | Inr _ \<Rightarrow> Inr (to_ascii_uppercase s))))"

lemma split_once_Some:
  "split_once d s = Some (a, b) \<longleftrightarrow> s = a @ d # b \<and> d \<notin> set a"
proof (induction s arbitrary: a)
  case (Cons c s)
  then show ?case by (cases a) auto
qed simp

lemma upper_slash [simp]: "to_ascii_upper_char c = CHR ''/'' \<longleftrightarrow> c = CHR ''/''"
proof -
  have "of_char (to_ascii_upper_char c) = (47 :: nat) \<longleftrightarrow> of_char c = (47 :: nat)"
    by (auto simp: of_char_upper is_ascii_lowercase_def)
  moreover have "x = CHR ''/'' \<longleftrightarrow> of_char x = (47 :: nat)" for x :: char
    using of_char_eq_iff [of x "CHR ''/''", where 'a = nat] by simp
  ultimately show ?thesis by blast
qed

lemma validate_leg_upper [simp]: "validate_leg (to_ascii_uppercase leg) = validate_leg leg"
  by (simp add: validate_leg_def list_all_iff o_def)

lemma validate_leg_ok:
  "validate_leg leg = Inr () \<longleftrightarrow>
     leg \<noteq> [] \<and> list_all is_ascii_alphanumeric leg \<and>
     map_of normalise_table (to_ascii_uppercase leg) = None"
  by (auto simp: validate_leg_def normalise_asset_fixed Let_def)

lemma split_once_upper:
  "split_once (CHR ''/'') s = Some (a, b) \<Longrightarrow>
   split_once (CHR ''/'') (to_ascii_uppercase s) = Some (to_ascii_uppercase a, to_ascii_uppercase b)"
  by (fastforce simp: split_once_Some dest: upper_slash [THEN iffD1, OF sym])

section \<open>Properties\<close>

definition leg_ok :: "string \<Rightarrow> bool" where
  "leg_ok leg \<longleftrightarrow> leg \<noteq> [] \<and> list_all is_ascii_alphanumeric leg \<and>
     to_ascii_uppercase leg \<notin> fst ` set normalise_table"

lemma validate_leg_iff: "validate_leg leg = Inr () \<longleftrightarrow> leg_ok leg"
  by (simp add: validate_leg_ok leg_ok_def map_of_eq_None_iff)

lemma validate_leg_cases:
  "(case validate_leg leg of Inl e \<Rightarrow> Inl e | Inr _ \<Rightarrow> r) = Inr t \<longleftrightarrow> leg_ok leg \<and> r = Inr t"
  by (cases "validate_leg leg") (auto simp: validate_leg_iff [symmetric])

lemma slash_notin_leg: "leg_ok leg \<Longrightarrow> CHR ''/'' \<notin> set leg"
  by (auto simp: leg_ok_def list_all_iff ascii_defs)

lemma legs_split:
  "(\<exists>base quote. s = base @ CHR ''/'' # quote \<and> leg_ok base \<and> leg_ok quote) \<longleftrightarrow>
   (\<exists>base quote. split_once (CHR ''/'') s = Some (base, quote) \<and> leg_ok base \<and> leg_ok quote)"
  by (metis slash_notin_leg split_once_Some)

lemma symbol_new_Inr:
  "symbol_new s = Inr t \<longleftrightarrow>
     \<not> prefix ''XX'' s \<and> \<not> prefix ''ZZ'' s \<and> t = to_ascii_uppercase s \<and>
     (\<exists>base quote. split_once (CHR ''/'') s = Some (base, quote) \<and> leg_ok base \<and> leg_ok quote)"
  by (cases s; cases "split_once (CHR ''/'') s") (auto simp: symbol_new_def validate_leg_cases)

text \<open>
  \<open>Symbol::new\<close> accepts exactly the strings \<open>BASE/QUOTE\<close> whose legs are non-empty,
  alphanumeric and not legacy asset codes (in any letter case), that do not start with \<open>XX\<close> or
  \<open>ZZ\<close>; the stored pair is the input in upper case.
\<close>

lemma symbol_new_accepts:
  "symbol_new s = Inr t \<longleftrightarrow>
     \<not> prefix ''XX'' s \<and> \<not> prefix ''ZZ'' s \<and> t = to_ascii_uppercase s \<and>
     (\<exists>base quote. s = base @ CHR ''/'' # quote \<and> leg_ok base \<and> leg_ok quote)"
  by (simp only: symbol_new_Inr legs_split)

lemma leg_ok_upper [simp]: "leg_ok (to_ascii_uppercase x) = leg_ok x"
  by (simp only: validate_leg_iff [symmetric] validate_leg_upper)

text \<open>
  Constructing a \<open>Symbol\<close> from the text of a constructed \<open>Symbol\<close> gives it back,
  unless that text starts with \<open>XX\<close> or \<open>ZZ\<close>.
\<close>

lemma symbol_new_stable:
  assumes "symbol_new s = Inr t" and "\<not> prefix ''XX'' t" and "\<not> prefix ''ZZ'' t"
  shows "symbol_new t = Inr t"
proof -
  from assms(1) obtain b q where t: "t = to_ascii_uppercase s"
    and s: "split_once (CHR ''/'') s = Some (b, q)" and ok: "leg_ok b" "leg_ok q"
    by (auto simp: symbol_new_Inr)
  have "split_once (CHR ''/'') t = Some (to_ascii_uppercase b, to_ascii_uppercase q)"
    unfolding t by (rule split_once_upper [OF s])
  moreover have "to_ascii_uppercase t = t"
    unfolding t by (rule upper_idem)
  ultimately show ?thesis
    using assms(2,3) ok leg_ok_upper by (simp only: symbol_new_Inr) metis
qed

text \<open>
  The excluded case does occur: the prefix test runs before the string is put in upper case, so
  a lower-case spelling is accepted whose stored text the constructor itself rejects.
\<close>

lemma symbol_new_prefix_case:
  "symbol_new ''xxa/usd'' = Inr ''XXA/USD'' \<and> symbol_new ''XXA/USD'' = Inl LegacyPrefix"
  by code_simp

text \<open>
  Asset codes: what \<open>AssetCode::new\<close> accepts is a non-empty, upper-case alphabetic
  code that normalisation leaves alone, \<open>new\<close> accepts its own output, and the code built from a
  server string is always in normal form.
\<close>

lemma asset_code_normal_form:
  "(asset_code_new s = Inr u \<longleftrightarrow>
      s \<noteq> [] \<and> list_all is_ascii_alphabetic s \<and> u = to_ascii_uppercase s \<and> normalise_asset u = u)
   \<and> normalise_asset (asset_code_from_wire raw) = asset_code_from_wire raw"
  by (auto simp: asset_code_new_def Let_def asset_code_from_wire_def normalise_asset_idem)

text \<open>
  The wire codes are round trips: a state's byte decodes to that state and nothing
  else does, and a channel name parses exactly when it is the rendering of a wire channel
  (\<open>BookRaw\<close> shares the rendering of \<open>Book\<close> and is never parsed).
\<close>

lemma wire_codes_round_trip:
  "(from_u8 b = Some st \<longleftrightarrow> b = as_u8 st) \<and>
   (from_wire_str w = Some c \<longleftrightarrow> channel_str c = w \<and> wire_channel c = c)"
proof -
  have "from_wire_str w = Some c \<longleftrightarrow> channel_str c = w \<and> wire_channel c = c"
    using channel_str_from_wire_str [of w c] from_wire_str_channel_str [of c] by auto
  then show ?thesis using from_u8_Some from_u8_as_u8 by blast
qed

end
