(* ===== verification/Book_Checksum.thy ===== *)
theory Book_Checksum
  imports Wire_Types
begin

unbundle bit_operations_syntax

text \<open>
  The book-channel checksum, \<open>src/rust/src/book/checksum.rs\<close>. The hasher of the \<open>crc32fast\<close>
  crate is a parameter: the record \<open>hasher\<close> holds the three operations the code calls, and
  the locale \<open>crc_hasher\<close> states what the code relies on (feeding two chunks is feeding
  their concatenation). \<open>update_stripped\<close> is the streaming strip with its fixed stack
  buffer; the lemmas show that it hashes the stripped text of the wire string, whatever the
  length, and that the whole checksum is the hash of one concatenated text. The IEEE CRC-32
  named in \<open>docs/guides/order-book.md\<close> is given as a concrete instance.
\<close>

section \<open>The hasher interface\<close>

record 'h hasher =
  hash_new :: 'h
  hash_update :: "'h \<Rightarrow> char list \<Rightarrow> 'h"
  hash_finalize :: "'h \<Rightarrow> u32"

locale crc_hasher =
  fixes H :: "'h hasher"
  assumes update_append: "hash_update H (hash_update H h xs) ys = hash_update H h (xs @ ys)"
    and update_Nil: "hash_update H h [] = h"

section \<open>The model\<close>

definition CHECKSUM_DEPTH :: nat where
  "CHECKSUM_DEPTH = 10"

definition STRIP_BUF_LEN :: nat where
  "STRIP_BUF_LEN = 32"

text \<open>The byte loop of \<open>update_stripped\<close>, with its locals \<open>hasher\<close>, \<open>buf\<close>, \<open>len\<close> and
  \<open>leading\<close>, and the final partial flush.\<close>

fun strip_loop :: "'h hasher \<Rightarrow> 'h \<Rightarrow> char list \<Rightarrow> nat \<Rightarrow> bool \<Rightarrow> string \<Rightarrow> 'h" where
  "strip_loop H h buf len leading [] = hash_update H h (take len buf)"
| "strip_loop H h buf len leading (b # s) =
     (if b = CHR ''.'' then strip_loop H h buf len leading s
      else if leading \<and> b = CHR ''0'' then strip_loop H h buf len leading s
      else if len = STRIP_BUF_LEN
      then strip_loop H (hash_update H h buf) (buf[0 := b]) 1 False s
      else strip_loop H h (buf[len := b]) (len + 1) False s)"

definition update_stripped :: "'h hasher \<Rightarrow> 'h \<Rightarrow> string \<Rightarrow> 'h" where
  "update_stripped H h s = strip_loop H h (replicate STRIP_BUF_LEN (char_of (0 :: nat))) 0 True s"

type_synonym wire_level = "string \<times> string"

fun feed_levels :: "'h hasher \<Rightarrow> 'h \<Rightarrow> wire_level list \<Rightarrow> 'h" where
  "feed_levels H h [] = h"
| "feed_levels H h ((price, qty) # ls) =
     feed_levels H (update_stripped H (update_stripped H h price) qty) ls"

definition compute_book_crc32 :: "'h hasher \<Rightarrow> wire_level list \<Rightarrow> wire_level list \<Rightarrow> u32" where
  "compute_book_crc32 H asks bids =
     hash_finalize H (feed_levels H (feed_levels H (hash_new H) asks) bids)"

section \<open>What is hashed\<close>

text \<open>The text of one wire string: the decimal point removed, then the leading zeros.\<close>

definition stripped :: "string \<Rightarrow> string" where
  "stripped s = dropWhile (\<lambda>b. b = CHR ''0'') (filter (\<lambda>b. b \<noteq> CHR ''.'') s)"

definition level_text :: "wire_level \<Rightarrow> string" where
  "level_text l = stripped (fst l) @ stripped (snd l)"

definition checksum_text :: "wire_level list \<Rightarrow> wire_level list \<Rightarrow> string" where
  "checksum_text asks bids = concat (map level_text asks) @ concat (map level_text bids)"

context crc_hasher
begin

lemma strip_loop_spec:
  assumes "length buf = STRIP_BUF_LEN" and "len \<le> STRIP_BUF_LEN"
  shows "strip_loop H h buf len leading s =
    hash_update H h (take len buf @
      (if leading then stripped s else filter (\<lambda>b. b \<noteq> CHR ''.'') s))"
  using assms
proof (induction s arbitrary: h buf len leading)
  case Nil
  then show ?case by (simp add: stripped_def)
next
  case (Cons b s)
  consider "b = CHR ''.''" | "b \<noteq> CHR ''.''" "leading" "b = CHR ''0''"
    | "b \<noteq> CHR ''.''" "\<not> (leading \<and> b = CHR ''0'')" "len = STRIP_BUF_LEN"
    | "b \<noteq> CHR ''.''" "\<not> (leading \<and> b = CHR ''0'')" "len < STRIP_BUF_LEN"
    using Cons.prems(2) by fastforce
  then show ?case
  proof cases
    case 3
    moreover have "take (Suc 0) (buf[0 := b]) = [b]"
      using Cons.prems(1) by (cases buf) (simp_all add: STRIP_BUF_LEN_def)
    ultimately show ?thesis
      using Cons.prems Cons.IH [of "buf[0 := b]" 1 "hash_update H h buf" False]
      by (auto simp: update_append stripped_def STRIP_BUF_LEN_def)
  next
    case 4
    then have "take (Suc len) (buf[len := b]) = take len buf @ [b]"
      using Cons.prems(1) by (simp add: take_Suc_conv_app_nth)
    with 4 show ?thesis
      using Cons.prems Cons.IH [of "buf[len := b]" "len + 1" h False]
      by (auto simp: stripped_def)
  qed (use Cons in \<open>simp_all add: stripped_def\<close>)
qed

lemma update_stripped_spec: "update_stripped H h s = hash_update H h (stripped s)"
  by (simp add: update_stripped_def strip_loop_spec)

lemma feed_levels_spec:
  "feed_levels H h ls = hash_update H h (concat (map level_text ls))"
proof (induction ls arbitrary: h)
  case (Cons l ls)
  then show ?case
    by (cases l) (simp add: update_stripped_spec update_append level_text_def)
qed (simp add: update_Nil)

lemma compute_book_crc32_spec:
  "compute_book_crc32 H asks bids =
     hash_finalize H (hash_update H (hash_new H) (checksum_text asks bids))"
  by (simp add: compute_book_crc32_def feed_levels_spec update_append checksum_text_def)

end

section \<open>The IEEE CRC-32 as an instance\<close>

fun crc32_bits :: "nat \<Rightarrow> u32 \<Rightarrow> u32" where
  "crc32_bits 0 c = c"
| "crc32_bits (Suc n) c =
     crc32_bits n (if bit c 0 then drop_bit 1 c XOR 0xEDB88320 else drop_bit 1 c)"

definition crc32_byte :: "u32 \<Rightarrow> char \<Rightarrow> u32" where
  "crc32_byte c b = crc32_bits 8 (c XOR word_of_nat (of_char b))"

definition crc32_ieee :: "u32 hasher" where
  "crc32_ieee = \<lparr>hash_new = 0xFFFFFFFF, hash_update = foldl crc32_byte, hash_finalize = NOT\<rparr>"

interpretation ieee: crc_hasher crc32_ieee
  by unfold_locales (simp_all add: crc32_ieee_def)

lemma crc32_ieee_check: "hash_finalize crc32_ieee (hash_update crc32_ieee (hash_new crc32_ieee) ''123456789'') = 0xCBF43926"
  by code_simp

section \<open>Properties\<close>

text \<open>
  Property C33. The streaming checksum is the hash of one text: for every side and every level,
  the price and quantity as sent with the decimal point and the leading zeros removed, asks
  first. The 32-byte buffer and its flushes do not show, whatever the length of the strings.
\<close>

theorem checksum_hashes_stripped_text:
  assumes "crc_hasher H"
  shows "compute_book_crc32 H asks bids =
    hash_finalize H (hash_update H (hash_new H) (checksum_text asks bids))"
  by (rule crc_hasher.compute_book_crc32_spec [OF assms])

theorem checksum_hashes_stripped_text_witness:
  "compute_book_crc32 crc32_ieee [(''45285.21000000'', ''1.5'')] [(''45282.1'', ''0.0001'')] =
     hash_finalize crc32_ieee (hash_update crc32_ieee (hash_new crc32_ieee) ''4528521000000154528211'')"
proof -
  have "checksum_text [(''45285.21000000'', ''1.5'')] [(''45282.1'', ''0.0001'')]
      = ''4528521000000154528211''"
    by (simp add: checksum_text_def level_text_def stripped_def)
  then show ?thesis
    using checksum_hashes_stripped_text [OF ieee.crc_hasher_axioms,
        of "[(''45285.21000000'', ''1.5'')]" "[(''45282.1'', ''0.0001'')]"] by simp
qed

end
