(* ===== verification/Order_Book.thy ===== *)
theory Order_Book
  imports Book_Checksum
begin

text \<open>
  The maintained order book, \<open>src/rust/src/book/builder.rs\<close>, and the frame decode of
  \<open>src/rust/src/book/wire.rs\<close>. Prices and quantities are values of a linearly ordered type
  \<open>'d\<close>: the \<open>Decimal\<close> of the \<open>rust_decimal\<close> crate, whose parser is a parameter of the
  decode. The two \<open>BTreeMap\<close>s are sorted association lists, bids keyed by \<open>desc_price\<close>
  whose order is reversed. Every mutating method returns the new builder.
\<close>

section \<open>Levels and errors\<close>

record 'd price_level =
  pl_price :: 'd
  pl_qty :: 'd
  price_wire :: string
  qty_wire :: string

record 'd book_level =
  bl_price :: 'd
  bl_qty :: 'd

definition book_level_from :: "'d price_level \<Rightarrow> 'd book_level" where
  "book_level_from l = \<lparr>bl_price = pl_price l, bl_qty = pl_qty l\<rparr>"

record 'd order_book_update =
  u_symbol :: string
  u_bids :: "'d book_level list"
  u_asks :: "'d book_level list"
  u_checksum :: u32
  u_timestamp :: "instant option"
  u_exchange_timestamp :: string

datatype apply_error = ChecksumMismatch (expected: u32) (computed: u32)

section \<open>The reversed price order of the bid side\<close>

datatype 'd desc_price = DescPrice (desc_val: 'd)

definition desc_cmp_le :: "'d::linorder desc_price \<Rightarrow> 'd desc_price \<Rightarrow> bool" where
  "desc_cmp_le x y \<longleftrightarrow> desc_val y \<le> desc_val x"

instantiation desc_price :: (linorder) linorder
begin

definition less_eq_desc_price :: "'a desc_price \<Rightarrow> 'a desc_price \<Rightarrow> bool" where
  "less_eq_desc_price x y \<longleftrightarrow> desc_cmp_le x y"

definition less_desc_price :: "'a desc_price \<Rightarrow> 'a desc_price \<Rightarrow> bool" where
  "less_desc_price x y \<longleftrightarrow> desc_val y < desc_val x"

instance
  by standard (auto simp: less_eq_desc_price_def desc_cmp_le_def less_desc_price_def desc_price.expand)

end

section \<open>The builder\<close>

record 'd order_book_builder =
  b_symbol :: string
  maintained_depth :: nat
  caller_depth :: nat
  b_bids :: "('d desc_price, 'd price_level) btree"
  b_asks :: "('d, 'd price_level) btree"
  last_checksum :: "u32 option"
  resyncing :: bool
  consecutive_gaps :: u32

definition builder_new :: "string \<Rightarrow> nat \<Rightarrow> nat \<Rightarrow> 'd order_book_builder" where
  "builder_new symbol depth cdepth =
     \<lparr>b_symbol = symbol, maintained_depth = depth, caller_depth = cdepth, b_bids = [], b_asks = [],
      last_checksum = None, resyncing = False, consecutive_gaps = 0\<rparr>"

definition begin_resync :: "'d order_book_builder \<Rightarrow> 'd order_book_builder" where
  "begin_resync b = b\<lparr>b_bids := [], b_asks := [], last_checksum := None, resyncing := True\<rparr>"

definition note_reseed_failure :: "'d order_book_builder \<Rightarrow> 'd order_book_builder \<times> u32" where
  "note_reseed_failure b =
     (let n = saturating_add (consecutive_gaps b) 1 in (b\<lparr>consecutive_gaps := n\<rparr>, n))"

text \<open>A delta level deletes when no byte of its wire quantity is a digit other than zero.\<close>

definition delta_level_deletes :: "'d price_level \<Rightarrow> bool" where
  "delta_level_deletes l \<longleftrightarrow> \<not> list_ex (\<lambda>b. is_ascii_digit b \<and> b \<noteq> CHR ''0'') (qty_wire l)"

text \<open>One side of a snapshot and of a delta, generic in the sort key.\<close>

fun seed_side :: "('d price_level \<Rightarrow> 'k::linorder) \<Rightarrow> 'd price_level list \<Rightarrow>
    ('k, 'd price_level) btree \<Rightarrow> ('k, 'd price_level) btree" where
  "seed_side key [] m = m"
| "seed_side key (l # ls) m = seed_side key ls (bt_insert (key l) l m)"

fun delta_side :: "('d price_level \<Rightarrow> 'k::linorder) \<Rightarrow> 'd price_level list \<Rightarrow>
    ('k, 'd price_level) btree \<Rightarrow> ('k, 'd price_level) btree" where
  "delta_side key [] m = m"
| "delta_side key (l # ls) m =
     delta_side key ls
       (if delta_level_deletes l then bt_remove (key l) m else bt_insert (key l) l m)"

text \<open>The \<open>while\<close> loop of \<open>trim_to_depth\<close> on one side.\<close>

function trim_side :: "nat \<Rightarrow> ('k, 'v) btree \<Rightarrow> ('k, 'v) btree" where
  "trim_side n m = (if n < length m then trim_side n (bt_pop_last m) else m)"
  by pat_completeness auto
termination
  by (relation "measure (\<lambda>(n, m). length m)") (auto simp: bt_pop_last_def)

declare trim_side.simps [simp del]

definition trim_to_depth :: "'d order_book_builder \<Rightarrow> 'd order_book_builder" where
  "trim_to_depth b = b\<lparr>b_bids := trim_side (maintained_depth b) (b_bids b),
                       b_asks := trim_side (maintained_depth b) (b_asks b)\<rparr>"

definition wire_of :: "'d price_level \<Rightarrow> wire_level" where
  "wire_of l = (price_wire l, qty_wire l)"

definition compute_checksum :: "'h hasher \<Rightarrow> 'd order_book_builder \<Rightarrow> u32" where
  "compute_checksum H b =
     compute_book_crc32 H
       (map wire_of (take CHECKSUM_DEPTH (bt_values (b_asks b))))
       (map wire_of (take CHECKSUM_DEPTH (bt_values (b_bids b))))"

definition validate_and_record ::
    "'h hasher \<Rightarrow> u32 \<Rightarrow> 'd order_book_builder \<Rightarrow> 'd order_book_builder \<times> (apply_error + unit)" where
  "validate_and_record H want b =
     (let crc = compute_checksum H b in
      if crc \<noteq> want
      then (b\<lparr>consecutive_gaps := saturating_add (consecutive_gaps b) 1\<rparr>,
            Inl (ChecksumMismatch want crc))
      else (b\<lparr>last_checksum := Some crc, consecutive_gaps := 0\<rparr>, Inr ()))"

abbreviation bid_key :: "'d price_level \<Rightarrow> 'd desc_price" where
  "bid_key l \<equiv> DescPrice (pl_price l)"

definition apply_snapshot :: "'h hasher \<Rightarrow> 'd::linorder price_level list \<Rightarrow> 'd price_level list \<Rightarrow>
    u32 \<Rightarrow> 'd order_book_builder \<Rightarrow> 'd order_book_builder \<times> (apply_error + unit)" where
  "apply_snapshot H bids asks checksum b =
     validate_and_record H checksum
       (trim_to_depth
         (b\<lparr>b_bids := seed_side bid_key bids [], b_asks := seed_side pl_price asks [],
            resyncing := False\<rparr>))"

definition apply_delta :: "'h hasher \<Rightarrow> 'd::linorder price_level list \<Rightarrow> 'd price_level list \<Rightarrow>
    u32 \<Rightarrow> 'd order_book_builder \<Rightarrow> 'd order_book_builder \<times> (apply_error + unit)" where
  "apply_delta H bid_updates ask_updates checksum b =
     validate_and_record H checksum
       (trim_to_depth
         (b\<lparr>b_bids := delta_side bid_key bid_updates (b_bids b),
            b_asks := delta_side pl_price ask_updates (b_asks b)\<rparr>))"

definition build_update :: "u32 \<Rightarrow> instant option \<Rightarrow> string \<Rightarrow> 'd order_book_builder \<Rightarrow>
    'd order_book_update" where
  "build_update checksum ts ets b =
     \<lparr>u_symbol = b_symbol b,
      u_bids = map book_level_from (take (caller_depth b) (bt_values (b_bids b))),
      u_asks = map book_level_from (take (caller_depth b) (bt_values (b_asks b))),
      u_checksum = checksum, u_timestamp = ts, u_exchange_timestamp = ets\<rparr>"

section \<open>Frame decode\<close>

text \<open>The JSON value of a level's \<open>price\<close> or \<open>qty\<close>: a string, a number with its text, or
  anything else.\<close>

datatype raw_value = RawString string | RawNumber string | RawOther

record raw_book_level =
  raw_price :: raw_value
  raw_qty :: raw_value

record raw_book_data =
  raw_symbol :: string
  raw_bids :: "raw_book_level list"
  raw_asks :: "raw_book_level list"
  raw_checksum :: u32
  raw_timestamp :: string

record 'd parsed_book =
  pb_symbol :: string
  pb_bids :: "'d price_level list"
  pb_asks :: "'d price_level list"
  pb_checksum :: u32
  pb_timestamp :: string

definition MAX_BOOK_LEVELS_PER_SIDE :: nat where
  "MAX_BOOK_LEVELS_PER_SIDE = 10000"

fun parse_decimal :: "(string \<Rightarrow> 'd option) \<Rightarrow> raw_value \<Rightarrow> ('d \<times> string) option" where
  "parse_decimal dec (RawString s) = map_option (\<lambda>d. (d, s)) (dec s)"
| "parse_decimal dec (RawNumber s) = map_option (\<lambda>d. (d, s)) (dec s)"
| "parse_decimal dec RawOther = None"

definition into_level :: "(string \<Rightarrow> 'd option) \<Rightarrow> raw_book_level \<Rightarrow> 'd price_level option" where
  "into_level dec r =
     (case parse_decimal dec (raw_price r) of
        None \<Rightarrow> None
      | Some (price, pw) \<Rightarrow>
          (case parse_decimal dec (raw_qty r) of
             None \<Rightarrow> None
           | Some (qty, qw) \<Rightarrow>
               Some \<lparr>pl_price = price, pl_qty = qty, price_wire = pw, qty_wire = qw\<rparr>))"

fun collect_levels :: "(string \<Rightarrow> 'd option) \<Rightarrow> raw_book_level list \<Rightarrow> 'd price_level list option" where
  "collect_levels dec [] = Some []"
| "collect_levels dec (r # rs) =
     (case into_level dec r of
        None \<Rightarrow> None
      | Some l \<Rightarrow> map_option ((#) l) (collect_levels dec rs))"

definition parse_raw :: "(string \<Rightarrow> 'd option) \<Rightarrow> raw_book_data \<Rightarrow> 'd parsed_book option" where
  "parse_raw dec raw =
     (if length (raw_bids raw) > MAX_BOOK_LEVELS_PER_SIDE \<or>
         length (raw_asks raw) > MAX_BOOK_LEVELS_PER_SIDE then None
      else case collect_levels dec (raw_bids raw) of
        None \<Rightarrow> None
      | Some bids \<Rightarrow>
          (case collect_levels dec (raw_asks raw) of
             None \<Rightarrow> None
           | Some asks \<Rightarrow>
               Some \<lparr>pb_symbol = raw_symbol raw, pb_bids = bids, pb_asks = asks,
                     pb_checksum = raw_checksum raw, pb_timestamp = raw_timestamp raw\<rparr>))"

text \<open>\<open>parse_book_frame\<close>: the \<open>serde\<close> deserialisation is the parameter \<open>deser\<close>.\<close>

definition parse_book_frame ::
    "('j \<Rightarrow> raw_book_data option) \<Rightarrow> (string \<Rightarrow> 'd option) \<Rightarrow> 'j \<Rightarrow> 'd parsed_book option" where
  "parse_book_frame deser dec data =
     (case deser data of None \<Rightarrow> None | Some raw \<Rightarrow> parse_raw dec raw)"

section \<open>Sides as maps\<close>

text \<open>What one level of a delta does to the map a side stands for.\<close>

definition level_effect :: "('d price_level \<Rightarrow> 'k) \<Rightarrow> 'd price_level \<Rightarrow>
    ('k \<rightharpoonup> 'd price_level) \<Rightarrow> ('k \<rightharpoonup> 'd price_level)" where
  "level_effect key l m = (if delta_level_deletes l then m(key l := None) else m(key l \<mapsto> l))"

definition level_put :: "('d price_level \<Rightarrow> 'k) \<Rightarrow> 'd price_level \<Rightarrow>
    ('k \<rightharpoonup> 'd price_level) \<Rightarrow> ('k \<rightharpoonup> 'd price_level)" where
  "level_put key l m = m(key l \<mapsto> l)"

lemma trim_side_take: "trim_side n m = take n m"
proof (induction n m rule: trim_side.induct)
  case (1 n m)
  show ?case
  proof (cases "n < length m")
    case True
    with "1.IH" show ?thesis
      by (subst trim_side.simps) (simp add: bt_pop_last_def take_butlast)
  next
    case False
    then show ?thesis by (subst trim_side.simps) simp
  qed
qed

lemma seed_side_inv: "bt_inv m \<Longrightarrow> bt_inv (seed_side key ls m)"
  by (induction key ls m rule: seed_side.induct) (simp_all add: bt_simps)

lemma delta_side_inv: "bt_inv m \<Longrightarrow> bt_inv (delta_side key ls m)"
  by (induction key ls m rule: delta_side.induct) (simp_all add: bt_simps)

lemma seed_side_map: "map_of (seed_side key ls m) = fold (level_put key) ls (map_of m)"
  by (induction key ls m rule: seed_side.induct) (simp_all add: bt_simps level_put_def)

lemma delta_side_map:
  "bt_inv m \<Longrightarrow> map_of (delta_side key ls m) = fold (level_effect key) ls (map_of m)"
  by (induction key ls m rule: delta_side.induct) (simp_all add: bt_simps level_effect_def)

text \<open>Every stored level sits under its own key.\<close>

definition keyed :: "('d price_level \<Rightarrow> 'k) \<Rightarrow> ('k, 'd price_level) btree \<Rightarrow> bool" where
  "keyed key m \<longleftrightarrow> (\<forall>(k, l) \<in> set m. k = key l)"

lemma keyed_insert: "keyed key m \<Longrightarrow> keyed key (bt_insert (key l) l m)"
proof -
  have "set (bt_insert k l m) \<subseteq> insert (k, l) (set m)" for k
    by (induction k l m rule: bt_insert.induct) auto
  then show "keyed key m \<Longrightarrow> keyed key (bt_insert (key l) l m)"
    by (fastforce simp: keyed_def)
qed

lemma set_bt_remove: "set (bt_remove k m) \<subseteq> set m"
  by (induction k m rule: bt_remove.induct) auto

lemma keyed_remove: "keyed key m \<Longrightarrow> keyed key (bt_remove k m)"
  using set_bt_remove by (fastforce simp: keyed_def)

lemma keyed_take: "keyed key m \<Longrightarrow> keyed key (take n m)"
  by (auto simp: keyed_def dest: in_set_takeD)

lemma keyed_seed: "keyed key m \<Longrightarrow> keyed key (seed_side key ls m)"
  by (induction key ls m rule: seed_side.induct) (simp_all add: keyed_insert)

lemma keyed_delta: "keyed key m \<Longrightarrow> keyed key (delta_side key ls m)"
  by (induction key ls m rule: delta_side.induct) (simp_all add: keyed_insert keyed_remove)

section \<open>The builder invariant\<close>

definition side_inv :: "('d price_level \<Rightarrow> 'k::linorder) \<Rightarrow> nat \<Rightarrow> ('k, 'd price_level) btree \<Rightarrow> bool" where
  "side_inv key n m \<longleftrightarrow> bt_inv m \<and> keyed key m \<and> length m \<le> n"

definition builder_inv :: "'d::linorder order_book_builder \<Rightarrow> bool" where
  "builder_inv b \<longleftrightarrow>
     side_inv bid_key (maintained_depth b) (b_bids b) \<and>
     side_inv pl_price (maintained_depth b) (b_asks b)"

lemma side_inv_Nil [simp]: "side_inv key n []"
  by (simp add: side_inv_def keyed_def)

lemma side_inv_trim: "bt_inv m \<Longrightarrow> keyed key m \<Longrightarrow> side_inv key n (trim_side n m)"
  by (simp add: side_inv_def trim_side_take bt_simps keyed_take)

lemma seed_side_side_inv: "side_inv key n (trim_side n (seed_side key ls []))"
  by (intro side_inv_trim seed_side_inv keyed_seed) (simp_all add: keyed_def)

lemma delta_side_side_inv: "side_inv key n m \<Longrightarrow> side_inv key n (trim_side n (delta_side key ls m))"
  by (intro side_inv_trim delta_side_inv keyed_delta) (simp_all add: side_inv_def)

lemma validate_and_record_fields [simp]:
  "b_bids (fst (validate_and_record H w b)) = b_bids b"
  "b_asks (fst (validate_and_record H w b)) = b_asks b"
  "maintained_depth (fst (validate_and_record H w b)) = maintained_depth b"
  "caller_depth (fst (validate_and_record H w b)) = caller_depth b"
  "b_symbol (fst (validate_and_record H w b)) = b_symbol b"
  "resyncing (fst (validate_and_record H w b)) = resyncing b"
  by (simp_all add: validate_and_record_def Let_def)

lemma trim_to_depth_fields [simp]:
  "b_bids (trim_to_depth b) = trim_side (maintained_depth b) (b_bids b)"
  "b_asks (trim_to_depth b) = trim_side (maintained_depth b) (b_asks b)"
  "maintained_depth (trim_to_depth b) = maintained_depth b"
  "caller_depth (trim_to_depth b) = caller_depth b"
  "b_symbol (trim_to_depth b) = b_symbol b"
  "resyncing (trim_to_depth b) = resyncing b"
  "consecutive_gaps (trim_to_depth b) = consecutive_gaps b"
  "last_checksum (trim_to_depth b) = last_checksum b"
  by (simp_all add: trim_to_depth_def)

lemma builder_new_inv: "builder_inv (builder_new symbol d c)"
  by (simp add: builder_inv_def builder_new_def)

lemma begin_resync_inv: "builder_inv (begin_resync b)"
  by (simp add: builder_inv_def begin_resync_def)

lemma note_reseed_failure_inv: "builder_inv b \<Longrightarrow> builder_inv (fst (note_reseed_failure b))"
  by (simp add: builder_inv_def note_reseed_failure_def Let_def)

lemma apply_snapshot_inv: "builder_inv (fst (apply_snapshot H bs as c b))"
  by (simp add: builder_inv_def apply_snapshot_def seed_side_side_inv)

lemma apply_delta_inv: "builder_inv b \<Longrightarrow> builder_inv (fst (apply_delta H bs as c b))"
  by (simp add: builder_inv_def apply_delta_def delta_side_side_inv)

lemmas builder_inv_intros =
  builder_new_inv begin_resync_inv note_reseed_failure_inv apply_snapshot_inv apply_delta_inv

section \<open>Promotion headroom\<close>

text \<open>
  A trimmed side agrees with an untrimmed one on its best levels for as long as the deletions
  of a frame do not reach the trimmed tail.
\<close>

lemma take_bt_insert_cong:
  "take m xs = take m ys \<Longrightarrow> take m (bt_insert k v xs) = take m (bt_insert k v ys)"
proof (induction xs arbitrary: m ys)
  case Nil
  then show ?case by (cases m) auto
next
  case (Cons x xs)
  show ?case
  proof (cases m)
    case (Suc n)
    with Cons.prems obtain ys' where ys: "ys = x # ys'" and eq: "take n xs = take n ys'"
      by (cases ys) auto
    obtain a b where x: "x = (a, b)" by (cases x)
    have "take n (x # xs) = take n (x # ys')"
      using arg_cong [OF eq, of "take (n - 1)"] by (cases n) simp_all
    moreover note Cons.IH [OF eq]
    ultimately show ?thesis
      using eq unfolding Suc ys x by (auto simp del: take_Suc_Cons simp: take_Suc_Cons)
  qed simp
qed

lemma take_bt_remove_cong:
  "take (Suc m) xs = take (Suc m) ys \<Longrightarrow> take m (bt_remove k xs) = take m (bt_remove k ys)"
proof (induction xs arbitrary: m ys)
  case Nil
  then show ?case by auto
next
  case (Cons x xs)
  then obtain ys' where ys: "ys = x # ys'" and eq: "take m xs = take m ys'"
    by (cases ys) auto
  obtain a b where x: "x = (a, b)" by (cases x)
  show ?case
  proof (cases m)
    case (Suc n)
    then have "take n (bt_remove k xs) = take n (bt_remove k ys')"
      using eq by (intro Cons.IH) simp
    then show ?thesis using eq unfolding Suc ys x by simp
  qed simp
qed

definition deletions :: "'d price_level list \<Rightarrow> nat" where
  "deletions ls = length (filter delta_level_deletes ls)"

lemma take_delta_side_cong:
  "take (m + deletions ls) xs = take (m + deletions ls) ys \<Longrightarrow>
   take m (delta_side key ls xs) = take m (delta_side key ls ys)"
proof (induction ls arbitrary: xs ys)
  case (Cons l ls)
  show ?case
  proof (cases "delta_level_deletes l")
    case True
    with Cons.prems have "take (Suc (m + deletions ls)) xs = take (Suc (m + deletions ls)) ys"
      by (simp add: deletions_def)
    from Cons.IH [OF take_bt_remove_cong [OF this]] True show ?thesis by simp
  next
    case False
    with Cons.prems have "take (m + deletions ls) xs = take (m + deletions ls) ys"
      by (simp add: deletions_def)
    from Cons.IH [OF take_bt_insert_cong [OF this]] False show ?thesis by simp
  qed
qed (simp add: deletions_def)

lemma trimmed_delta_top:
  assumes "m + deletions ls \<le> n"
  shows "take m (trim_side n (delta_side key ls (take n full))) = take m (delta_side key ls full)"
proof -
  have "take (m + deletions ls) (take n full) = take (m + deletions ls) full"
    using assms by (simp add: min.absorb1)
  then have "take m (delta_side key ls (take n full)) = take m (delta_side key ls full)"
    by (rule take_delta_side_cong)
  moreover have "m \<le> n" using assms by simp
  ultimately show ?thesis by (simp add: trim_side_take min.absorb1)
qed

section \<open>Runs of the builder\<close>

datatype 'd book_op =
    Snapshot "'d price_level list" "'d price_level list" u32
  | Delta "'d price_level list" "'d price_level list" u32
  | Resync
  | ReseedFailure

fun book_step :: "'h hasher \<Rightarrow> 'd::linorder book_op \<Rightarrow> 'd order_book_builder \<Rightarrow> 'd order_book_builder" where
  "book_step H (Snapshot bs as c) b = fst (apply_snapshot H bs as c b)"
| "book_step H (Delta bs as c) b = fst (apply_delta H bs as c b)"
| "book_step H Resync b = begin_resync b"
| "book_step H ReseedFailure b = fst (note_reseed_failure b)"

lemma book_step_inv: "builder_inv b \<Longrightarrow> builder_inv (book_step H op b)"
  by (cases op) (simp_all add: builder_inv_intros)

lemma book_run_inv: "builder_inv b \<Longrightarrow> builder_inv (fold (book_step H) ops b)"
  by (induction ops arbitrary: b) (simp_all add: book_step_inv)

lemma book_step_depths [simp]:
  "maintained_depth (book_step H op b) = maintained_depth b"
  "caller_depth (book_step H op b) = caller_depth b"
  by (cases op; simp add: apply_snapshot_def apply_delta_def begin_resync_def
        note_reseed_failure_def Let_def)+

lemma book_run_depths [simp]:
  "maintained_depth (fold (book_step H) ops b) = maintained_depth b"
  "caller_depth (fold (book_step H) ops b) = caller_depth b"
  by (induction ops arbitrary: b) simp_all

lemma keyed_values: "keyed key m \<Longrightarrow> map (key \<circ> snd) m = bt_keys m"
  by (auto simp: keyed_def)

lemma published_prices:
  "map bl_price (map book_level_from ls) = map pl_price ls"
  by (simp add: book_level_from_def)

lemma side_keys_sorted: "side_inv key n m \<Longrightarrow> sorted_wrt (<) (map (key \<circ> snd) m)"
  by (simp only: side_inv_def keyed_values bt_inv_def)

lemma ask_prices_sorted:
  "side_inv pl_price n m \<Longrightarrow> sorted_wrt (<) (map pl_price (take c (bt_values m)))"
  using side_keys_sorted [of pl_price n m] by (simp add: sorted_wrt_take take_map [symmetric])

lemma bid_prices_sorted:
  assumes "side_inv bid_key n m"
  shows "sorted_wrt (>) (map pl_price (take c (bt_values m)))"
proof -
  from side_keys_sorted [OF assms] have "sorted_wrt (>) (map (pl_price \<circ> snd) m)"
    by (simp add: sorted_wrt_map less_desc_price_def)
  then show ?thesis by (simp add: sorted_wrt_take take_map [symmetric])
qed

lemma validate_and_record_cases:
  "validate_and_record H c b = (b', r) \<Longrightarrow>
     compute_checksum H b' = compute_checksum H b \<and>
     r = (if compute_checksum H b = c then Inr () else Inl (ChecksumMismatch c (compute_checksum H b))) \<and>
     consecutive_gaps b' =
       (if compute_checksum H b = c then 0 else saturating_add (consecutive_gaps b) 1) \<and>
     last_checksum b' = (if compute_checksum H b = c then Some c else last_checksum b)"
  by (auto simp: validate_and_record_def compute_checksum_def Let_def split: if_splits)

section \<open>Properties\<close>

text \<open>
  Property C12. Applying a frame is updating two maps and keeping the best levels. After a delta
  each side is the first \<open>maintained_depth\<close> entries of the sorted list of the map obtained by
  removing the wire-zero levels and inserting the others, in order; after a snapshot the map
  starts empty. (The sorted list of a map is unique.)
\<close>

theorem apply_refines_maps:
  assumes "builder_inv b"
  shows "\<exists>ask bid ask' bid'.
    bt_inv ask \<and> map_of ask = fold (level_effect pl_price) as (map_of (b_asks b)) \<and>
    bt_inv bid \<and> map_of bid = fold (level_effect bid_key) bs (map_of (b_bids b)) \<and>
    b_asks (fst (apply_delta H bs as c b)) = take (maintained_depth b) ask \<and>
    b_bids (fst (apply_delta H bs as c b)) = take (maintained_depth b) bid \<and>
    bt_inv ask' \<and> map_of ask' = fold (level_put pl_price) as Map.empty \<and>
    bt_inv bid' \<and> map_of bid' = fold (level_put bid_key) bs Map.empty \<and>
    b_asks (fst (apply_snapshot H bs as c b)) = take (maintained_depth b) ask' \<and>
    b_bids (fst (apply_snapshot H bs as c b)) = take (maintained_depth b) bid'"
proof -
  have inv: "bt_inv (b_asks b)" "bt_inv (b_bids b)"
    using assms by (simp_all add: builder_inv_def side_inv_def)
  show ?thesis
    by (rule exI [of _ "delta_side pl_price as (b_asks b)"],
        rule exI [of _ "delta_side bid_key bs (b_bids b)"],
        rule exI [of _ "seed_side pl_price as []"], rule exI [of _ "seed_side bid_key bs []"])
      (simp add: inv delta_side_inv delta_side_map seed_side_inv seed_side_map
        apply_delta_def apply_snapshot_def trim_side_take)
qed

definition sample_level :: "nat \<Rightarrow> string \<Rightarrow> nat price_level" where
  "sample_level p q = \<lparr>pl_price = p, pl_qty = 1, price_wire = ''7'', qty_wire = q\<rparr>"

theorem apply_refines_maps_witness:
  "\<exists>ask. bt_inv ask \<and>
     map_of ask = fold (level_effect pl_price) [sample_level 3 ''0.0'', sample_level 5 ''2'']
       [3 \<mapsto> sample_level 3 ''1''] \<and>
     b_asks (fst (apply_delta crc32_ieee [] [sample_level 3 ''0.0'', sample_level 5 ''2''] 0
       ((builder_new ''X/Y'' 25 10)\<lparr>b_asks := [(3, sample_level 3 ''1'')]\<rparr>))) = take 25 ask"
proof -
  let ?b = "(builder_new ''X/Y'' 25 10)\<lparr>b_asks := [(3, sample_level 3 ''1'')]\<rparr>"
  have "builder_inv ?b"
    by (simp add: builder_inv_def builder_new_def side_inv_def keyed_def bt_inv_def sample_level_def)
  from apply_refines_maps [OF this, of "[sample_level 3 ''0.0'', sample_level 5 ''2'']" "[]" crc32_ieee 0]
  show ?thesis by (simp add: builder_new_def) metis
qed




text \<open>
  Property C31. A frame is accepted exactly when the checksum of the book it leaves behind is the
  one the exchange sent. Acceptance records the checksum and ends the gap streak; a mismatch
  reports both values and lengthens the streak by one (saturating), and a snapshot ends the
  resync window either way.
\<close>

theorem apply_accepts_iff_checksum:
  "(let (b', r) = apply_delta H bs as c b; ok = (compute_checksum H b' = c) in
      r = (if ok then Inr () else Inl (ChecksumMismatch c (compute_checksum H b'))) \<and>
      consecutive_gaps b' = (if ok then 0 else saturating_add (consecutive_gaps b) 1) \<and>
      last_checksum b' = (if ok then Some c else last_checksum b) \<and> resyncing b' = resyncing b) \<and>
   (let (b', r) = apply_snapshot H bs as c b; ok = (compute_checksum H b' = c) in
      r = (if ok then Inr () else Inl (ChecksumMismatch c (compute_checksum H b'))) \<and>
      consecutive_gaps b' = (if ok then 0 else saturating_add (consecutive_gaps b) 1) \<and>
      last_checksum b' = (if ok then Some c else last_checksum b) \<and> \<not> resyncing b')"
proof -
  obtain d r where d: "apply_delta H bs as c b = (d, r)" by fastforce
  obtain e q where e: "apply_snapshot H bs as c b = (e, q)" by fastforce
  have "resyncing d = resyncing b" "\<not> resyncing e"
    using arg_cong [OF d, of "resyncing \<circ> fst"] arg_cong [OF e, of "resyncing \<circ> fst"]
    by (simp_all add: apply_delta_def apply_snapshot_def)
  then show ?thesis
    using validate_and_record_cases [OF d [unfolded apply_delta_def]]
      validate_and_record_cases [OF e [unfolded apply_snapshot_def]]
    by (simp add: d e Let_def)
qed

section \<open>What decoding keeps\<close>

definition raw_text :: "raw_value \<Rightarrow> string" where
  "raw_text v = (case v of RawString s \<Rightarrow> s | RawNumber s \<Rightarrow> s | RawOther \<Rightarrow> [])"

definition decodes :: "(string \<Rightarrow> 'd option) \<Rightarrow> raw_book_level \<Rightarrow> 'd price_level \<Rightarrow> bool" where
  "decodes dec r l \<longleftrightarrow> raw_price r \<noteq> RawOther \<and> raw_qty r \<noteq> RawOther \<and>
     price_wire l = raw_text (raw_price r) \<and> qty_wire l = raw_text (raw_qty r) \<and>
     dec (price_wire l) = Some (pl_price l) \<and> dec (qty_wire l) = Some (pl_qty l)"

lemma parse_decimal_Some:
  "parse_decimal dec v = Some (d, s) \<longleftrightarrow> v \<noteq> RawOther \<and> s = raw_text v \<and> dec s = Some d"
  by (cases v) (auto simp: raw_text_def)

lemma into_level_Some: "into_level dec r = Some l \<longleftrightarrow> decodes dec r l"
proof -
  have "parse_decimal dec v = None \<longleftrightarrow> v = RawOther \<or> dec (raw_text v) = None" for v
    by (cases v) (auto simp: raw_text_def)
  then show ?thesis
    by (cases l) (auto simp: into_level_def decodes_def parse_decimal_Some split: option.splits)
qed

lemma collect_levels_Some: "collect_levels dec rs = Some ls \<longleftrightarrow> list_all2 (decodes dec) rs ls"
proof (induction rs arbitrary: ls)
  case (Cons r rs)
  then show ?case
    by (cases ls) (auto simp: into_level_Some [symmetric] split: option.splits)
qed auto

text \<open>
  Decoding keeps the exchange's text: every decoded level carries the price and
  quantity strings exactly as they were sent, with the values the decimal parser gives them,
  in wire order; a frame with an unreadable level or an oversized side is rejected whole.
\<close>

lemma parse_keeps_wire_text:
  "parse_raw dec raw = Some p \<longleftrightarrow>
     length (raw_bids raw) \<le> 10000 \<and> length (raw_asks raw) \<le> 10000 \<and>
     list_all2 (decodes dec) (raw_bids raw) (pb_bids p) \<and>
     list_all2 (decodes dec) (raw_asks raw) (pb_asks p) \<and>
     pb_symbol p = raw_symbol raw \<and> pb_checksum p = raw_checksum raw \<and>
     pb_timestamp p = raw_timestamp raw"
  by (cases p) (auto simp: parse_raw_def MAX_BOOK_LEVELS_PER_SIDE_def collect_levels_Some [symmetric]
      split: option.splits)

end
