(* ===== verification/Json.thy ===== *)
theory Json
  imports Prelude
begin

text \<open>
  The part of \<open>serde_json::Value\<close> the frame composers and response readers use: values as a datatype,
  objects as association lists with \<open>insert\<close> replacing the value of an existing key. \<open>JNum\<close> is a number
  the program builds, \<open>JNumber\<close> one kept in its wire text, as the feature \<open>arbitrary_precision\<close> keeps it.
\<close>

datatype json =
    JNull
  | JBool bool
  | JNum nat
  | JNumber string
  | JStr string
  | JArr "json list"
  | JObj "(string \<times> json) list"

definition obj_insert :: "string \<Rightarrow> json \<Rightarrow> (string \<times> json) list \<Rightarrow> (string \<times> json) list" where
  "obj_insert k v o1 = AList.update k v o1"

fun json_get :: "json \<Rightarrow> string \<Rightarrow> json option" where
  "json_get (JObj o1) k = map_of o1 k"
| "json_get _ k = None"

lemma json_get_insert [simp]:
  "json_get (JObj (obj_insert k v o1)) k' = (if k' = k then Some v else json_get (JObj o1) k')"
  by (simp add: obj_insert_def hm_simps)

lemma map_of_obj_insert [simp]: "map_of (obj_insert k v o1) = (map_of o1)(k \<mapsto> v)"
  by (simp add: obj_insert_def hm_simps)

end
