(* ===== verification/Subscription_Registry.thy ===== *)
theory Subscription_Registry
  imports Order_Book Json "HOL-Library.Product_Lexorder" "HOL-Library.Option_ord"
    "HOL-Library.List_Lexorder" "HOL-Library.Char_ord"
begin

text \<open>
  The declared-intent subscription store, \<open>src/rust/src/conn/subscription_registry.rs\<close>. The
  registry record has the fields of the Rust struct; its nested hash maps are association lists
  and the shared mirror is a field (\<open>mirror_poisoned\<close> says whether its lock is poisoned, in
  which case writes are skipped). Holder counts, generations and the epoch are natural numbers:
  they grow by one per call, so their machine width (32 and 64 bits) is never reached. Every
  mutator returns the new registry.
\<close>

section \<open>Entries\<close>

datatype subscribe_params =
    PTicker "bool option" "ticker_trigger option"
  | PBook book_depth
  | PBookRaw book_depth "bool option"
  | PTrade "bool option"
  | POhlc ohlc_interval "bool option"
  | PStatus
  | PExecutions
  | PBalances

datatype termination_cause =
  SubscribeAckBudgetExhausted | NonTransientWireRejection | CapabilityRevoked | ClientClosed

datatype entry_sub_state =
    Pending
  | Acked
  | Terminated termination_cause "string option"

datatype 'd book_drive_outcome =
    PassThrough
  | Maintained "'d order_book_update"
  | Gap u32 u32
  | AwaitingSnapshot
  | GapBudgetExhausted

datatype reseed_timeout_outcome = StaleNoOp | Retry | Exhausted

datatype removed_entry_kind = Live | Tombstone

type_synonym sub_key = "channel_name \<times> string option"

record mirror_row =
  row_state :: entry_sub_state
  registered_at :: instant

definition MAX_CONSECUTIVE_BOOK_GAPS :: u32 where
  "MAX_CONSECUTIVE_BOOK_GAPS = 5"

text \<open>\<open>SequenceTracker::observe\<close>: the new tracker and the number of dropped frames.\<close>

type_synonym sequence_tracker = "u64 option"

definition observe :: "u64 \<Rightarrow> bool \<Rightarrow> sequence_tracker \<Rightarrow> sequence_tracker \<times> u32 option" where
  "observe seq is_snapshot t =
     (Some seq,
      if is_snapshot then None
      else case t of
        None \<Rightarrow> None
      | Some prev \<Rightarrow>
          (case checked_sub seq prev of
             Some delta \<Rightarrow>
               (if delta > 1
                then Some (if unat (delta - 1) < 2 ^ 32 then word_of_nat (unat (delta - 1)) else - 1)
                else None)
           | None \<Rightarrow> None))"

record 'd subscription_entry =
  e_url :: ws_url
  e_channel :: channel_name
  e_pair :: "string option"
  e_params :: subscribe_params
  e_count :: nat
  e_builder :: "'d order_book_builder option"
  seq_tracker :: sequence_tracker
  e_generation :: nat
  e_state :: entry_sub_state
  tombstone_holders :: nat
  stale_release_credits :: nat

definition is_tombstone :: "'d subscription_entry \<Rightarrow> bool" where
  "is_tombstone e \<longleftrightarrow> (case e_state e of Terminated _ _ \<Rightarrow> True | _ \<Rightarrow> False)"

definition entry_new :: "ws_url \<Rightarrow> channel_name \<Rightarrow> string option \<Rightarrow> subscribe_params \<Rightarrow>
    'd subscription_entry" where
  "entry_new url channel pair params =
     \<lparr>e_url = url, e_channel = channel, e_pair = pair, e_params = params, e_count = 1,
      e_builder =
        (case (channel, pair, params) of
           (Book, Some symbol, PBook depth) \<Rightarrow>
             Some (builder_new symbol (unat (as_wire_u32 (wire_depth depth))) (unat (as_wire_u32 depth)))
         | _ \<Rightarrow> None),
      seq_tracker = None, e_generation = 0, e_state = Pending,
      tombstone_holders = 0, stale_release_credits = 0\<rparr>"

text \<open>\<open>drive_update\<close>: \<open>H\<close>, \<open>deser\<close> and \<open>dec\<close> are the hasher, deserialiser and decimal parser.\<close>

definition drive_update :: "'h hasher \<Rightarrow> ('j \<Rightarrow> raw_book_data option) \<Rightarrow> (string \<Rightarrow> 'd::linorder option) \<Rightarrow>
    bool \<Rightarrow> 'j \<Rightarrow> 'd subscription_entry \<Rightarrow> 'd subscription_entry \<times> 'd book_drive_outcome" where
  "drive_update H deser dec is_snapshot data e =
     (case e_builder e of
        None \<Rightarrow> (e, PassThrough)
      | Some b \<Rightarrow>
          if resyncing b \<and> \<not> is_snapshot then (e, AwaitingSnapshot)
          else case parse_book_frame deser dec data of
            None \<Rightarrow> (e, PassThrough)
          | Some p \<Rightarrow>
              if pb_symbol p \<noteq> b_symbol b then (e, PassThrough)
              else let checksum = pb_checksum p;
                (b', r) = (if is_snapshot then apply_snapshot H (pb_bids p) (pb_asks p) checksum b
                           else apply_delta H (pb_bids p) (pb_asks p) checksum b)
                in case r of
                  Inr _ \<Rightarrow> (e\<lparr>e_builder := Some b'\<rparr>,
                            Maintained (build_update checksum None (pb_timestamp p) b'))
                | Inl (ChecksumMismatch ex co) \<Rightarrow>
                    if consecutive_gaps b' \<ge> MAX_CONSECUTIVE_BOOK_GAPS
                    then (e\<lparr>e_builder := None\<rparr>, GapBudgetExhausted)
                    else (e\<lparr>e_builder := Some b'\<rparr>, Gap ex co))"

section \<open>The registry and its lookups\<close>

record 'd subscription_registry =
  entries :: "(channel_name, (string, 'd subscription_entry) hashmap) hashmap"
  channel_wide :: "(channel_name, 'd subscription_entry) hashmap"
  mirror :: "(sub_key, mirror_row) hashmap"
  mirror_poisoned :: bool
  next_generation :: nat
  guard_refs :: "(nat \<times> channel_name \<times> string option, nat) hashmap"
  liveness_epoch :: nat

definition registry_new :: "'d subscription_registry" where
  "registry_new = \<lparr>entries = [], channel_wide = [], mirror = [], mirror_poisoned = False,
     next_generation = 0, guard_refs = [], liveness_epoch = 0\<rparr>"

definition pair_map :: "'d subscription_registry \<Rightarrow> channel_name \<Rightarrow> (string, 'd subscription_entry) hashmap" where
  "pair_map r ch = (case hm_get (entries r) ch of None \<Rightarrow> [] | Some m \<Rightarrow> m)"

definition reg_entry :: "'d subscription_registry \<Rightarrow> channel_name \<Rightarrow> string option \<Rightarrow>
    'd subscription_entry option" where
  "reg_entry r ch pair =
     (case pair of
        Some s \<Rightarrow> (case hm_get (entries r) ch of None \<Rightarrow> None | Some m \<Rightarrow> hm_get m s)
      | None \<Rightarrow> hm_get (channel_wide r) ch)"

text \<open>Storing an entry at its key: \<open>entry(..).or_insert\<close>, and what a mutation through
  \<open>entry_mut\<close> leaves behind.\<close>

definition put_entry :: "channel_name \<Rightarrow> string option \<Rightarrow> 'd subscription_entry \<Rightarrow>
    'd subscription_registry \<Rightarrow> 'd subscription_registry" where
  "put_entry ch pair e r =
     (case pair of
        Some s \<Rightarrow> r\<lparr>entries := hm_insert ch (hm_insert s e (pair_map r ch)) (entries r)\<rparr>
      | None \<Rightarrow> r\<lparr>channel_wide := hm_insert ch e (channel_wide r)\<rparr>)"

definition remove_entry :: "channel_name \<Rightarrow> string option \<Rightarrow> 'd subscription_registry \<Rightarrow>
    'd subscription_registry" where
  "remove_entry ch pair r =
     (case pair of
        Some s \<Rightarrow>
          (case hm_get (entries r) ch of
             None \<Rightarrow> r
           | Some m \<Rightarrow>
               let m' = hm_remove s m in
               if m' = [] then r\<lparr>entries := hm_remove ch (entries r)\<rparr>
               else r\<lparr>entries := hm_insert ch m' (entries r)\<rparr>)
      | None \<Rightarrow> r\<lparr>channel_wide := hm_remove ch (channel_wide r)\<rparr>)"

definition mirror_write :: "((sub_key, mirror_row) hashmap \<Rightarrow> (sub_key, mirror_row) hashmap) \<Rightarrow>
    'd subscription_registry \<Rightarrow> 'd subscription_registry" where
  "mirror_write f r = (if mirror_poisoned r then r else r\<lparr>mirror := f (mirror r)\<rparr>)"

definition mirror_set_state :: "sub_key \<Rightarrow> entry_sub_state \<Rightarrow> (sub_key, mirror_row) hashmap \<Rightarrow>
    (sub_key, mirror_row) hashmap" where
  "mirror_set_state k st m =
     (case hm_get m k of None \<Rightarrow> m | Some row \<Rightarrow> hm_insert k (row\<lparr>row_state := st\<rparr>) m)"

definition guard_refs_at :: "'d subscription_registry \<Rightarrow> channel_name \<Rightarrow> string option \<Rightarrow> nat \<Rightarrow> nat" where
  "guard_refs_at r ch pair gen =
     length (filter (\<lambda>((_, c, p), g). c = ch \<and> p = pair \<and> g = gen) (guard_refs r))"

definition entry_generation :: "'d subscription_registry \<Rightarrow> channel_name \<Rightarrow> string option \<Rightarrow> nat option" where
  "entry_generation r ch pair = map_option e_generation (reg_entry r ch pair)"

definition bump_epoch :: "'d subscription_registry \<Rightarrow> 'd subscription_registry" where
  "bump_epoch r = r\<lparr>liveness_epoch := liveness_epoch r + 1\<rparr>"

section \<open>Mutators\<close>

text \<open>\<open>bump_or_revive\<close>: the entry the slot holds afterwards and, on a revival, the dead
  countdown with the dying generation.\<close>

definition bump_or_revive :: "'d subscription_entry option \<Rightarrow> 'd subscription_entry \<Rightarrow> nat \<Rightarrow>
    'd subscription_entry \<times> (nat \<times> nat) option" where
  "bump_or_revive slot entry gen =
     (case slot of
        Some e \<Rightarrow>
          if e_count e = 0
          then (e\<lparr>e_params := e_params entry, e_builder := e_builder entry, e_generation := gen,
                  seq_tracker := None, e_state := Pending, tombstone_holders := 0, e_count := 1\<rparr>,
                Some (tombstone_holders e, e_generation e))
          else (e\<lparr>e_count := e_count e + 1\<rparr>, None)
      | None \<Rightarrow> (entry\<lparr>e_generation := gen\<rparr>, None))"

definition register :: "'d subscription_entry \<Rightarrow> instant \<Rightarrow> bool \<Rightarrow> 'd subscription_registry \<Rightarrow>
    'd subscription_registry \<times> nat" where
  "register entry now guard_backed r =
     (let r1 = r\<lparr>liveness_epoch := liveness_epoch r + 1, next_generation := next_generation r + 1\<rparr>;
          gen = next_generation r1;
          ch = e_channel entry; pair = e_pair entry;
          (e, revived) = bump_or_revive (reg_entry r1 ch pair) entry gen;
          e' = (case revived of
                  None \<Rightarrow> e
                | Some (holders, dying) \<Rightarrow>
                    e\<lparr>stale_release_credits := stale_release_credits e +
                       (holders - guard_refs_at r1 ch pair dying - (if guard_backed then 0 else 1))\<rparr>);
          r2 = put_entry ch pair e' r1;
          r3 = (if e_count e' = 1
                then mirror_write (hm_insert (ch, pair) \<lparr>row_state = Pending, registered_at = now\<rparr>) r2
                else r2)
      in (r3, e_count e'))"

definition note_sequence :: "channel_name \<Rightarrow> u64 \<Rightarrow> bool \<Rightarrow> 'd subscription_registry \<Rightarrow>
    'd subscription_registry \<times> u32 option" where
  "note_sequence ch seq is_snapshot r =
     (case hm_get (channel_wide r) ch of
        None \<Rightarrow> (r, None)
      | Some e \<Rightarrow>
          let (t, dropped) = observe seq is_snapshot (seq_tracker e) in
          (r\<lparr>channel_wide := hm_insert ch (e\<lparr>seq_tracker := t\<rparr>) (channel_wide r)\<rparr>, dropped))"

definition deregister :: "channel_name \<Rightarrow> string option \<Rightarrow> 'd subscription_registry \<Rightarrow>
    'd subscription_registry" where
  "deregister ch pair r = mirror_write (hm_remove (ch, pair)) (remove_entry ch pair (bump_epoch r))"

definition release_inner :: "channel_name \<Rightarrow> string option \<Rightarrow> bool \<Rightarrow> 'd subscription_registry \<Rightarrow>
    'd subscription_registry \<times> nat" where
  "release_inner ch pair allow_credit r =
     (case reg_entry r ch pair of
        None \<Rightarrow> (r, 0)
      | Some e \<Rightarrow>
          if allow_credit \<and> stale_release_credits e > 0
          then (put_entry ch pair (e\<lparr>stale_release_credits := stale_release_credits e - 1\<rparr>) r, e_count e)
          else if allow_credit \<and>
            (if is_tombstone e then tombstone_holders e else e_count e)
              - guard_refs_at r ch pair (e_generation e) = 0
          then (r, e_count e)
          else if is_tombstone e
          then (let e' = e\<lparr>tombstone_holders := tombstone_holders e - 1\<rparr>;
                    r1 = put_entry ch pair e' r
                in (if tombstone_holders e' = 0 then deregister ch pair r1 else r1, 0))
          else (let e' = e\<lparr>e_count := e_count e - 1\<rparr>;
                    r1 = put_entry ch pair e' (bump_epoch r)
                in if e_count e' = 0 then (deregister ch pair r1, 0) else (r1, e_count e')))"

definition release :: "channel_name \<Rightarrow> string option \<Rightarrow> 'd subscription_registry \<Rightarrow>
    'd subscription_registry \<times> nat" where
  "release ch pair r = release_inner ch pair True r"

definition record_guard_ref :: "nat \<Rightarrow> channel_name \<Rightarrow> string option \<Rightarrow> 'd subscription_registry \<Rightarrow>
    'd subscription_registry" where
  "record_guard_ref handler ch pair r =
     (case entry_generation r ch pair of
        None \<Rightarrow> r
      | Some gen \<Rightarrow> r\<lparr>guard_refs := hm_insert (handler, ch, pair) gen (guard_refs r)\<rparr>)"

definition release_guard_ref :: "nat \<Rightarrow> channel_name \<Rightarrow> string option \<Rightarrow> 'd subscription_registry \<Rightarrow>
    'd subscription_registry \<times> nat" where
  "release_guard_ref handler ch pair r =
     (let recorded = hm_get (guard_refs r) (handler, ch, pair);
          r1 = r\<lparr>guard_refs := hm_remove (handler, ch, pair) (guard_refs r)\<rparr>
      in case (recorded, reg_entry r1 ch pair) of
           (Some rec, Some e) \<Rightarrow>
             if rec \<noteq> e_generation e then (r1, e_count e) else release_inner ch pair False r1
         | _ \<Rightarrow> release_inner ch pair False r1)"

definition note_acked :: "channel_name \<Rightarrow> string option \<Rightarrow> 'd subscription_registry \<Rightarrow>
    'd subscription_registry" where
  "note_acked ch pair r =
     (case reg_entry r ch pair of
        Some e \<Rightarrow>
          if e_state e = Pending
          then mirror_write (mirror_set_state (ch, pair) Acked)
                 (put_entry ch pair (e\<lparr>e_state := Acked\<rparr>) r)
          else r
      | None \<Rightarrow> r)"

definition note_terminated :: "channel_name \<Rightarrow> string option \<Rightarrow> termination_cause \<Rightarrow> string option \<Rightarrow>
    'd subscription_registry \<Rightarrow> 'd subscription_registry" where
  "note_terminated ch pair cause last_error r =
     (case reg_entry r ch pair of
        Some e \<Rightarrow>
          if \<not> is_tombstone e
          then mirror_write (mirror_set_state (ch, pair) (Terminated cause last_error))
                 (bump_epoch
                   (put_entry ch pair
                     (e\<lparr>tombstone_holders := e_count e, e_count := 0,
                        e_state := Terminated cause last_error\<rparr>) r))
          else r
      | None \<Rightarrow> r)"

definition is_terminated :: "'d subscription_registry \<Rightarrow> channel_name \<Rightarrow> string option \<Rightarrow> bool" where
  "is_terminated r ch pair =
     (case reg_entry r ch pair of None \<Rightarrow> False | Some e \<Rightarrow> is_tombstone e)"

definition handle_update :: "'h hasher \<Rightarrow> ('j \<Rightarrow> raw_book_data option) \<Rightarrow> (string \<Rightarrow> 'd::linorder option) \<Rightarrow>
    channel_name \<Rightarrow> string option \<Rightarrow> bool \<Rightarrow> 'j \<Rightarrow> 'd subscription_registry \<Rightarrow>
    'd subscription_registry \<times> 'd book_drive_outcome" where
  "handle_update H deser dec ch pair is_snapshot data r =
     (case reg_entry r ch pair of
        Some e \<Rightarrow>
          let (e', out) = drive_update H deser dec is_snapshot data e in (put_entry ch pair e' r, out)
      | None \<Rightarrow> (r, PassThrough))"

definition begin_book_resync :: "channel_name \<Rightarrow> string \<Rightarrow> 'd subscription_registry \<Rightarrow>
    'd subscription_registry" where
  "begin_book_resync ch s r =
     (case reg_entry r ch (Some s) of
        None \<Rightarrow> r
      | Some e \<Rightarrow>
          (case e_builder e of
             None \<Rightarrow> r
           | Some b \<Rightarrow> put_entry ch (Some s) (e\<lparr>e_builder := Some (begin_resync b)\<rparr>) r))"

definition is_book_resyncing :: "'d subscription_registry \<Rightarrow> channel_name \<Rightarrow> string option \<Rightarrow> bool" where
  "is_book_resyncing r ch pair =
     (case pair of
        None \<Rightarrow> False
      | Some s \<Rightarrow>
          (case reg_entry r ch (Some s) of
             None \<Rightarrow> False
           | Some e \<Rightarrow> (case e_builder e of None \<Rightarrow> False | Some b \<Rightarrow> resyncing b)))"

definition note_reseed_timeout :: "channel_name \<Rightarrow> string \<Rightarrow> 'd subscription_registry \<Rightarrow>
    'd subscription_registry \<times> reseed_timeout_outcome" where
  "note_reseed_timeout ch s r =
     (case reg_entry r ch (Some s) of
        None \<Rightarrow> (r, StaleNoOp)
      | Some e \<Rightarrow>
          if is_tombstone e then (r, StaleNoOp)
          else case e_builder e of
            None \<Rightarrow> (r, StaleNoOp)
          | Some b \<Rightarrow>
              if \<not> resyncing b then (r, StaleNoOp)
              else let (b', n) = note_reseed_failure b in
                if n \<ge> MAX_CONSECUTIVE_BOOK_GAPS
                then (put_entry ch (Some s) (e\<lparr>e_builder := None\<rparr>) r, Exhausted)
                else (put_entry ch (Some s) (e\<lparr>e_builder := Some b'\<rparr>) r, Retry))"

section \<open>Ordering, forced teardown and replay\<close>

definition subscription_order_key :: "channel_name \<Rightarrow> string option \<Rightarrow> bool \<times> string \<times> string option" where
  "subscription_order_key ch pair = (pair \<noteq> None, channel_str ch, pair)"

abbreviation entry_order_key :: "'d subscription_entry \<Rightarrow> bool \<times> string \<times> string option" where
  "entry_order_key e \<equiv> subscription_order_key (e_channel e) (e_pair e)"

definition pair_entries :: "'d subscription_registry \<Rightarrow> 'd subscription_entry list" where
  "pair_entries r = concat (map (map snd \<circ> snd) (entries r))"

text \<open>The entries \<open>deregister_all\<close> takes out, before sorting, and the maps it leaves.\<close>

definition take_entries :: "channel_name option \<Rightarrow> 'd subscription_registry \<Rightarrow>
    'd subscription_entry list \<times> 'd subscription_registry" where
  "take_entries channel r =
     (case channel of
        Some ch \<Rightarrow>
          ((case hm_get (channel_wide r) ch of None \<Rightarrow> [] | Some e \<Rightarrow> [e]) @ map snd (pair_map r ch),
           r\<lparr>channel_wide := hm_remove ch (channel_wide r), entries := hm_remove ch (entries r)\<rparr>)
      | None \<Rightarrow>
          (map snd (channel_wide r) @ pair_entries r, r\<lparr>channel_wide := [], entries := []\<rparr>))"

definition deregister_all :: "channel_name option \<Rightarrow> 'd subscription_registry \<Rightarrow>
    'd subscription_registry \<times> ('d subscription_entry \<times> removed_entry_kind) list" where
  "deregister_all channel r =
     (let (taken, r1) = take_entries channel (bump_epoch r);
          removed = sort_key entry_order_key taken
      in (mirror_write (fold (\<lambda>e. hm_remove (e_channel e, e_pair e)) removed) r1,
          map (\<lambda>e. (e, if is_tombstone e then Tombstone else Live)) removed))"

definition entries_for_resubscribe_sorted :: "ws_url \<Rightarrow> 'd subscription_registry \<Rightarrow>
    'd subscription_entry list" where
  "entries_for_resubscribe_sorted url r =
     sort_key entry_order_key
       (filter (\<lambda>e. e_url e = url \<and> \<not> is_tombstone e) (map snd (channel_wide r) @ pair_entries r))"

definition has_url_entry :: "ws_url \<Rightarrow> 'd subscription_registry \<Rightarrow> bool" where
  "has_url_entry url r =
     list_ex (\<lambda>e. e_url e = url \<and> \<not> is_tombstone e) (pair_entries r @ map snd (channel_wide r))"

definition params_for :: "'d subscription_registry \<Rightarrow> channel_name \<Rightarrow> string option \<Rightarrow>
    subscribe_params option" where
  "params_for r ch pair = map_option e_params (reg_entry r ch pair)"

section \<open>Wire frames\<close>

abbreviation opt_bool :: "string \<Rightarrow> bool option \<Rightarrow> (string \<times> json) list \<Rightarrow> (string \<times> json) list" where
  "opt_bool k v p \<equiv> (case v of None \<Rightarrow> p | Some s \<Rightarrow> obj_insert k (JBool s) p)"

fun frame_params :: "bool \<Rightarrow> subscribe_params \<Rightarrow> (string \<times> json) list \<Rightarrow> (string \<times> json) list" where
  "frame_params sub (PTicker snapshot trigger) p =
     (if sub
      then (case trigger of
              None \<Rightarrow> opt_bool ''snapshot'' snapshot p
            | Some t \<Rightarrow> obj_insert ''event_trigger'' (JStr (trigger_str t)) (opt_bool ''snapshot'' snapshot p))
      else p)"
| "frame_params sub (PBook depth) p =
     (let q = obj_insert ''depth'' (JNum (unat (as_wire_u32 (wire_depth depth)))) p
      in if sub then obj_insert ''snapshot'' (JBool True) q else q)"
| "frame_params sub (PBookRaw depth snapshot) p =
     (let q = obj_insert ''depth'' (JNum (unat (as_wire_u32 depth))) p
      in if sub then opt_bool ''snapshot'' snapshot q else q)"
| "frame_params sub (PTrade snapshot) p = (if sub then opt_bool ''snapshot'' snapshot p else p)"
| "frame_params sub (POhlc interval snapshot) p =
     (let q = obj_insert ''interval'' (JNum (unat (interval_minutes interval))) p
      in if sub then opt_bool ''snapshot'' snapshot q else q)"
| "frame_params sub PStatus p = p"
| "frame_params sub PExecutions p = p"
| "frame_params sub PBalances p = p"

definition build_subscribe_frame :: "string \<Rightarrow> channel_name \<Rightarrow> string list \<Rightarrow> subscribe_params \<Rightarrow>
    nat \<Rightarrow> json" where
  "build_subscribe_frame meth ch pairs params req_id =
     (let p = obj_insert ''channel'' (JStr (channel_str ch)) [];
          q = (if pairs \<noteq> [] then obj_insert ''symbol'' (JArr (map JStr pairs)) p else p)
      in JObj [(''method'', JStr meth),
               (''params'', JObj (frame_params (meth = ''subscribe'') params q)),
               (''req_id'', JNum req_id)])"

definition stamp_req_id :: "nat \<Rightarrow> json \<Rightarrow> json" where
  "stamp_req_id req_id frame =
     (case frame of JObj o1 \<Rightarrow> JObj (obj_insert ''req_id'' (JNum req_id) o1) | _ \<Rightarrow> frame)"

definition inject_token :: "string \<Rightarrow> json \<Rightarrow> json" where
  "inject_token token frame =
     (case frame of
        JObj o1 \<Rightarrow>
          (case map_of o1 ''params'' of
             Some (JObj p) \<Rightarrow> JObj (obj_insert ''params'' (JObj (obj_insert ''token'' (JStr token) p)) o1)
           | _ \<Rightarrow> frame)
      | _ \<Rightarrow> frame)"

type_synonym keyed_frame = "channel_name \<times> string option \<times> json"

definition subscribe_frame_of :: "'d subscription_entry \<Rightarrow> json" where
  "subscribe_frame_of e =
     build_subscribe_frame ''subscribe'' (e_channel e)
       (case e_pair e of Some s \<Rightarrow> [s] | None \<Rightarrow> []) (e_params e) 0"

definition compose_subscribe_frames_for_url :: "ws_url \<Rightarrow> 'd subscription_registry \<Rightarrow> keyed_frame list" where
  "compose_subscribe_frames_for_url url r =
     map (\<lambda>e. (e_channel e, e_pair e, subscribe_frame_of e)) (entries_for_resubscribe_sorted url r)"

definition compose_subscribe_frames_for_url_authed :: "ws_url \<Rightarrow> string \<Rightarrow> 'd subscription_registry \<Rightarrow>
    keyed_frame list" where
  "compose_subscribe_frames_for_url_authed url token r =
     map (\<lambda>(ch, pair, payload). (ch, pair, inject_token token payload))
       (compose_subscribe_frames_for_url url r)"

definition compose_first_signed_subscribe_authed :: "ws_url \<Rightarrow> string \<Rightarrow> 'd subscription_registry \<Rightarrow>
    keyed_frame option" where
  "compose_first_signed_subscribe_authed url token r =
     (case entries_for_resubscribe_sorted url r of
        [] \<Rightarrow> None
      | e # _ \<Rightarrow> Some (e_channel e, e_pair e, inject_token token (subscribe_frame_of e)))"

definition compose_remaining_signed_subscribes_authed :: "ws_url \<Rightarrow> string \<Rightarrow> sub_key \<Rightarrow>
    'd subscription_registry \<Rightarrow> keyed_frame list" where
  "compose_remaining_signed_subscribes_authed url token already_sent r =
     filter (\<lambda>(ch, pair, _). \<not> (ch = fst already_sent \<and> pair = snd already_sent))
       (compose_subscribe_frames_for_url_authed url token r)"

definition live_subscribe_keys_for_url :: "ws_url \<Rightarrow> sub_key option \<Rightarrow> 'd subscription_registry \<Rightarrow>
    (channel_name \<times> string option \<times> subscribe_params) list" where
  "live_subscribe_keys_for_url url exclude r =
     map (\<lambda>e. (e_channel e, e_pair e, e_params e))
       (filter (\<lambda>e. \<not> (case exclude of None \<Rightarrow> False | Some x \<Rightarrow> e_channel e = fst x \<and> e_pair e = snd x))
         (entries_for_resubscribe_sorted url r))"

text \<open>\<open>project_state\<close> onto the public states of \<open>api/subscription_types.rs\<close>.\<close>

datatype subscribe_failure_cause =
    AckBudgetExhausted
  | WireRejection (reject_code: string) (reject_message: string)
  | CapabilityLost
  | ClientIsClosed
  | ConnectionFailedCause
  | AuthHandshakeFailedCause

datatype subscription_state = SActive | SPending | SFailed subscribe_failure_cause

fun project_state :: "entry_sub_state \<Rightarrow> subscription_state" where
  "project_state Pending = SPending"
| "project_state Acked = SActive"
| "project_state (Terminated cause last_error) =
     SFailed (case cause of
        SubscribeAckBudgetExhausted \<Rightarrow> AckBudgetExhausted
      | NonTransientWireRejection \<Rightarrow>
          (let err = (case last_error of None \<Rightarrow> [] | Some s \<Rightarrow> s) in WireRejection err err)
      | CapabilityRevoked \<Rightarrow> CapabilityLost
      | ClientClosed \<Rightarrow> ClientIsClosed)"

section \<open>The nested maps as one store\<close>

definition reg_view :: "'d subscription_registry \<Rightarrow> sub_key \<Rightarrow> 'd subscription_entry option" where
  "reg_view r k = reg_entry r (fst k) (snd k)"

definition store_inv :: "'d subscription_registry \<Rightarrow> bool" where
  "store_inv r \<longleftrightarrow> hm_inv (entries r) \<and> hm_inv (channel_wide r) \<and>
     (\<forall>(ch, m) \<in> set (entries r). hm_inv m \<and> m \<noteq> [])"

lemma store_invD:
  "store_inv r \<Longrightarrow> hm_get (entries r) ch = Some m \<Longrightarrow> hm_inv m \<and> m \<noteq> []"
  by (auto simp: store_inv_def dest: map_of_SomeD)

lemma put_entry_fields [simp]:
  "mirror (put_entry ch p e r) = mirror r"
  "mirror_poisoned (put_entry ch p e r) = mirror_poisoned r"
  "next_generation (put_entry ch p e r) = next_generation r"
  "guard_refs (put_entry ch p e r) = guard_refs r"
  "liveness_epoch (put_entry ch p e r) = liveness_epoch r"
  by (simp_all add: put_entry_def split: option.split)

lemma remove_entry_fields [simp]:
  "mirror (remove_entry ch p r) = mirror r"
  "mirror_poisoned (remove_entry ch p r) = mirror_poisoned r"
  "next_generation (remove_entry ch p r) = next_generation r"
  "guard_refs (remove_entry ch p r) = guard_refs r"
  "liveness_epoch (remove_entry ch p r) = liveness_epoch r"
  by (simp_all add: remove_entry_def Let_def split: option.split)

lemma mirror_write_fields [simp]:
  "entries (mirror_write f r) = entries r"
  "channel_wide (mirror_write f r) = channel_wide r"
  "mirror_poisoned (mirror_write f r) = mirror_poisoned r"
  "next_generation (mirror_write f r) = next_generation r"
  "guard_refs (mirror_write f r) = guard_refs r"
  "liveness_epoch (mirror_write f r) = liveness_epoch r"
  "\<not> mirror_poisoned r \<Longrightarrow> mirror (mirror_write f r) = f (mirror r)"
  by (simp_all add: mirror_write_def)

lemma bump_epoch_fields [simp]:
  "entries (bump_epoch r) = entries r"
  "channel_wide (bump_epoch r) = channel_wide r"
  "mirror (bump_epoch r) = mirror r"
  "mirror_poisoned (bump_epoch r) = mirror_poisoned r"
  "next_generation (bump_epoch r) = next_generation r"
  "guard_refs (bump_epoch r) = guard_refs r"
  by (simp_all add: bump_epoch_def)

text \<open>Lookups and the store invariant only read the two maps.\<close>

lemma reg_entry_cong:
  "entries r' = entries r \<Longrightarrow> channel_wide r' = channel_wide r \<Longrightarrow> reg_entry r' ch p = reg_entry r ch p"
  by (cases p) (simp_all add: reg_entry_def)

lemma reg_view_frame [simp]:
  "reg_view (mirror_write f r) = reg_view r"
  "reg_view (bump_epoch r) = reg_view r"
  "reg_view (r\<lparr>guard_refs := g\<rparr>) = reg_view r"
  "reg_view (r\<lparr>liveness_epoch := l, next_generation := n\<rparr>) = reg_view r"
  by (auto simp: reg_view_def fun_eq_iff intro: reg_entry_cong)

lemma store_inv_frame [simp]:
  "store_inv (mirror_write f r) = store_inv r"
  "store_inv (bump_epoch r) = store_inv r"
  "store_inv (r\<lparr>guard_refs := g\<rparr>) = store_inv r"
  "store_inv (r\<lparr>liveness_epoch := l, next_generation := n\<rparr>) = store_inv r"
  by (simp_all add: store_inv_def)

lemma reg_view_put: "reg_view (put_entry (fst k) (snd k) e r) = (reg_view r)(k \<mapsto> e)"
  by (cases k; cases "snd k")
    (auto simp: reg_view_def reg_entry_def put_entry_def pair_map_def fun_eq_iff hm_simps
      split: option.splits)

lemma reg_view_remove:
  assumes "store_inv r"
  shows "reg_view (remove_entry (fst k) (snd k) r) = (reg_view r)(k := None)"
proof (cases "snd k")
  case None
  then show ?thesis
    by (cases k) (auto simp: reg_view_def reg_entry_def remove_entry_def fun_eq_iff hm_simps
        split: option.splits)
next
  case (Some s)
  then obtain ch where k: "k = (ch, Some s)" by (cases k) auto
  show ?thesis
  proof (cases "hm_get (entries r) ch")
    case None
    with k show ?thesis
      by (auto simp: reg_view_def reg_entry_def remove_entry_def fun_eq_iff split: option.splits)
  next
    case (Some m)
    have empty: "hm_remove s m = [] \<Longrightarrow> hm_get m s' = (if s' = s then hm_get m s else None)" for s'
      using hm_get_remove [of s m] by (auto simp: fun_eq_iff split: if_splits)
    from k Some empty show ?thesis
      by (auto simp: reg_view_def reg_entry_def remove_entry_def fun_eq_iff hm_simps Let_def
          split: option.splits)
  qed
qed

lemma store_inv_insert:
  assumes "store_inv r" and "hm_inv m" and "m \<noteq> []"
  shows "store_inv (r\<lparr>entries := hm_insert ch m (entries r)\<rparr>)"
  using assms set_hm_insert [of ch m "entries r"] unfolding store_inv_def
  by (auto simp: hm_simps)

lemma store_inv_put: "store_inv r \<Longrightarrow> store_inv (put_entry ch p e r)"
proof -
  assume inv: "store_inv r"
  have "hm_inv (pair_map r ch)"
    using store_invD [OF inv] by (auto simp: pair_map_def split: option.split)
  then have "hm_inv (hm_insert s e (pair_map r ch))" for s
    by (simp add: hm_simps)
  then show ?thesis
    using store_inv_insert [OF inv, of "hm_insert _ e (pair_map r ch)" ch] inv
    by (cases p) (simp add: put_entry_def store_inv_def hm_simps, simp add: put_entry_def)
qed

lemma store_inv_remove: "store_inv r \<Longrightarrow> store_inv (remove_entry ch p r)"
proof (cases p)
  case None
  then show "store_inv r \<Longrightarrow> ?thesis" by (simp add: remove_entry_def store_inv_def hm_simps)
next
  case (Some s)
  assume inv: "store_inv r"
  have "store_inv (r\<lparr>entries := hm_remove ch (entries r)\<rparr>)"
    using inv by (auto simp: store_inv_def hm_simps dest: set_mp [OF set_delete_subset])
  moreover have "hm_inv (hm_remove s m)" if "hm_get (entries r) ch = Some m" for m
    using store_invD [OF inv that] by (simp add: hm_simps)
  ultimately show ?thesis
    using store_inv_insert [OF inv] inv Some
    by (simp add: remove_entry_def Let_def split: option.split)
qed

abbreviation put_at :: "sub_key \<Rightarrow> 'd subscription_entry \<Rightarrow> 'd subscription_registry \<Rightarrow>
    'd subscription_registry" where
  "put_at k e r \<equiv> put_entry (fst k) (snd k) e r"

abbreviation remove_at :: "sub_key \<Rightarrow> 'd subscription_registry \<Rightarrow> 'd subscription_registry" where
  "remove_at k r \<equiv> remove_entry (fst k) (snd k) r"

interpretation regstore: keyed_store reg_view put_at remove_at store_inv
  by unfold_locales (simp_all add: reg_view_put reg_view_remove store_inv_put store_inv_remove)

definition same_state :: "'d subscription_entry \<Rightarrow> mirror_row \<Rightarrow> bool" where
  "same_state e row \<longleftrightarrow> row_state row = e_state e"

interpretation regmirror: mirrored_stores
  reg_view put_at remove_at store_inv map_of AList.update AList.delete hm_inv same_state
  by unfold_locales

section \<open>The registry invariant\<close>

definition builder_ok :: "'d::linorder order_book_builder option \<Rightarrow> bool" where
  "builder_ok ob = (case ob of None \<Rightarrow> True
     | Some b \<Rightarrow> builder_inv b \<and> consecutive_gaps b < MAX_CONSECUTIVE_BOOK_GAPS \<and>
         CHECKSUM_DEPTH < maintained_depth b \<and> caller_depth b \<le> maintained_depth b)"

text \<open>A tombstone has no subscribers and at least one holder still to release; a live entry has
  a subscriber and no countdown.\<close>

definition entry_ok :: "nat \<Rightarrow> sub_key \<Rightarrow> 'd::linorder subscription_entry \<Rightarrow> bool" where
  "entry_ok gen k e \<longleftrightarrow> (e_channel e, e_pair e) = k \<and> 0 < e_generation e \<and> e_generation e \<le> gen \<and>
     (if is_tombstone e then e_count e = 0 \<and> 0 < tombstone_holders e
      else 0 < e_count e \<and> tombstone_holders e = 0) \<and>
     builder_ok (e_builder e)"

definition reg_inv :: "'d::linorder subscription_registry \<Rightarrow> bool" where
  "reg_inv r \<longleftrightarrow> store_inv r \<and> hm_inv (mirror r) \<and> hm_inv (guard_refs r) \<and>
     (\<forall>k e. reg_view r k = Some e \<longrightarrow> entry_ok (next_generation r) k e) \<and>
     (\<not> mirror_poisoned r \<longrightarrow> mirrored same_state (reg_view r) (hm_get (mirror r)))"

lemma reg_invD:
  assumes "reg_inv r"
  shows "store_inv r" "hm_inv (mirror r)" "hm_inv (guard_refs r)"
    "reg_view r k = Some e \<Longrightarrow> entry_ok (next_generation r) k e"
    "\<not> mirror_poisoned r \<Longrightarrow> mirrored same_state (reg_view r) (hm_get (mirror r))"
  using assms unfolding reg_inv_def by blast+

lemma reg_entry_view: "reg_entry r ch p = reg_view r (ch, p)"
  by (simp add: reg_view_def)

lemma entry_ok_mono: "entry_ok g k e \<Longrightarrow> g \<le> g' \<Longrightarrow> entry_ok g' k e"
  by (auto simp: entry_ok_def)

lemma hm_inv_mirror_write:
  "hm_inv (mirror r) \<Longrightarrow> (\<And>m. hm_inv m \<Longrightarrow> hm_inv (f m)) \<Longrightarrow> hm_inv (mirror (mirror_write f r))"
  by (simp add: mirror_write_def)

text \<open>The two shapes of mutation: an entry stored with its mirror row brought into line, and an
  entry stored without changing its state.\<close>

lemma reg_inv_put_mirror:
  assumes inv: "reg_inv r" and ok: "entry_ok (next_generation r) (ch, p) e"
    and st: "row_state row = e_state e"
  shows "reg_inv (mirror_write (hm_insert (ch, p) row) (put_entry ch p e r))"
proof -
  note D = reg_invD [OF inv]
  have "mirrored same_state (reg_view (put_entry ch p e r)) (hm_get (hm_insert (ch, p) row (mirror r)))"
    if "\<not> mirror_poisoned r"
    using regmirror.mirrored_put [OF D(1,2) D(5) [OF that], of e row "(ch, p)"] st
    by (simp add: same_state_def)
  then show ?thesis
    using D(1-4) ok reg_view_put [of "(ch, p)" e r]
    by (auto simp: reg_inv_def store_inv_put hm_inv_mirror_write hm_simps split: if_splits)
qed

lemma reg_inv_put_quiet:
  assumes inv: "reg_inv r" and e: "reg_view r (ch, p) = Some e"
    and ok: "entry_ok (next_generation r) (ch, p) e'" and st: "e_state e' = e_state e"
  shows "reg_inv (put_entry ch p e' r)"
proof -
  note D = reg_invD [OF inv]
  have "mirrored same_state (reg_view (put_entry ch p e' r)) (hm_get (mirror r))"
    if "\<not> mirror_poisoned r"
  proof -
    from D(5) [OF that] have "rel_option same_state (reg_view r (ch, p)) (hm_get (mirror r) (ch, p))"
      unfolding mirrored_def by blast
    with e obtain row where "hm_get (mirror r) (ch, p) = Some row" "same_state e row"
      by (cases "hm_get (mirror r) (ch, p)") auto
    then show ?thesis
      using regmirror.mirrored_put_left [OF D(1) D(5) [OF that], of "(ch, p)" row e'] st
      by (simp add: same_state_def)
  qed
  then show ?thesis
    using D(1-4) ok reg_view_put [of "(ch, p)" e' r]
    by (auto simp: reg_inv_def store_inv_put split: if_splits)
qed

lemma mirror_set_state_present:
  assumes "reg_inv r" and "\<not> mirror_poisoned r" and "reg_view r k = Some e"
  shows "\<exists>row. mirror_set_state k st (mirror r) = hm_insert k row (mirror r) \<and> row_state row = st"
proof -
  from assms have "rel_option same_state (reg_view r k) (hm_get (mirror r) k)"
    unfolding reg_inv_def mirrored_def by blast
  with assms(3) obtain row where "hm_get (mirror r) k = Some row"
    by (cases "hm_get (mirror r) k") auto
  then show ?thesis by (auto simp: mirror_set_state_def)
qed

lemma reg_inv_set_state:
  assumes inv: "reg_inv r" and e: "reg_view r (ch, p) = Some e"
    and ok: "entry_ok (next_generation r) (ch, p) e'"
  shows "reg_inv (mirror_write (mirror_set_state (ch, p) (e_state e')) (put_entry ch p e' r))"
proof (cases "mirror_poisoned r")
  case True
  then have "reg_inv (mirror_write (hm_insert (ch, p) \<lparr>row_state = e_state e', registered_at = 0\<rparr>)
      (put_entry ch p e' r))"
    by (intro reg_inv_put_mirror [OF inv ok]) simp
  with True show ?thesis by (simp add: mirror_write_def)
next
  case False
  from mirror_set_state_present [OF inv False e] obtain row where
    "mirror_set_state (ch, p) (e_state e') (mirror r) = hm_insert (ch, p) row (mirror r)"
    "row_state row = e_state e'" by blast
  with reg_inv_put_mirror [OF inv ok, of row] False show ?thesis
    by (simp add: mirror_write_def)
qed

lemma reg_inv_bump_epoch [simp]: "reg_inv (bump_epoch r) = reg_inv r"
  by (simp add: reg_inv_def)

lemma reg_inv_guard_refs:
  "reg_inv r \<Longrightarrow> hm_inv g \<Longrightarrow> reg_inv (r\<lparr>guard_refs := g\<rparr>)"
  by (auto simp: reg_inv_def)

lemma reg_inv_remove:
  assumes inv: "reg_inv r"
  shows "reg_inv (mirror_write (hm_remove (ch, p)) (remove_entry ch p r))"
proof -
  note D = reg_invD [OF inv]
  have "mirrored same_state (reg_view (remove_entry ch p r)) (hm_get (hm_remove (ch, p) (mirror r)))"
    if "\<not> mirror_poisoned r"
    using regmirror.mirrored_del [OF D(1,2) D(5) [OF that], of "(ch, p)"] by simp
  then show ?thesis
    using D(1-4) reg_view_remove [OF D(1), of "(ch, p)"]
    by (auto simp: reg_inv_def store_inv_remove hm_inv_mirror_write hm_simps split: if_splits)
qed

section \<open>Every mutator keeps it\<close>

lemma deregister_inv: "reg_inv r \<Longrightarrow> reg_inv (deregister ch p r)"
  by (simp add: deregister_def reg_inv_remove)

lemma registry_new_inv: "reg_inv (registry_new :: 'd::linorder subscription_registry)"
  by (auto simp: reg_inv_def registry_new_def store_inv_def reg_view_def reg_entry_def mirrored_def
      split: option.splits)

definition fresh_entry :: "'d::linorder subscription_entry \<Rightarrow> bool" where
  "fresh_entry e \<longleftrightarrow> e_count e = 1 \<and> e_state e = Pending \<and> tombstone_holders e = 0 \<and>
     builder_ok (e_builder e)"

lemma depth_headroom: "10 < unat (as_wire_u32 (wire_depth d)) \<and>
    unat (as_wire_u32 d) \<le> unat (as_wire_u32 (wire_depth d))"
  by (cases d) simp_all

lemma builder_new_ok:
  "10 < d \<Longrightarrow> c \<le> d \<Longrightarrow> builder_ok (Some (builder_new symbol d c :: 'd::linorder order_book_builder))"
  using builder_new_inv [of symbol d c, where 'a = 'd]
  by (simp add: builder_ok_def builder_new_def CHECKSUM_DEPTH_def MAX_CONSECUTIVE_BOOK_GAPS_def)

lemma builder_ok_None [simp]: "builder_ok None"
  by (simp add: builder_ok_def)

lemma entry_new_fresh: "fresh_entry (entry_new url ch p params :: 'd::linorder subscription_entry)"
  using depth_headroom
  by (auto simp: fresh_entry_def entry_new_def builder_new_ok
      split: channel_name.split option.split subscribe_params.split)

lemma entry_new_key [simp]:
  "e_channel (entry_new url ch p params) = ch" "e_pair (entry_new url ch p params) = p"
  by (simp_all add: entry_new_def)

lemma bump_or_revive_ok:
  assumes "fresh_entry entry" and "(e_channel entry, e_pair entry) = k" and "0 < gen"
    and "\<And>e. slot = Some e \<Longrightarrow> entry_ok gen k e"
    and "bump_or_revive slot entry gen = (e', revived)"
  shows "entry_ok gen k e' \<and>
    (if e_count e' = 1 then e_state e' = Pending
     else \<exists>e. slot = Some e \<and> e_state e' = e_state e)"
  using assms
  by (cases slot) (fastforce simp: bump_or_revive_def entry_ok_def fresh_entry_def is_tombstone_def
      split: if_splits)+
lemma register_inv:
  assumes inv: "reg_inv r" and fresh: "fresh_entry entry"
  shows "reg_inv (fst (register entry now guard_backed r))"
proof -
  let ?ch = "e_channel entry" and ?p = "e_pair entry"
  define r1 where "r1 = r\<lparr>liveness_epoch := liveness_epoch r + 1,
    next_generation := next_generation r + 1\<rparr>"
  have inv1: "reg_inv r1"
    using inv entry_ok_mono unfolding r1_def reg_inv_def by fastforce
  obtain e revived where br: "bump_or_revive (reg_entry r1 ?ch ?p) entry (next_generation r1) = (e, revived)"
    by fastforce
  have ok: "entry_ok (next_generation r1) (?ch, ?p) e \<and> (if e_count e = 1 then e_state e = Pending
     else \<exists>e0. reg_entry r1 ?ch ?p = Some e0 \<and> e_state e = e_state e0)"
    using reg_invD(4) [OF inv1]
    by (intro bump_or_revive_ok [OF fresh refl _ _ br]) (simp_all add: r1_def reg_entry_view)
  define e' where "e' = (case revived of None \<Rightarrow> e | Some (holders, dying) \<Rightarrow>
    e\<lparr>stale_release_credits := stale_release_credits e +
       (holders - guard_refs_at r1 ?ch ?p dying - (if guard_backed then 0 else 1))\<rparr>)"
  have e': "entry_ok (next_generation r1) (?ch, ?p) e'" "e_count e' = e_count e" "e_state e' = e_state e"
    using ok by (auto simp: e'_def entry_ok_def is_tombstone_def split: option.split prod.split)
  have res: "fst (register entry now guard_backed r) = (if e_count e' = 1
      then mirror_write (hm_insert (?ch, ?p) \<lparr>row_state = Pending, registered_at = now\<rparr>)
        (put_entry ?ch ?p e' r1)
      else put_entry ?ch ?p e' r1)"
    using br unfolding register_def Let_def r1_def [symmetric] by (simp add: e'_def)
  show ?thesis
  proof (cases "e_count e = 1")
    case True
    with ok e' res show ?thesis
      using reg_inv_put_mirror [OF inv1 e'(1), of "\<lparr>row_state = Pending, registered_at = now\<rparr>"] by simp
  next
    case False
    with ok obtain e0 where "reg_view r1 (?ch, ?p) = Some e0" "e_state e = e_state e0"
      by (auto simp: reg_entry_view)
    with False e' res show ?thesis
      using reg_inv_put_quiet [OF inv1 _ e'(1)] by simp
  qed
qed

lemma observe_keeps_ok: "entry_ok g k e \<Longrightarrow> entry_ok g k (e\<lparr>seq_tracker := t\<rparr>)"
  by (simp add: entry_ok_def is_tombstone_def)

lemma note_sequence_inv: "reg_inv r \<Longrightarrow> reg_inv (fst (note_sequence ch seq snap r))"
proof (cases "hm_get (channel_wide r) ch")
  case (Some e)
  assume inv: "reg_inv r"
  have e: "reg_view r (ch, None) = Some e"
    using Some by (simp add: reg_view_def reg_entry_def)
  obtain t d where "observe seq snap (seq_tracker e) = (t, d)" by fastforce
  with Some have "fst (note_sequence ch seq snap r) = put_entry ch None (e\<lparr>seq_tracker := t\<rparr>) r"
    by (simp add: note_sequence_def put_entry_def)
  then show ?thesis
    using reg_inv_put_quiet [OF inv e observe_keeps_ok [OF reg_invD(4) [OF inv e]]] by simp
qed (simp add: note_sequence_def)

lemma bump_epoch_put: "bump_epoch (put_entry ch p e r) = put_entry ch p e (bump_epoch r)"
  by (cases p) (simp_all add: bump_epoch_def put_entry_def pair_map_def)

text \<open>A counter that reaches zero is stored and then removed with its mirror row.\<close>

lemma reg_inv_put_remove:
  assumes inv: "reg_inv r"
  shows "reg_inv (mirror_write (hm_remove (ch, p)) (remove_entry ch p (put_entry ch p e r)))"
proof -
  note D = reg_invD [OF inv]
  have view: "reg_view (remove_entry ch p (put_entry ch p e r)) = (reg_view r)((ch, p) := None)"
    using reg_view_remove [OF store_inv_put [OF D(1)], of "(ch, p)" ch p e]
      reg_view_put [of "(ch, p)" e r] by simp
  have "mirrored same_state (reg_view (remove_entry ch p (put_entry ch p e r)))
      (hm_get (hm_remove (ch, p) (mirror r)))" if "\<not> mirror_poisoned r"
    using D(5) [OF that] by (simp add: view mirrored_def hm_simps)
  then show ?thesis
    using D(1-4) view
    by (auto simp: reg_inv_def store_inv_remove store_inv_put hm_inv_mirror_write hm_simps
        split: if_splits)
qed

lemma put_then_deregister: "reg_inv r \<Longrightarrow> reg_inv (deregister ch p (put_entry ch p e r))"
  by (simp add: deregister_def bump_epoch_put reg_inv_put_remove)

lemma release_inner_inv:
  assumes inv: "reg_inv r"
  shows "reg_inv (fst (release_inner ch p credit r))"
proof (cases "reg_view r (ch, p)")
  case (Some e)
  have ok: "entry_ok (next_generation r) (ch, p) e"
    using reg_invD(4) [OF inv Some] .
  have inv': "reg_inv (bump_epoch r)" and Some': "reg_view (bump_epoch r) (ch, p) = Some e"
    using inv Some by simp_all
  have credit: "reg_inv (put_entry ch p (e\<lparr>stale_release_credits := n\<rparr>) r)" for n
    using ok by (intro reg_inv_put_quiet [OF inv Some]) (simp_all add: entry_ok_def is_tombstone_def)
  have holder: "reg_inv (put_entry ch p (e\<lparr>tombstone_holders := n\<rparr>) r)" if "is_tombstone e" "0 < n" for n
    using ok that by (intro reg_inv_put_quiet [OF inv Some]) (simp_all add: entry_ok_def is_tombstone_def)
  have count: "reg_inv (put_entry ch p (e\<lparr>e_count := n\<rparr>) (bump_epoch r))" if "\<not> is_tombstone e" "0 < n" for n
    using ok that by (intro reg_inv_put_quiet [OF inv' Some']) (simp_all add: entry_ok_def is_tombstone_def)
  show ?thesis
    using Some by (simp add: release_inner_def reg_entry_view Let_def inv inv' credit holder count
        put_then_deregister)
qed (simp add: release_inner_def reg_entry_view inv)

lemma release_inv: "reg_inv r \<Longrightarrow> reg_inv (fst (release ch p r))"
  by (simp add: release_def release_inner_inv)

lemma record_guard_ref_inv: "reg_inv r \<Longrightarrow> reg_inv (record_guard_ref h ch p r)"
  using reg_invD(3) [of r]
  by (auto simp: record_guard_ref_def hm_simps intro!: reg_inv_guard_refs split: option.split)

lemma release_guard_ref_inv: "reg_inv r \<Longrightarrow> reg_inv (fst (release_guard_ref h ch p r))"
proof -
  assume inv: "reg_inv r"
  have "reg_inv (r\<lparr>guard_refs := hm_remove (h, ch, p) (guard_refs r)\<rparr>)"
    using inv reg_invD(3) [OF inv] by (intro reg_inv_guard_refs) (simp_all add: hm_simps)
  then show ?thesis
    by (auto simp: release_guard_ref_def Let_def release_inner_inv split: option.split)
qed

lemma note_acked_inv:
  assumes inv: "reg_inv r"
  shows "reg_inv (note_acked ch p r)"
proof (cases "reg_view r (ch, p)")
  case (Some e)
  have "entry_ok (next_generation r) (ch, p) (e\<lparr>e_state := Acked\<rparr>)" if "e_state e = Pending"
    using reg_invD(4) [OF inv Some] that by (auto simp: entry_ok_def is_tombstone_def)
  then show ?thesis
    using inv Some reg_inv_set_state [OF inv Some, of "e\<lparr>e_state := Acked\<rparr>"]
    by (auto simp: note_acked_def reg_entry_view)
qed (simp add: note_acked_def reg_entry_view inv)

lemma note_terminated_inv:
  assumes inv: "reg_inv r"
  shows "reg_inv (note_terminated ch p cause err r)"
proof (cases "reg_view r (ch, p)")
  case (Some e)
  let ?e = "e\<lparr>tombstone_holders := e_count e, e_count := 0, e_state := Terminated cause err\<rparr>"
  have inv': "reg_inv (bump_epoch r)" and Some': "reg_view (bump_epoch r) (ch, p) = Some e"
    using inv Some by simp_all
  have "entry_ok (next_generation r) (ch, p) ?e" if "\<not> is_tombstone e"
    using reg_invD(4) [OF inv Some] that by (auto simp: entry_ok_def is_tombstone_def)
  then show ?thesis
    using inv Some reg_inv_set_state [OF inv' Some', of ?e]
    by (auto simp: note_terminated_def reg_entry_view bump_epoch_put)
qed (simp add: note_terminated_def reg_entry_view inv)

text \<open>A change that leaves everything but the builder alone.\<close>

lemma entry_ok_builder:
  "entry_ok g k e \<Longrightarrow> builder_ok b \<Longrightarrow> entry_ok g k (e\<lparr>e_builder := b\<rparr>)"
  by (auto simp: entry_ok_def is_tombstone_def)

lemma entry_ok_builderD: "entry_ok g k e \<Longrightarrow> builder_ok (e_builder e)"
  by (simp add: entry_ok_def)

lemma reg_inv_builder:
  assumes "reg_inv r" and "reg_view r (ch, p) = Some e" and "builder_ok b"
  shows "reg_inv (put_entry ch p (e\<lparr>e_builder := b\<rparr>) r)"
  using reg_inv_put_quiet [OF assms(1,2) entry_ok_builder [OF reg_invD(4) [OF assms(1,2)] assms(3)]]
  by simp

lemma apply_keeps_builder_ok:
  assumes "builder_ok (Some b)" and "b' = fst (apply_snapshot H bs as c b) \<or> b' = fst (apply_delta H bs as c b)"
    and "consecutive_gaps b' < MAX_CONSECUTIVE_BOOK_GAPS"
  shows "builder_ok (Some b')"
  using assms apply_snapshot_inv [of H bs as c b] apply_delta_inv [of b H bs as c]
  by (auto simp: builder_ok_def) (auto simp: apply_snapshot_def apply_delta_def)

lemma drive_update_builder:
  assumes "builder_ok (e_builder e)"
  shows "\<exists>b. fst (drive_update H deser dec snap data e) = e\<lparr>e_builder := b\<rparr> \<and> builder_ok b"
proof -
  have same: "e = e\<lparr>e_builder := e_builder e\<rparr>" by simp
  show ?thesis
  proof (cases "\<exists>b p. e_builder e = Some b \<and> \<not> (resyncing b \<and> \<not> snap) \<and>
      parse_book_frame deser dec data = Some p \<and> pb_symbol p = b_symbol b")
    case True
    then obtain b p where b: "e_builder e = Some b" "\<not> (resyncing b \<and> \<not> snap)"
      "parse_book_frame deser dec data = Some p" "pb_symbol p = b_symbol b" by blast
    define ap where "ap = (if snap then apply_snapshot H (pb_bids p) (pb_asks p) (pb_checksum p) b
      else apply_delta H (pb_bids p) (pb_asks p) (pb_checksum p) b)"
    obtain b' res where ap: "ap = (b', res)" by fastforce
    have b': "b' = fst (apply_snapshot H (pb_bids p) (pb_asks p) (pb_checksum p) b) \<or>
        b' = fst (apply_delta H (pb_bids p) (pb_asks p) (pb_checksum p) b)"
      using arg_cong [OF ap, of fst] by (simp add: ap_def split: if_splits)
    have ok: "builder_ok (Some b')" if "consecutive_gaps b' < MAX_CONSECUTIVE_BOOK_GAPS"
      using apply_keeps_builder_ok [OF _ b' that] assms b(1) by simp
    have accepted: "consecutive_gaps b' = 0" if "res = Inr u" for u
      using that ap
      by (auto simp: ap_def apply_snapshot_def apply_delta_def
          dest!: validate_and_record_cases split: if_splits)
    have "drive_update H deser dec snap data e = (case res of
        Inr _ \<Rightarrow> (e\<lparr>e_builder := Some b'\<rparr>, Maintained (build_update (pb_checksum p) None (pb_timestamp p) b'))
      | Inl (ChecksumMismatch ex co) \<Rightarrow> if consecutive_gaps b' \<ge> MAX_CONSECUTIVE_BOOK_GAPS
          then (e\<lparr>e_builder := None\<rparr>, GapBudgetExhausted) else (e\<lparr>e_builder := Some b'\<rparr>, Gap ex co))"
      using b ap by (auto simp: drive_update_def ap_def Let_def split: sum.split apply_error.split)
    then show ?thesis
      using ok accepted builder_ok_None
      by (auto simp: not_le MAX_CONSECUTIVE_BOOK_GAPS_def split: sum.split apply_error.split)
  next
    case False
    then have "fst (drive_update H deser dec snap data e) = e"
      by (auto simp: drive_update_def split: option.split)
    then show ?thesis using assms same by metis
  qed
qed

lemma handle_update_inv:
  assumes inv: "reg_inv r"
  shows "reg_inv (fst (handle_update H deser dec ch p snap data r))"
proof (cases "reg_view r (ch, p)")
  case (Some e)
  from drive_update_builder [OF entry_ok_builderD [OF reg_invD(4) [OF inv Some]], of H deser dec snap data]
  obtain b where "fst (drive_update H deser dec snap data e) = e\<lparr>e_builder := b\<rparr>" "builder_ok b" by blast
  then show ?thesis
    using reg_inv_builder [OF inv Some] Some
    by (cases "drive_update H deser dec snap data e") (simp add: handle_update_def reg_entry_view)
qed (simp add: handle_update_def reg_entry_view inv)

lemma begin_resync_ok: "builder_ok (Some b) \<Longrightarrow> builder_ok (Some (begin_resync b))"
  using begin_resync_inv [of b] by (auto simp: builder_ok_def begin_resync_def)

lemma begin_book_resync_inv:
  assumes inv: "reg_inv r"
  shows "reg_inv (begin_book_resync ch s r)"
proof (cases "reg_view r (ch, Some s)")
  case (Some e)
  have "reg_inv (put_entry ch (Some s) (e\<lparr>e_builder := Some (begin_resync b)\<rparr>) r)"
    if "e_builder e = Some b" for b
    using entry_ok_builderD [OF reg_invD(4) [OF inv Some]] that
    by (intro reg_inv_builder [OF inv Some] begin_resync_ok) simp
  then show ?thesis
    using inv Some by (simp add: begin_book_resync_def reg_entry_view split: option.split)
qed (simp add: begin_book_resync_def reg_entry_view inv)

lemma note_reseed_failure_ok:
  "builder_ok (Some b) \<Longrightarrow> note_reseed_failure b = (b', n) \<Longrightarrow> n < MAX_CONSECUTIVE_BOOK_GAPS \<Longrightarrow>
   builder_ok (Some b')"
  using note_reseed_failure_inv [of b] by (auto simp: builder_ok_def note_reseed_failure_def Let_def)

lemma note_reseed_timeout_inv:
  assumes inv: "reg_inv r"
  shows "reg_inv (fst (note_reseed_timeout ch s r))"
proof (cases "reg_view r (ch, Some s)")
  case (Some e)
  have ok: "builder_ok (e_builder e)"
    using entry_ok_builderD [OF reg_invD(4) [OF inv Some]] .
  have "reg_inv (put_entry ch (Some s) (e\<lparr>e_builder := Some b'\<rparr>) r)"
    if "e_builder e = Some b" "note_reseed_failure b = (b', n)" "\<not> n \<ge> MAX_CONSECUTIVE_BOOK_GAPS" for b b' n
    using reg_inv_builder [OF inv Some] note_reseed_failure_ok [of b b' n] ok that by simp
  moreover have "reg_inv (put_entry ch (Some s) (e\<lparr>e_builder := None\<rparr>) r)"
    by (intro reg_inv_builder [OF inv Some]) simp
  ultimately show ?thesis
    using inv Some
    by (simp add: note_reseed_timeout_def reg_entry_view Let_def split: option.split prod.split)
qed (simp add: note_reseed_timeout_def reg_entry_view inv)
section \<open>Iterating over all entries\<close>

lemma set_channel_wide:
  "store_inv r \<Longrightarrow> e \<in> set (map snd (channel_wide r)) \<longleftrightarrow> (\<exists>ch. reg_view r (ch, None) = Some e)"
  by (force simp: store_inv_def reg_view_def reg_entry_def hm_get_set)

lemma set_pair_map:
  assumes "store_inv r"
  shows "e \<in> set (map snd (pair_map r ch)) \<longleftrightarrow> (\<exists>s. reg_view r (ch, Some s) = Some e)"
proof (cases "hm_get (entries r) ch")
  case (Some m)
  with store_invD [OF assms Some] show ?thesis
    by (force simp: pair_map_def reg_view_def reg_entry_def hm_get_set)
qed (simp add: pair_map_def reg_view_def reg_entry_def)

lemma set_pair_entries:
  assumes "store_inv r"
  shows "e \<in> set (pair_entries r) \<longleftrightarrow> (\<exists>ch s. reg_view r (ch, Some s) = Some e)"
proof -
  have "e \<in> set (pair_entries r) \<longleftrightarrow> (\<exists>ch m. hm_get (entries r) ch = Some m \<and> e \<in> set (map snd m))"
  proof -
    have "hm_inv (entries r)" using assms by (simp add: store_inv_def)
    then show ?thesis unfolding hm_get_set [OF \<open>hm_inv (entries r)\<close>] by (simp add: pair_entries_def Bex_def)
  qed
  also have "\<dots> \<longleftrightarrow> (\<exists>ch. e \<in> set (map snd (pair_map r ch)))"
  proof (rule ex_cong1)
    show "(\<exists>m. hm_get (entries r) ch = Some m \<and> e \<in> set (map snd m)) \<longleftrightarrow>
        e \<in> set (map snd (pair_map r ch))" for ch
      by (cases "hm_get (entries r) ch") (simp_all add: pair_map_def)
  qed
  finally show ?thesis by (simp only: set_pair_map [OF assms])
qed

lemma set_all_entries:
  "store_inv r \<Longrightarrow> e \<in> set (map snd (channel_wide r) @ pair_entries r) \<longleftrightarrow> (\<exists>k. reg_view r k = Some e)"
  unfolding set_append Un_iff set_channel_wide set_pair_entries by (metis option.exhaust surj_pair)

lemma set_taken:
  assumes "store_inv r"
  shows "e \<in> set (fst (take_entries c r)) \<longleftrightarrow>
    (\<exists>k. reg_view r k = Some e \<and> (case c of None \<Rightarrow> True | Some ch \<Rightarrow> fst k = ch))"
proof (cases c)
  case None
  then show ?thesis using set_all_entries [OF assms] by (simp add: take_entries_def)
next
  case (Some ch)
  then have "e \<in> set (fst (take_entries c r)) \<longleftrightarrow>
      reg_view r (ch, None) = Some e \<or> e \<in> set (map snd (pair_map r ch))"
    by (auto simp: take_entries_def reg_view_def reg_entry_def split: option.splits)
  then show ?thesis
    unfolding set_pair_map [OF assms] using Some by (auto intro: option.exhaust) (metis option.exhaust)
qed

lemma taken_rest:
  assumes "store_inv r"
  shows "store_inv (snd (take_entries c r)) \<and>
    reg_view (snd (take_entries c r)) =
      (\<lambda>k. if (case c of None \<Rightarrow> True | Some ch \<Rightarrow> fst k = ch) then None else reg_view r k)"
  using assms
  by (auto simp: take_entries_def store_inv_def reg_view_def reg_entry_def fun_eq_iff hm_simps
      dest: set_mp [OF set_delete_subset] split: option.splits)

lemma take_entries_fields [simp]:
  "mirror (snd (take_entries c r)) = mirror r"
  "mirror_poisoned (snd (take_entries c r)) = mirror_poisoned r"
  "next_generation (snd (take_entries c r)) = next_generation r"
  "guard_refs (snd (take_entries c r)) = guard_refs r"
  by (simp_all add: take_entries_def split: option.split)

lemma fold_mirror_remove:
  "hm_inv m \<Longrightarrow> hm_inv (fold (\<lambda>e. hm_remove (e_channel e, e_pair e)) es m) \<and>
   hm_get (fold (\<lambda>e. hm_remove (e_channel e, e_pair e)) es m) =
     (\<lambda>k. if k \<in> (\<lambda>e. (e_channel e, e_pair e)) ` set es then None else hm_get m k)"
  using hm.fold_del [of m "map (\<lambda>e. (e_channel e, e_pair e)) es"] by (simp add: fold_map comp_def)

lemma reg_inv_entry_key: "reg_inv r \<Longrightarrow> reg_view r k = Some e \<Longrightarrow> (e_channel e, e_pair e) = k"
  using reg_invD(4) unfolding entry_ok_def by blast

lemma deregister_all_inv:
  assumes inv: "reg_inv r"
  shows "reg_inv (fst (deregister_all c r))"
proof -
  define r0 where "r0 = bump_epoch r"
  have inv0: "reg_inv r0" using inv by (simp add: r0_def)
  note D = reg_invD [OF inv0] and K = reg_inv_entry_key [OF inv0]
  define f :: "(sub_key, mirror_row) hashmap \<Rightarrow> _" where "f = fold (\<lambda>e. hm_remove (e_channel e, e_pair e))
      (sort_key entry_order_key (fst (take_entries c r0)))"
  have eq: "fst (deregister_all c r) = mirror_write f (snd (take_entries c r0))"
    by (simp add: deregister_all_def f_def r0_def Let_def split: prod.split)
  have keys: "k \<in> (\<lambda>e. (e_channel e, e_pair e)) ` set (fst (take_entries c r0)) \<longleftrightarrow>
      reg_view r0 k \<noteq> None \<and> (case c of None \<Rightarrow> True | Some ch \<Rightarrow> fst k = ch)" for k
    using K set_taken [OF D(1)] by (fastforce simp: image_iff)
  note rest = taken_rest [OF D(1), of c]
  have get_f: "hm_get (f (mirror r0)) k = (if reg_view r0 k \<noteq> None \<and>
      (case c of None \<Rightarrow> True | Some ch \<Rightarrow> fst k = ch) then None else hm_get (mirror r0) k)" for k
    using fold_mirror_remove [OF D(2), of "sort_key entry_order_key (fst (take_entries c r0))"]
    unfolding f_def by (simp only: set_sort keys)
  have "mirrored same_state (reg_view (snd (take_entries c r0))) (hm_get (f (mirror r0)))"
    if "\<not> mirror_poisoned r0"
  proof -
    have "rel_option same_state (reg_view (snd (take_entries c r0)) k) (hm_get (f (mirror r0)) k)" for k
    proof -
      have "rel_option same_state (reg_view r0 k) (hm_get (mirror r0) k)"
        using D(5) [OF that] unfolding mirrored_def by blast
      then show ?thesis
        unfolding get_f conjunct2 [OF rest]
        by (cases "reg_view r0 k"; cases "hm_get (mirror r0) k") simp_all
    qed
    then show ?thesis by (simp add: mirrored_def)
  qed
  moreover have "hm_inv (f m)" if "hm_inv m" for m
    unfolding f_def using fold_mirror_remove [OF that] by blast
  ultimately show ?thesis
    using D(2-4) rest unfolding eq
    by (auto simp: reg_inv_def hm_inv_mirror_write split: if_splits)
qed
section \<open>Runs of the registry\<close>

datatype 'j reg_op =
    OpRegister ws_url channel_name "string option" subscribe_params instant bool
  | OpRelease channel_name "string option"
  | OpRecordGuard nat channel_name "string option"
  | OpReleaseGuard nat channel_name "string option"
  | OpAcked channel_name "string option"
  | OpTerminated channel_name "string option" termination_cause "string option"
  | OpUpdate channel_name "string option" bool 'j
  | OpResync channel_name string
  | OpReseedTimeout channel_name string
  | OpSequence channel_name u64 bool
  | OpDeregister channel_name "string option"
  | OpDeregisterAll "channel_name option"
  | OpPoisonMirror

fun reg_step :: "'h hasher \<Rightarrow> ('j \<Rightarrow> raw_book_data option) \<Rightarrow> (string \<Rightarrow> 'd::linorder option) \<Rightarrow>
    'j reg_op \<Rightarrow> 'd subscription_registry \<Rightarrow> 'd subscription_registry" where
  "reg_step H deser dec (OpRegister url ch p params now g) r =
     fst (register (entry_new url ch p params) now g r)"
| "reg_step H deser dec (OpRelease ch p) r = fst (release ch p r)"
| "reg_step H deser dec (OpRecordGuard h ch p) r = record_guard_ref h ch p r"
| "reg_step H deser dec (OpReleaseGuard h ch p) r = fst (release_guard_ref h ch p r)"
| "reg_step H deser dec (OpAcked ch p) r = note_acked ch p r"
| "reg_step H deser dec (OpTerminated ch p c err) r = note_terminated ch p c err r"
| "reg_step H deser dec (OpUpdate ch p snap data) r = fst (handle_update H deser dec ch p snap data r)"
| "reg_step H deser dec (OpResync ch s) r = begin_book_resync ch s r"
| "reg_step H deser dec (OpReseedTimeout ch s) r = fst (note_reseed_timeout ch s r)"
| "reg_step H deser dec (OpSequence ch n snap) r = fst (note_sequence ch n snap r)"
| "reg_step H deser dec (OpDeregister ch p) r = deregister ch p r"
| "reg_step H deser dec (OpDeregisterAll c) r = fst (deregister_all c r)"
| "reg_step H deser dec OpPoisonMirror r = r\<lparr>mirror_poisoned := True\<rparr>"

lemmas mutator_invs =
  register_inv release_inv record_guard_ref_inv release_guard_ref_inv note_acked_inv
  note_terminated_inv handle_update_inv begin_book_resync_inv note_reseed_timeout_inv
  note_sequence_inv deregister_inv deregister_all_inv

lemma poison_view: "reg_view (r\<lparr>mirror_poisoned := True\<rparr>) = reg_view r"
  unfolding reg_view_def by (intro ext reg_entry_cong) simp_all

lemma reg_step_inv: "reg_inv r \<Longrightarrow> reg_inv (reg_step H deser dec op r)"
proof (cases op)
  case OpPoisonMirror
  assume "reg_inv r"
  then show ?thesis
    unfolding OpPoisonMirror reg_step.simps reg_inv_def poison_view by (simp add: store_inv_def)
qed (simp_all add: mutator_invs entry_new_fresh)

definition reg_run :: "'h hasher \<Rightarrow> ('j \<Rightarrow> raw_book_data option) \<Rightarrow> (string \<Rightarrow> 'd::linorder option) \<Rightarrow>
    'j reg_op list \<Rightarrow> 'd subscription_registry" where
  "reg_run H deser dec ops = fold (reg_step H deser dec) ops registry_new"

lemma reg_run_inv: "reg_inv (reg_run H deser dec ops)"
proof -
  have "reg_inv r \<Longrightarrow> reg_inv (fold (reg_step H deser dec) ops r)" for r
    by (induction ops arbitrary: r) (simp_all add: reg_step_inv)
  then show ?thesis by (simp add: reg_run_def registry_new_inv)
qed
section \<open>Subscriber counting\<close>

text \<open>The abstract view of one key: how many subscribers hold it.\<close>

definition holders :: "'d subscription_registry \<Rightarrow> sub_key \<Rightarrow> nat" where
  "holders r k = (case reg_view r k of None \<Rightarrow> 0 | Some e \<Rightarrow> e_count e)"

text \<open>No guard is recorded on the key and no release is owed to a dead generation.\<close>

definition plain :: "'d subscription_registry \<Rightarrow> sub_key \<Rightarrow> bool" where
  "plain r k \<longleftrightarrow> \<not> is_terminated r (fst k) (snd k) \<and>
     (\<forall>e. reg_view r k = Some e \<longrightarrow>
        stale_release_credits e = 0 \<and> guard_refs_at r (fst k) (snd k) (e_generation e) = 0)"

lemma guard_refs_at_cong: "guard_refs r' = guard_refs r \<Longrightarrow> guard_refs_at r' ch p g = guard_refs_at r ch p g"
  by (simp add: guard_refs_at_def)

lemma reg_view_put_entry: "reg_view (put_entry ch p e r) = (reg_view r)((ch, p) \<mapsto> e)"
  using reg_view_put [of "(ch, p)"] by simp

lemma register_view:
  "reg_view (fst (register entry now g r)) = (reg_view r)((e_channel entry, e_pair entry) \<mapsto>
     the (reg_view (fst (register entry now g r)) (e_channel entry, e_pair entry)))"
  by (auto simp: register_def Let_def reg_view_put_entry split: prod.split)

lemma register_fields [simp]:
  "guard_refs (fst (register entry now g r)) = guard_refs r"
  "next_generation (fst (register entry now g r)) = next_generation r + 1"
  "mirror_poisoned (fst (register entry now g r)) = mirror_poisoned r"
  by (simp_all add: register_def Let_def split: prod.split)

lemma register_new:
  assumes "reg_view r (e_channel entry, e_pair entry) = None"
  shows "reg_view (fst (register entry now g r)) (e_channel entry, e_pair entry) =
      Some (entry\<lparr>e_generation := next_generation r + 1\<rparr>)"
    and "snd (register entry now g r) = e_count entry"
  using assms
  by (simp_all add: register_def Let_def bump_or_revive_def reg_entry_view reg_view_put_entry)

lemma register_again:
  assumes "reg_view r (e_channel entry, e_pair entry) = Some e" and "e_count e \<noteq> 0"
  shows "reg_view (fst (register entry now g r)) (e_channel entry, e_pair entry) =
      Some (e\<lparr>e_count := e_count e + 1\<rparr>)"
    and "snd (register entry now g r) = e_count e + 1"
  using assms
  by (simp_all add: register_def Let_def bump_or_revive_def reg_entry_view reg_view_put_entry)

lemma register_revive:
  assumes "reg_view r (e_channel entry, e_pair entry) = Some e" and "e_count e = 0"
  shows "\<exists>credits. reg_view (fst (register entry now g r)) (e_channel entry, e_pair entry) =
      Some (e\<lparr>e_params := e_params entry, e_builder := e_builder entry,
        e_generation := next_generation r + 1, seq_tracker := None, e_state := Pending,
        tombstone_holders := 0, e_count := 1, stale_release_credits := credits\<rparr>)"
  using assms
  by (simp add: register_def Let_def bump_or_revive_def reg_entry_view reg_view_put_entry) blast

lemma deregister_view:
  "store_inv r \<Longrightarrow> reg_view (deregister ch p r) = (reg_view r)((ch, p) := None)"
  using reg_view_remove [of "bump_epoch r" "(ch, p)"] by (simp add: deregister_def)

lemma release_plain:
  assumes inv: "reg_inv r" and e: "reg_view r k = Some e" and "plain r k"
  shows "reg_view (fst (release (fst k) (snd k) r)) =
      (reg_view r)(k := (if e_count e = 1 then None else Some (e\<lparr>e_count := e_count e - 1\<rparr>)))"
    and "snd (release (fst k) (snd k) r) = e_count e - 1"
proof -
  obtain ch p where k: "k = (ch, p)" by fastforce
  have facts: "\<not> is_tombstone e" "stale_release_credits e = 0"
      "guard_refs_at r ch p (e_generation e) = 0" "0 < e_count e"
    using assms reg_invD(4) [OF inv e]
    by (auto simp: k plain_def is_terminated_def reg_entry_view entry_ok_def)
  let ?r = "put_entry ch p (e\<lparr>e_count := e_count e - 1\<rparr>) (bump_epoch r)"
  have put: "reg_view ?r = (reg_view r)((ch, p) \<mapsto> e\<lparr>e_count := e_count e - 1\<rparr>)"
    using reg_view_put [of "(ch, p)" _ "bump_epoch r"] by simp
  have del: "reg_view (deregister ch p ?r) = (reg_view r)((ch, p) := None)"
    using deregister_view [of ?r] store_inv_put [of "bump_epoch r"] reg_invD(1) [OF inv] put by simp
  have rel: "release ch p r =
      (if e_count e - 1 = 0 then (deregister ch p ?r, 0) else (?r, e_count e - 1))"
    using facts e by (simp add: release_def release_inner_def reg_entry_view k Let_def)
  show "reg_view (fst (release (fst k) (snd k) r)) =
      (reg_view r)(k := (if e_count e = 1 then None else Some (e\<lparr>e_count := e_count e - 1\<rparr>)))"
    using facts(4) put del rel by (auto simp: k)
  show "snd (release (fst k) (snd k) r) = e_count e - 1"
    using facts(4) rel by (simp add: k)
qed
section \<open>Replay order\<close>

abbreviation entry_key :: "'d subscription_entry \<Rightarrow> sub_key" where
  "entry_key e \<equiv> (e_channel e, e_pair e)"

lemma distinct_nested_keys:
  assumes "distinct (map fst m)" and "\<And>ch n. (ch, n) \<in> set m \<Longrightarrow> distinct (map fst n)"
    and "\<And>ch n s e. (ch, n) \<in> set m \<Longrightarrow> (s, e) \<in> set n \<Longrightarrow> f e = (ch, Some s)"
  shows "distinct (map f (concat (map (map snd \<circ> snd) m)))"
  using assms
proof (induction m)
  case (Cons x m)
  obtain ch n where x: "x = (ch, n)" by fastforce
  have "map (f \<circ> snd) n = map (\<lambda>se. (ch, Some (fst se))) n"
    using Cons.prems(3) [of ch n] by (auto simp: x)
  moreover have "distinct (map (\<lambda>se. (ch, Some (fst se))) n)"
    using Cons.prems(2) [of ch n] by (simp add: x distinct_map inj_on_def)
  ultimately have inner: "distinct (map (f \<circ> snd) n)" by (simp only:)
  have outer: "distinct (map f (concat (map (map snd \<circ> snd) m)))"
  proof (rule Cons.IH)
    show "f e = (ch, Some s)" if "(ch, n) \<in> set m" "(s, e) \<in> set n" for ch n s e
      using that by (intro Cons.prems(3) [of ch n s e]) simp_all
  qed (use Cons.prems(1,2) in auto)
  have "f e \<notin> f ` set (concat (map (map snd \<circ> snd) m))" if "(s, e) \<in> set n" for s e
  proof
    assume "f e \<in> f ` set (concat (map (map snd \<circ> snd) m))"
    then obtain ch' n' s' e' where m': "(ch', n') \<in> set m" "(s', e') \<in> set n'" "f e = f e'"
      by (auto simp: image_iff)
    moreover from this have "ch' \<noteq> ch" using Cons.prems(1) by (force simp: x)
    ultimately show False
      using that Cons.prems(3) [of ch n s e] Cons.prems(3) [of ch' n' s' e'] by (simp add: x)
  qed
  moreover have "f ` snd ` set n \<inter> S = {}" if "\<And>s e. (s, e) \<in> set n \<Longrightarrow> f e \<notin> S" for S
    using that by auto
  ultimately have "f ` snd ` set n \<inter> f ` set (concat (map (map snd \<circ> snd) m)) = {}" by blast
  with inner outer show ?case by (simp add: x image_comp comp_def)
qed simp

lemma all_entries_distinct:
  assumes inv: "reg_inv r"
  shows "distinct (map entry_key (map snd (channel_wide r) @ pair_entries r))"
proof -
  note D = reg_invD [OF inv] and K = reg_inv_entry_key [OF inv]
  have cw: "entry_key e = (ch, None)" if "(ch, e) \<in> set (channel_wide r)" for ch e
    using that D(1) by (intro K) (simp add: reg_view_def reg_entry_def store_inv_def hm_get_set)
  have pe: "entry_key e = (ch, Some s)" if "(ch, n) \<in> set (entries r)" "(s, e) \<in> set n" for ch n s e
  proof (rule K)
    have "hm_get (entries r) ch = Some n" using that D(1) by (simp add: store_inv_def hm_get_set)
    moreover from store_invD [OF D(1) this] that have "hm_get n s = Some e" by (simp add: hm_get_set)
    ultimately show "reg_view r (ch, Some s) = Some e" by (simp add: reg_view_def reg_entry_def)
  qed
  have "map (entry_key \<circ> snd) (channel_wide r) = map (\<lambda>ce. (fst ce, None)) (channel_wide r)"
    using cw by auto
  then have "distinct (map (entry_key \<circ> snd) (channel_wide r))"
    using D(1) by (simp add: store_inv_def hm_inv_def distinct_map inj_on_def)
  moreover have "distinct (map entry_key (pair_entries r))"
    unfolding pair_entries_def using D(1) pe
    by (intro distinct_nested_keys) (auto simp: store_inv_def hm_inv_def)
  moreover have "entry_key e \<noteq> entry_key e'" if "(ch, e) \<in> set (channel_wide r)"
    "e' \<in> set (pair_entries r)" for ch e e'
    using cw [OF that(1)] that(2) pe by (fastforce simp: pair_entries_def)
  ultimately show ?thesis by force
qed

lemma replay_distinct: "reg_inv r \<Longrightarrow> distinct (map entry_key (entries_for_resubscribe_sorted url r))"
proof -
  assume "reg_inv r"
  from all_entries_distinct [OF this]
  have "distinct (map entry_key (filter P (map snd (channel_wide r) @ pair_entries r)))" for P
    by (rule distinct_map_filter)
  then show ?thesis
    unfolding entries_for_resubscribe_sorted_def
    by (simp only: distinct_map distinct_sort set_sort)
qed

lemma replay_set:
  "store_inv r \<Longrightarrow> set (entries_for_resubscribe_sorted url r) =
     {e. (\<exists>k. reg_view r k = Some e) \<and> e_url e = url \<and> \<not> is_tombstone e}"
  unfolding entries_for_resubscribe_sorted_def set_sort set_filter set_all_entries by blast

end
