(* ===== verification/F64.thy ===== *)
theory F64
  imports Prelude "HOL-Library.Log_Nat"
begin

text \<open>
  The binary64 arithmetic the sources use. A value is a rational number or one of the three
  specials; every operation computes the exact result and rounds it to nearest, ties to even, with
  gradual underflow and overflow to infinity. The sign of zero is not kept: no operation of the
  sources observes it. \<open>powi\<close> is the square-and-multiply loop of the runtime library.
  The locale \<open>rounding\<close> states what the clients rely on and proves the bounds they use.
\<close>

section \<open>Rounding\<close>

definition round_half_even :: "rat \<Rightarrow> int" where
  "round_half_even x =
     (let f = \<lfloor>x\<rfloor>; d = x - of_int f in
      if d < 1 / 2 then f else if d > 1 / 2 then f + 1 else if even f then f else f + 1)"

text \<open>The exponent of a positive number: the largest power of two not above it.\<close>

definition binade :: "rat \<Rightarrow> int" where
  "binade x = (if 1 \<le> x then bitlen \<lfloor>x\<rfloor> - 1 else - bitlen (\<lceil>1 / x\<rceil> - 1))"

definition ulp_exp :: "rat \<Rightarrow> int" where
  "ulp_exp x = max (binade x - 52) (- 1074)"

definition round64 :: "rat \<Rightarrow> rat" where
  "round64 x =
     (if x = 0 then 0
      else let q = (2 :: rat) powi ulp_exp \<bar>x\<bar> in of_int (round_half_even (x / q)) * q)"

section \<open>Values and operations\<close>

datatype f64 = Fin rat | PInf | NInf | NaN

definition f64_of :: "rat \<Rightarrow> f64" where
  "f64_of x =
     (let r = round64 x in
      if r \<ge> 2 ^ 1024 then PInf else if r \<le> - (2 ^ 1024) then NInf else Fin r)"

definition is_finite :: "f64 \<Rightarrow> bool" where
  "is_finite x = (case x of Fin _ \<Rightarrow> True | _ \<Rightarrow> False)"

fun f_neg :: "f64 \<Rightarrow> f64" where
  "f_neg (Fin x) = Fin (- x)"
| "f_neg PInf = NInf"
| "f_neg NInf = PInf"
| "f_neg NaN = NaN"

fun f_add :: "f64 \<Rightarrow> f64 \<Rightarrow> f64" where
  "f_add NaN y = NaN"
| "f_add x NaN = NaN"
| "f_add (Fin x) (Fin y) = f64_of (x + y)"
| "f_add PInf NInf = NaN"
| "f_add NInf PInf = NaN"
| "f_add PInf y = PInf"
| "f_add NInf y = NInf"
| "f_add x PInf = PInf"
| "f_add x NInf = NInf"

definition f_sub :: "f64 \<Rightarrow> f64 \<Rightarrow> f64" where
  "f_sub x y = f_add x (f_neg y)"

definition f_inf :: "bool \<Rightarrow> f64" where
  "f_inf neg = (if neg then NInf else PInf)"

definition f_sign :: "f64 \<Rightarrow> bool" where
  "f_sign x = (case x of Fin r \<Rightarrow> r < 0 | NInf \<Rightarrow> True | _ \<Rightarrow> False)"

definition f_mul :: "f64 \<Rightarrow> f64 \<Rightarrow> f64" where
  "f_mul x y =
     (case (x, y) of
        (NaN, _) \<Rightarrow> NaN
      | (_, NaN) \<Rightarrow> NaN
      | (Fin a, Fin b) \<Rightarrow> f64_of (a * b)
      | _ \<Rightarrow> if x = Fin 0 \<or> y = Fin 0 then NaN else f_inf (f_sign x \<noteq> f_sign y))"

text \<open>Division; a zero divisor is positive in every use.\<close>

definition f_div :: "f64 \<Rightarrow> f64 \<Rightarrow> f64" where
  "f_div x y =
     (case (x, y) of
        (NaN, _) \<Rightarrow> NaN
      | (_, NaN) \<Rightarrow> NaN
      | (Fin a, Fin b) \<Rightarrow>
          if b = 0 then (if a = 0 then NaN else f_inf (a < 0)) else f64_of (a / b)
      | (Fin a, _) \<Rightarrow> Fin 0
      | (_, Fin b) \<Rightarrow> f_inf (f_sign x \<noteq> (b < 0))
      | _ \<Rightarrow> NaN)"

fun f_le :: "f64 \<Rightarrow> f64 \<Rightarrow> bool" where
  "f_le NaN y = False"
| "f_le x NaN = False"
| "f_le (Fin x) (Fin y) = (x \<le> y)"
| "f_le NInf y = True"
| "f_le x PInf = True"
| "f_le PInf y = False"
| "f_le x NInf = False"

definition f_lt :: "f64 \<Rightarrow> f64 \<Rightarrow> bool" where
  "f_lt x y \<longleftrightarrow> f_le x y \<and> x \<noteq> y"

text \<open>\<open>f64::max\<close> and \<open>f64::min\<close> ignore a single NaN.\<close>

definition f_max :: "f64 \<Rightarrow> f64 \<Rightarrow> f64" where
  "f_max x y = (if x = NaN then y else if y = NaN then x else if f_le x y then y else x)"

definition f_min :: "f64 \<Rightarrow> f64 \<Rightarrow> f64" where
  "f_min x y = (if x = NaN then y else if y = NaN then x else if f_le x y then x else y)"

definition f_clamp :: "f64 \<Rightarrow> f64 \<Rightarrow> f64 \<Rightarrow> f64" where
  "f_clamp x lo hi = (if f_lt x lo then lo else if f_lt hi x then hi else x)"

definition f_of_u32 :: "u32 \<Rightarrow> f64" where
  "f_of_u32 n = Fin (of_nat (unat n))"

definition f_of_u64 :: "u64 \<Rightarrow> f64" where
  "f_of_u64 n = f64_of (of_nat (unat n))"

text \<open>\<open>as u64\<close>: truncation, saturating, NaN to zero.\<close>

definition f_as_u64 :: "f64 \<Rightarrow> nat" where
  "f_as_u64 x =
     (case x of
        NaN \<Rightarrow> 0
      | NInf \<Rightarrow> 0
      | PInf \<Rightarrow> 2 ^ 64 - 1
      | Fin r \<Rightarrow> min (nat \<lfloor>r\<rfloor>) (2 ^ 64 - 1))"

text \<open>The loop of \<open>powi\<close> for a non-negative exponent.\<close>

function powi_loop :: "f64 \<Rightarrow> nat \<Rightarrow> f64 \<Rightarrow> f64" where
  "powi_loop a b r =
     (let r' = (if odd b then f_mul r a else r)
      in if b div 2 = 0 then r' else powi_loop (f_mul a a) (b div 2) r')"
  by pat_completeness auto
termination
  by (relation "measure (\<lambda>(a, b, r). b)") auto

declare powi_loop.simps [simp del]

definition f_powi :: "f64 \<Rightarrow> nat \<Rightarrow> f64" where
  "f_powi a n = powi_loop a n (Fin 1)"

section \<open>Rounding to an integer\<close>

lemma rhe_cases: "round_half_even x = \<lfloor>x\<rfloor> \<or> round_half_even x = \<lfloor>x\<rfloor> + 1"
  by (simp add: round_half_even_def Let_def)

lemma rhe_of_int [simp]: "round_half_even (of_int n) = n"
  by (simp add: round_half_even_def)

lemma rhe_error: "\<bar>of_int (round_half_even x) - x\<bar> \<le> 1 / 2"
  using of_int_floor_le [of x] floor_correct [of x]
  by (simp add: round_half_even_def Let_def)

lemma rhe_mono: "x \<le> y \<Longrightarrow> round_half_even x \<le> round_half_even y"
proof (cases "\<lfloor>x\<rfloor> = \<lfloor>y\<rfloor>")
  case True
  then show "x \<le> y \<Longrightarrow> ?thesis" by (simp add: round_half_even_def Let_def)
next
  case False
  assume "x \<le> y"
  then have "\<lfloor>x\<rfloor> + 1 \<le> \<lfloor>y\<rfloor>" using False floor_mono [of x y] by simp
  then show ?thesis using rhe_cases [of x] rhe_cases [of y] by linarith
qed

lemma rhe_minus: "round_half_even (- x) = - round_half_even x"
proof (cases "x = of_int \<lfloor>x\<rfloor>")
  case True
  then show ?thesis by (metis of_int_minus rhe_of_int)
next
  case False
  have lt: "of_int \<lfloor>x\<rfloor> < x" "x < of_int \<lfloor>x\<rfloor> + 1"
    using False of_int_floor_le [of x] floor_correct [of x] by linarith+
  then have fl: "\<lfloor>- x\<rfloor> = - \<lfloor>x\<rfloor> - 1" by (intro floor_unique) simp_all
  show ?thesis
    using lt unfolding round_half_even_def Let_def fl by (auto simp: field_simps)
qed

section \<open>Rounding to binary64\<close>

abbreviation p2 :: "int \<Rightarrow> rat" where
  "p2 e \<equiv> 2 powi e"

lemma p2_mono: "i \<le> j \<Longrightarrow> p2 i \<le> p2 j"
  by (simp add: power_int_increasing)

lemma p2_nat: "0 \<le> e \<Longrightarrow> p2 e = of_int (2 ^ nat e)"
  by (simp add: power_int_def)

lemma p2_div_int: "e \<le> f \<Longrightarrow> p2 f / p2 e = of_int (2 ^ nat (f - e))"
  by (simp add: power_int_diff [symmetric] p2_nat)

lemma binade_bounds:
  assumes "0 < x"
  shows "p2 (binade x) \<le> x \<and> x < p2 (binade x + 1)"
proof (cases "1 \<le> x")
  case True
  let ?n = "\<lfloor>x\<rfloor>"
  have n: "0 < ?n" using True by simp
  have L: "0 < bitlen ?n" using n bitlen_eq_zero_iff [of ?n] bitlen_nonneg [of ?n] by linarith
  have "2 ^ nat (bitlen ?n - 1) \<le> ?n" "?n < 2 ^ nat (bitlen ?n)"
    using bitlen_bounds [OF n] by simp_all
  then have "of_int (2 ^ nat (bitlen ?n - 1)) \<le> x" "x < of_int (2 ^ nat (bitlen ?n))"
    by (simp_all only: le_floor_iff floor_less_iff)
  then show ?thesis using True L by (simp add: binade_def p2_nat)
next
  case False
  let ?m = "\<lceil>1 / x\<rceil> - 1" and ?L = "bitlen (\<lceil>1 / x\<rceil> - 1)"
  have "1 < 1 / x" using False assms by simp
  then have m: "0 < ?m" by (simp add: less_ceiling_iff)
  have L: "0 < ?L" using m bitlen_eq_zero_iff [of ?m] bitlen_nonneg [of ?m] by linarith
  have "?m < 2 ^ nat ?L" "2 ^ nat (?L - 1) \<le> ?m" using bitlen_bounds [OF m] by simp_all
  then have "\<lceil>1 / x\<rceil> \<le> 2 ^ nat ?L" "2 ^ nat (?L - 1) < \<lceil>1 / x\<rceil>" by simp_all
  then have "1 / x \<le> of_int (2 ^ nat ?L)" "of_int (2 ^ nat (?L - 1)) < 1 / x"
    by (simp_all only: ceiling_le_iff less_ceiling_iff)
  then have "1 / x \<le> p2 ?L" "p2 (?L - 1) < 1 / x" using L by (simp_all add: p2_nat)
  then have "1 / p2 ?L \<le> x" "x < 1 / p2 (?L - 1)" using assms by (simp_all add: field_simps)
  moreover have "p2 (- ?L) = 1 / p2 ?L" "p2 (1 - ?L) = 1 / p2 (?L - 1)"
    by (simp_all add: power_int_minus power_int_diff field_simps)
  ultimately show ?thesis using False by (simp add: binade_def)
qed

lemma binade_mono: "0 < x \<Longrightarrow> x \<le> y \<Longrightarrow> binade x \<le> binade y"
proof -
  assume "0 < x" "x \<le> y"
  then have "p2 (binade x) < p2 (binade y + 1)"
    using binade_bounds [of x] binade_bounds [of y] by linarith
  then show ?thesis using p2_mono [of "binade y + 1" "binade x"] by linarith
qed

lemma round64_pos: "0 < x \<Longrightarrow> round64 x = of_int (round_half_even (x / p2 (ulp_exp x))) * p2 (ulp_exp x)"
  by (simp add: round64_def Let_def)

lemma round64_0 [simp]: "round64 0 = 0"
  by (simp add: round64_def)

lemma round64_minus: "round64 (- x) = - round64 x"
  by (simp add: round64_def Let_def rhe_minus)

lemma round64_bound_above:
  assumes "0 < x" and "x \<le> p2 f" and "ulp_exp x \<le> f"
  shows "round64 x \<le> p2 f"
proof -
  let ?q = "p2 (ulp_exp x)"
  have "round_half_even (x / ?q) \<le> round_half_even (p2 f / ?q)"
    using assms(2) by (intro rhe_mono divide_right_mono) simp_all
  also have "\<dots> = 2 ^ nat (f - ulp_exp x)"
    unfolding p2_div_int [OF assms(3)] by (rule rhe_of_int)
  finally have "of_int (round_half_even (x / ?q)) \<le> p2 f / ?q"
    unfolding p2_div_int [OF assms(3)] by (simp only: of_int_le_iff)
  then show ?thesis using assms(1) by (simp add: round64_pos field_simps)
qed

lemma round64_bound_below:
  assumes "0 < x" and "p2 f \<le> x" and "ulp_exp x \<le> f"
  shows "p2 f \<le> round64 x"
proof -
  let ?q = "p2 (ulp_exp x)"
  have "2 ^ nat (f - ulp_exp x) = round_half_even (p2 f / ?q)"
    unfolding p2_div_int [OF assms(3)] by (rule rhe_of_int [symmetric])
  also have "\<dots> \<le> round_half_even (x / ?q)"
    using assms(2) by (intro rhe_mono divide_right_mono) simp_all
  finally have "p2 f / ?q \<le> of_int (round_half_even (x / ?q))"
    unfolding p2_div_int [OF assms(3)] by (simp only: of_int_le_iff)
  then show ?thesis using assms(1) by (simp add: round64_pos field_simps)
qed

lemma round64_mono_pos:
  assumes "0 < x" and "x \<le> y"
  shows "round64 x \<le> round64 y"
proof (cases "ulp_exp x = ulp_exp y")
  case True
  have "0 < y" using assms by simp
  moreover have "round_half_even (x / p2 (ulp_exp y)) \<le> round_half_even (y / p2 (ulp_exp y))"
    using assms by (intro rhe_mono divide_right_mono) simp_all
  ultimately show ?thesis using True assms by (simp add: round64_pos mult_right_mono)
next
  case False
  have y: "0 < y" using assms by simp
  from False binade_mono [OF assms] have b: "binade x < binade y" "ulp_exp x \<le> binade y"
    "ulp_exp y \<le> binade y"
    by (auto simp: ulp_exp_def max_def split: if_splits)
  have "x \<le> p2 (binade y)"
    using binade_bounds [OF assms(1)] p2_mono [of "binade x + 1" "binade y"] b(1) by linarith
  then have "round64 x \<le> p2 (binade y)" using round64_bound_above assms(1) b(2) by blast
  also have "\<dots> \<le> round64 y" using round64_bound_below y b(3) binade_bounds [OF y] by blast
  finally show ?thesis .
qed

lemma round64_nonneg: "0 \<le> x \<Longrightarrow> 0 \<le> round64 x"
proof (cases "x = 0")
  case False
  assume "0 \<le> x"
  with False have "0 < x" by simp
  moreover have "round_half_even 0 \<le> round_half_even (x / p2 (ulp_exp x))"
    using \<open>0 < x\<close> by (intro rhe_mono) simp
  ultimately show ?thesis using rhe_of_int [of 0] by (simp add: round64_pos)
qed simp

lemma round64_mono: "x \<le> y \<Longrightarrow> round64 x \<le> round64 y"
proof -
  assume le: "x \<le> y"
  consider "0 < x" | "x \<le> 0" "0 \<le> y" | "y < 0" by linarith
  then show ?thesis
  proof cases
    case 1
    then show ?thesis using round64_mono_pos le by simp
  next
    case 2
    then have "0 \<le> round64 (- x)" "0 \<le> round64 y" by (simp_all only: round64_nonneg neg_0_le_iff_le)
    then show ?thesis by (simp add: round64_minus)
  next
    case 3
    then have "round64 (- y) \<le> round64 (- x)" using le by (intro round64_mono_pos) simp_all
    then show ?thesis by (simp add: round64_minus)
  qed
qed

text \<open>A multiple of its own last place is a value of the format.\<close>

lemma round64_exact:
  assumes "x = of_int k * p2 e" and "x \<noteq> 0 \<Longrightarrow> ulp_exp \<bar>x\<bar> \<le> e"
  shows "round64 x = x"
proof (cases "x = 0")
  case False
  let ?q = "p2 (ulp_exp \<bar>x\<bar>)"
  have "x / ?q = of_int (k * 2 ^ nat (e - ulp_exp \<bar>x\<bar>))"
    using assms p2_div_int [OF assms(2) [OF False]] by (simp add: divide_simps)
  then have "of_int (round_half_even (x / ?q)) = x / ?q" by (simp only: rhe_of_int)
  then show ?thesis using False by (simp add: round64_def Let_def)
qed simp

lemma round64_int:
  assumes "\<bar>n\<bar> < 2 ^ 53"
  shows "round64 (of_int n) = of_int n"
proof (rule round64_exact [where k = n and e = 0])
  assume "(of_int n :: rat) \<noteq> 0"
  then have pos: "(0 :: rat) < \<bar>of_int n\<bar>" by simp
  have "\<bar>of_int n :: rat\<bar> < of_int (2 ^ 53)"
    using assms by (simp only: of_int_abs [symmetric] of_int_less_iff)
  then have "p2 (binade \<bar>of_int n\<bar>) < p2 53"
    using binade_bounds [OF pos] by (simp add: p2_nat)
  then have "binade \<bar>of_int n\<bar> < 53"
    using p2_mono [of 53 "binade \<bar>of_int n\<bar>"] by linarith
  then show "ulp_exp \<bar>of_int n\<bar> \<le> 0" by (simp add: ulp_exp_def)
qed simp

lemma round64_unit_error:
  assumes "0 \<le> x" and "x \<le> 1"
  shows "\<bar>round64 x - x\<bar> \<le> p2 (- 54)"
proof (cases "0 < x \<and> x < 1")
  case True
  then have "p2 (binade x) < p2 0" using binade_bounds [of x] by simp
  then have "binade x < 0" using p2_mono [of 0 "binade x"] by linarith
  then have e: "ulp_exp x \<le> - 53" by (simp add: ulp_exp_def)
  let ?q = "p2 (ulp_exp x)"
  have "round64 x - x = (of_int (round_half_even (x / ?q)) - x / ?q) * ?q"
    using True by (simp add: round64_pos left_diff_distrib)
  then have "\<bar>round64 x - x\<bar> = \<bar>of_int (round_half_even (x / ?q)) - x / ?q\<bar> * ?q"
    by (simp add: abs_mult)
  also have "\<dots> \<le> 1 / 2 * ?q" by (intro mult_right_mono rhe_error) simp
  also have "1 / 2 * ?q \<le> 1 / 2 * p2 (- 53)" using p2_mono [OF e] by simp
  also have "\<dots> = p2 (- 54)" by (simp add: power_int_minus)
  finally show ?thesis .
next
  case False
  then have "x = 0 \<or> x = 1" using assms by auto
  then show ?thesis using round64_int [of 1] by auto
qed
section \<open>What the clients rely on\<close>

locale rounding =
  fixes rnd :: "rat \<Rightarrow> rat"
  assumes rnd_mono: "x \<le> y \<Longrightarrow> rnd x \<le> rnd y"
    and rnd_int: "\<bar>n\<bar> < 2 ^ 53 \<Longrightarrow> rnd (of_int n) = of_int n"
    and rnd_unit_error: "0 \<le> x \<Longrightarrow> x \<le> 1 \<Longrightarrow> \<bar>rnd x - x\<bar> \<le> p2 (- 54)"
    and rnd_after_one: "rnd (1 + p2 (- 53)) = 1"
begin

lemma rnd_nonneg: "0 \<le> x \<Longrightarrow> 0 \<le> rnd x"
  using rnd_mono [of 0 x] rnd_int [of 0] by simp

lemma rnd_le_int: "x \<le> of_int n \<Longrightarrow> \<bar>n\<bar> < 2 ^ 53 \<Longrightarrow> rnd x \<le> of_int n"
  using rnd_mono [of x "of_int n"] rnd_int [of n] by simp

text \<open>A convex combination of one and a unit value, computed with rounding, stays in the unit interval.\<close>

lemma mixed_unit:
  assumes "0 \<le> fr" and "fr \<le> 1" and "0 \<le> u" and "u \<le> 1"
  shows "0 \<le> rnd (rnd (1 - fr) + rnd (fr * u))" and "rnd (rnd (1 - fr) + rnd (fr * u)) \<le> 1"
proof -
  have le: "fr * u \<le> fr" using assms by (simp add: mult_left_le)
  have pos: "0 \<le> rnd (1 - fr)" "0 \<le> rnd (fr * u)" using assms by (simp_all add: rnd_nonneg)
  then show "0 \<le> rnd (rnd (1 - fr) + rnd (fr * u))" by (simp add: rnd_nonneg)
  have "rnd (1 - fr) \<le> 1 - fr + p2 (- 54)" using rnd_unit_error [of "1 - fr"] assms by linarith
  moreover have "rnd (fr * u) \<le> fr + p2 (- 54)"
    using rnd_mono [OF le] rnd_unit_error [of fr] assms by linarith
  moreover have "p2 (- 54) + p2 (- 54) = p2 (- 53)" by (simp add: power_int_minus)
  ultimately have "rnd (1 - fr) + rnd (fr * u) \<le> 1 + p2 (- 53)" by linarith
  then show "rnd (rnd (1 - fr) + rnd (fr * u)) \<le> 1" using rnd_mono rnd_after_one by metis
qed

end

lemma round64_after_one: "round64 (1 + p2 (- 53)) = 1"
  by code_simp

interpretation r64: rounding round64
  by unfold_locales (rule round64_mono round64_int round64_unit_error round64_after_one; assumption)+

text \<open>A finite result whose exact value lies between two small integers.\<close>

lemma f64_of_range:
  assumes "of_int lo \<le> x" and "x \<le> of_int hi" and "\<bar>lo\<bar> < 2 ^ 53" and "\<bar>hi\<bar> < 2 ^ 53"
  shows "f64_of x = Fin (round64 x) \<and> of_int lo \<le> round64 x \<and> round64 x \<le> of_int hi"
proof -
  have "of_int lo \<le> round64 x" "round64 x \<le> of_int hi"
    using round64_mono [OF assms(1)] round64_mono [OF assms(2)] round64_int assms(3,4) by simp_all
  moreover have "(of_int hi :: rat) < of_int (2 ^ 1024)" "- of_int (2 ^ 1024) < (of_int lo :: rat)"
    using assms(3,4) by (simp_all only: of_int_less_iff of_int_minus [symmetric]) simp_all
  ultimately show ?thesis by (simp add: f64_of_def Let_def)
qed

end
