(* ===== verification/Knobs.thy ===== *)
theory Knobs
  imports Wire_Types F64
begin

unbundle bit_operations_syntax

text \<open>
  The tunable values, \<open>src/rust/src/build/knobs.rs\<close>, and the reconnect backoff computed from
  them, \<open>next_backoff\<close> in \<open>src/rust/src/conn/managed_connection/mod.rs\<close> with the jitter source of
  \<open>src/rust/src/jitter/mod.rs\<close>. Atomic cells are fields of the record; the optional attempt
  budget is kept as the 64 bits of its cell.
\<close>

section \<open>The optional counter cell\<close>

definition OPT_PRESENT :: u64 where
  "OPT_PRESENT = push_bit 32 1"

definition OPT_VALUE_MASK :: u64 where
  "OPT_VALUE_MASK = 0xFFFFFFFF"

definition opt_encode :: "u32 option \<Rightarrow> u64" where
  "opt_encode v = (case v of None \<Rightarrow> 0 | Some n \<Rightarrow> OPT_PRESENT OR ucast n)"

definition opt_decode :: "u64 \<Rightarrow> u32 option" where
  "opt_decode bits =
     (if bits AND OPT_PRESENT \<noteq> 0 then Some (ucast (bits AND OPT_VALUE_MASK)) else None)"

section \<open>Names and values\<close>

datatype knob_value =
    KU32 u32
  | KOptU32 "u32 option"
  | KUsize nat
  | KF64 f64
  | KBool bool
  | KStr string

datatype knob_name =
    BackoffBaseMs
  | BackoffMaxMs
  | BackoffJitter
  | BackoffFactor
  | ReconnectAttempts
  | WsOrderResponseDeadlineMs
  | StalenessWindowMs
  | SubscribeAckAttempts
  | SubscribeAckTimeoutMs
  | MaxAuthHandshakeFailures
  | CloseTimeoutMs
  | UpgradeTimeoutMs
  | ConnectionRateBudget
  | ConnectionRateWindowSecs
  | PreferRestForOrders
  | SlowCallbackThresholdMs
  | RequestTimeoutMs
  | RestRetryMaxAttempts
  | RestRetryBaseMs
  | RestRetryMaxMs
  | RestRetryFactor
  | NonceRecovery
  | RateLimitApiWarningPct
  | RateLimitTradingWarningPct
  | RateLimitTradingScopeCap
  | ClOrdIdIndexCap
  | CallerToIoCapacity
  | IoToDispatchCapacity
  | RestBaseUrl
  | WsPublicUrl
  | WsAuthUrl

fun knob_str :: "knob_name \<Rightarrow> string" where
  "knob_str BackoffBaseMs = ''backoff_base_ms''"
| "knob_str BackoffMaxMs = ''backoff_max_ms''"
| "knob_str BackoffJitter = ''backoff_jitter''"
| "knob_str BackoffFactor = ''backoff_factor''"
| "knob_str ReconnectAttempts = ''reconnect_attempts''"
| "knob_str WsOrderResponseDeadlineMs = ''ws_order_response_deadline_ms''"
| "knob_str StalenessWindowMs = ''staleness_window_ms''"
| "knob_str SubscribeAckAttempts = ''subscribe_ack_attempts''"
| "knob_str SubscribeAckTimeoutMs = ''subscribe_ack_timeout_ms''"
| "knob_str MaxAuthHandshakeFailures = ''max_auth_handshake_failures''"
| "knob_str CloseTimeoutMs = ''close_timeout_ms''"
| "knob_str UpgradeTimeoutMs = ''upgrade_timeout_ms''"
| "knob_str ConnectionRateBudget = ''connection_rate_budget''"
| "knob_str ConnectionRateWindowSecs = ''connection_rate_window_secs''"
| "knob_str PreferRestForOrders = ''prefer_rest_for_orders''"
| "knob_str SlowCallbackThresholdMs = ''slow_callback_threshold_ms''"
| "knob_str RequestTimeoutMs = ''request_timeout_ms''"
| "knob_str RestRetryMaxAttempts = ''rest_retry_max_attempts''"
| "knob_str RestRetryBaseMs = ''rest_retry_base_ms''"
| "knob_str RestRetryMaxMs = ''rest_retry_max_ms''"
| "knob_str RestRetryFactor = ''rest_retry_factor''"
| "knob_str NonceRecovery = ''nonce_recovery''"
| "knob_str RateLimitApiWarningPct = ''rate_limit_api_warning_pct''"
| "knob_str RateLimitTradingWarningPct = ''rate_limit_trading_warning_pct''"
| "knob_str RateLimitTradingScopeCap = ''rate_limit_trading_scope_cap''"
| "knob_str ClOrdIdIndexCap = ''cl_ord_id_index_cap''"
| "knob_str CallerToIoCapacity = ''caller_to_io_capacity''"
| "knob_str IoToDispatchCapacity = ''io_to_dispatch_capacity''"
| "knob_str RestBaseUrl = ''rest_base_url''"
| "knob_str WsPublicUrl = ''ws_public_url''"
| "knob_str WsAuthUrl = ''ws_auth_url''"

definition all_knobs :: "knob_name list" where
  "all_knobs =
     [BackoffBaseMs, BackoffMaxMs, BackoffJitter, BackoffFactor,
      ReconnectAttempts, WsOrderResponseDeadlineMs, StalenessWindowMs, SubscribeAckAttempts,
      SubscribeAckTimeoutMs, MaxAuthHandshakeFailures, CloseTimeoutMs, UpgradeTimeoutMs,
      ConnectionRateBudget, ConnectionRateWindowSecs, PreferRestForOrders, SlowCallbackThresholdMs,
      RequestTimeoutMs, RestRetryMaxAttempts, RestRetryBaseMs, RestRetryMaxMs,
      RestRetryFactor, NonceRecovery, RateLimitApiWarningPct, RateLimitTradingWarningPct,
      RateLimitTradingScopeCap, ClOrdIdIndexCap, CallerToIoCapacity, IoToDispatchCapacity,
      RestBaseUrl, WsPublicUrl, WsAuthUrl]"

definition knob_from_str :: "string \<Rightarrow> knob_name option" where
  "knob_from_str s = find (\<lambda>n. knob_str n = s) all_knobs"

definition is_runtime_mutable :: "knob_name \<Rightarrow> bool" where
  "is_runtime_mutable n \<longleftrightarrow>
     n \<in> {ReconnectAttempts, SubscribeAckAttempts, SubscribeAckTimeoutMs, MaxAuthHandshakeFailures,
          SlowCallbackThresholdMs, RateLimitApiWarningPct, RateLimitTradingWarningPct}"

definition is_construction_only :: "knob_name \<Rightarrow> bool" where
  "is_construction_only n \<longleftrightarrow> \<not> is_runtime_mutable n"

definition is_string_knob :: "knob_name \<Rightarrow> bool" where
  "is_string_knob n \<longleftrightarrow> n \<in> {RestBaseUrl, WsPublicUrl, WsAuthUrl}"

section \<open>The record\<close>

record knobs =
  k_backoff_base_ms :: u32
  k_backoff_max_ms :: u32
  k_backoff_jitter :: f64
  k_backoff_factor :: f64
  k_reconnect_attempts :: u64
  k_staleness_window_ms :: u32
  k_subscribe_ack_attempts :: u32
  k_subscribe_ack_timeout_ms :: u32
  k_max_auth_handshake_failures :: u32
  k_close_timeout_ms :: u32
  k_upgrade_timeout_ms :: u32
  k_connection_rate_budget :: u32
  k_connection_rate_window_secs :: u32
  k_slow_callback_threshold_ms :: u32
  k_ws_order_response_deadline_ms :: "u32 option"
  k_prefer_rest_for_orders :: bool
  k_request_timeout_ms :: u32
  k_rest_retry_max_attempts :: u32
  k_rest_retry_base_ms :: u32
  k_rest_retry_max_ms :: u32
  k_rest_retry_factor :: f64
  k_nonce_recovery :: bool
  k_rate_limit_api_warning_pct :: f64
  k_rate_limit_trading_warning_pct :: f64
  k_rate_limit_trading_scope_cap :: nat
  k_cl_ord_id_index_cap :: nat
  k_caller_to_io_capacity :: u32
  k_io_to_dispatch_capacity :: u32
  k_rest_base_url :: string
  k_ws_public_url :: string
  k_ws_auth_url :: string

definition knobs_defaults :: knobs where
  "knobs_defaults =
     \<lparr>k_backoff_base_ms = 500,
      k_backoff_max_ms = 30000,
      k_backoff_jitter = Fin 1,
      k_backoff_factor = Fin 2,
      k_reconnect_attempts = opt_encode None,
      k_staleness_window_ms = 30000,
      k_subscribe_ack_attempts = 3,
      k_subscribe_ack_timeout_ms = 5000,
      k_max_auth_handshake_failures = 3,
      k_close_timeout_ms = 2000,
      k_upgrade_timeout_ms = 10000,
      k_connection_rate_budget = 120,
      k_connection_rate_window_secs = 600,
      k_slow_callback_threshold_ms = 50,
      k_ws_order_response_deadline_ms = None,
      k_prefer_rest_for_orders = False,
      k_request_timeout_ms = 30000,
      k_rest_retry_max_attempts = 3,
      k_rest_retry_base_ms = 500,
      k_rest_retry_max_ms = 30000,
      k_rest_retry_factor = Fin 2,
      k_nonce_recovery = False,
      k_rate_limit_api_warning_pct = f64_of (8 / 10),
      k_rate_limit_trading_warning_pct = f64_of (8 / 10),
      k_rate_limit_trading_scope_cap = 256,
      k_cl_ord_id_index_cap = 1024,
      k_caller_to_io_capacity = 2048,
      k_io_to_dispatch_capacity = 8192,
      k_rest_base_url = ''https://api.kraken.com'',
      k_ws_public_url = as_wire_url Public,
      k_ws_auth_url = as_wire_url Auth\<rparr>"

fun snapshot_knob :: "knobs \<Rightarrow> knob_name \<Rightarrow> knob_value" where
  "snapshot_knob k BackoffBaseMs = KU32 (k_backoff_base_ms k)"
| "snapshot_knob k BackoffMaxMs = KU32 (k_backoff_max_ms k)"
| "snapshot_knob k BackoffJitter = KF64 (k_backoff_jitter k)"
| "snapshot_knob k BackoffFactor = KF64 (k_backoff_factor k)"
| "snapshot_knob k ReconnectAttempts = KOptU32 (opt_decode (k_reconnect_attempts k))"
| "snapshot_knob k WsOrderResponseDeadlineMs = KOptU32 (k_ws_order_response_deadline_ms k)"
| "snapshot_knob k StalenessWindowMs = KU32 (k_staleness_window_ms k)"
| "snapshot_knob k SubscribeAckAttempts = KU32 (k_subscribe_ack_attempts k)"
| "snapshot_knob k SubscribeAckTimeoutMs = KU32 (k_subscribe_ack_timeout_ms k)"
| "snapshot_knob k MaxAuthHandshakeFailures = KU32 (k_max_auth_handshake_failures k)"
| "snapshot_knob k CloseTimeoutMs = KU32 (k_close_timeout_ms k)"
| "snapshot_knob k UpgradeTimeoutMs = KU32 (k_upgrade_timeout_ms k)"
| "snapshot_knob k ConnectionRateBudget = KU32 (k_connection_rate_budget k)"
| "snapshot_knob k ConnectionRateWindowSecs = KU32 (k_connection_rate_window_secs k)"
| "snapshot_knob k PreferRestForOrders = KBool (k_prefer_rest_for_orders k)"
| "snapshot_knob k SlowCallbackThresholdMs = KU32 (k_slow_callback_threshold_ms k)"
| "snapshot_knob k RequestTimeoutMs = KU32 (k_request_timeout_ms k)"
| "snapshot_knob k RestRetryMaxAttempts = KU32 (k_rest_retry_max_attempts k)"
| "snapshot_knob k RestRetryBaseMs = KU32 (k_rest_retry_base_ms k)"
| "snapshot_knob k RestRetryMaxMs = KU32 (k_rest_retry_max_ms k)"
| "snapshot_knob k RestRetryFactor = KF64 (k_rest_retry_factor k)"
| "snapshot_knob k NonceRecovery = KBool (k_nonce_recovery k)"
| "snapshot_knob k RateLimitApiWarningPct = KF64 (k_rate_limit_api_warning_pct k)"
| "snapshot_knob k RateLimitTradingWarningPct = KF64 (k_rate_limit_trading_warning_pct k)"
| "snapshot_knob k RateLimitTradingScopeCap = KUsize (k_rate_limit_trading_scope_cap k)"
| "snapshot_knob k ClOrdIdIndexCap = KUsize (k_cl_ord_id_index_cap k)"
| "snapshot_knob k CallerToIoCapacity = KU32 (k_caller_to_io_capacity k)"
| "snapshot_knob k IoToDispatchCapacity = KU32 (k_io_to_dispatch_capacity k)"
| "snapshot_knob k RestBaseUrl = KStr (k_rest_base_url k)"
| "snapshot_knob k WsPublicUrl = KStr (k_ws_public_url k)"
| "snapshot_knob k WsAuthUrl = KStr (k_ws_auth_url k)"

definition close_timeout :: "knobs \<Rightarrow> duration" where
  "close_timeout k = millis (unat (k_close_timeout_ms k))"

definition upgrade_timeout :: "knobs \<Rightarrow> duration" where
  "upgrade_timeout k = millis (unat (k_upgrade_timeout_ms k))"

definition request_timeout :: "knobs \<Rightarrow> duration" where
  "request_timeout k = millis (unat (k_request_timeout_ms k))"

definition staleness_window :: "knobs \<Rightarrow> duration" where
  "staleness_window k = millis (unat (k_staleness_window_ms k))"

definition connection_rate_window :: "knobs \<Rightarrow> duration" where
  "connection_rate_window k = secs (unat (k_connection_rate_window_secs k))"

definition snapshot :: "knobs \<Rightarrow> string \<Rightarrow> knob_value option" where
  "snapshot k name = map_option (snapshot_knob k) (knob_from_str name)"

definition validate_pct :: "f64 \<Rightarrow> f64 option" where
  "validate_pct v = (if is_finite v \<and> f_le (Fin 0) v \<and> f_le v (Fin 1) then Some v else None)"

text \<open>The new knobs and the previous value; the cells are swapped.\<close>

definition set_runtime_knob :: "knob_name \<Rightarrow> knob_value \<Rightarrow> knobs \<Rightarrow> (knobs \<times> knob_value) option" where
  "set_runtime_knob knob v k =
     (case knob of
        ReconnectAttempts \<Rightarrow>
          (case v of
             KOptU32 x \<Rightarrow> Some (k\<lparr>k_reconnect_attempts := opt_encode x\<rparr>,
                                KOptU32 (opt_decode (k_reconnect_attempts k)))
           | _ \<Rightarrow> None)
      | SubscribeAckAttempts \<Rightarrow>
          (case v of KU32 x \<Rightarrow> Some (k\<lparr>k_subscribe_ack_attempts := x\<rparr>, KU32 (k_subscribe_ack_attempts k)) | _ \<Rightarrow> None)
      | SubscribeAckTimeoutMs \<Rightarrow>
          (case v of KU32 x \<Rightarrow> Some (k\<lparr>k_subscribe_ack_timeout_ms := x\<rparr>, KU32 (k_subscribe_ack_timeout_ms k)) | _ \<Rightarrow> None)
      | MaxAuthHandshakeFailures \<Rightarrow>
          (case v of KU32 x \<Rightarrow> Some (k\<lparr>k_max_auth_handshake_failures := x\<rparr>, KU32 (k_max_auth_handshake_failures k)) | _ \<Rightarrow> None)
      | SlowCallbackThresholdMs \<Rightarrow>
          (case v of KU32 x \<Rightarrow> Some (k\<lparr>k_slow_callback_threshold_ms := x\<rparr>, KU32 (k_slow_callback_threshold_ms k)) | _ \<Rightarrow> None)
      | RateLimitApiWarningPct \<Rightarrow>
          (case v of
             KF64 x \<Rightarrow>
               (case validate_pct x of
                  None \<Rightarrow> None
                | Some pct \<Rightarrow> Some (k\<lparr>k_rate_limit_api_warning_pct := pct\<rparr>, KF64 (k_rate_limit_api_warning_pct k)))
           | _ \<Rightarrow> None)
      | RateLimitTradingWarningPct \<Rightarrow>
          (case v of
             KF64 x \<Rightarrow>
               (case validate_pct x of
                  None \<Rightarrow> None
                | Some pct \<Rightarrow> Some (k\<lparr>k_rate_limit_trading_warning_pct := pct\<rparr>, KF64 (k_rate_limit_trading_warning_pct k)))
           | _ \<Rightarrow> None)
      | _ \<Rightarrow> None)"

definition set_runtime :: "string \<Rightarrow> knob_value \<Rightarrow> knobs \<Rightarrow> (knobs \<times> knob_value) option" where
  "set_runtime name v k =
     (case knob_from_str name of None \<Rightarrow> None | Some n \<Rightarrow> set_runtime_knob n v k)"

section \<open>Jitter and backoff\<close>

definition SPLITMIX_GAMMA :: u64 where
  "SPLITMIX_GAMMA = 0x9E3779B97F4A7C15"

definition mix :: "u64 \<Rightarrow> u64" where
  "mix s =
     (let z1 = s + SPLITMIX_GAMMA;
          z2 = (z1 XOR drop_bit 30 z1) * 0xBF58476D1CE4E5B9;
          z3 = (z2 XOR drop_bit 27 z2) * 0x94D049BB133111EB
      in z3 XOR drop_bit 31 z3)"

text \<open>One draw: the value and the next state of the source.\<close>

definition next_unit :: "u64 \<Rightarrow> f64 \<times> u64" where
  "next_unit st =
     (f_div (f_of_u64 (drop_bit 11 (mix st))) (f_of_u64 (push_bit 53 1)), st + SPLITMIX_GAMMA)"

definition backoff_delay_ms :: "knobs \<Rightarrow> u32 \<Rightarrow> f64 \<Rightarrow> f64" where
  "backoff_delay_ms k attempt unit =
     (let base_ms = f_of_u32 (k_backoff_base_ms k);
          max_ms = f_of_u32 (k_backoff_max_ms k);
          factor = (if is_finite (k_backoff_factor k) then f_max (k_backoff_factor k) (Fin 1) else Fin 2);
          n = (if unat attempt < 2 ^ 31 then unat attempt else 2 ^ 31 - 1);
          scaled = f_mul base_ms (f_powi factor n);
          capped = (if is_finite scaled then f_min scaled max_ms else max_ms);
          fr = (if is_finite (k_backoff_jitter k) then f_clamp (k_backoff_jitter k) (Fin 0) (Fin 1) else Fin 1)
      in f_mul capped (f_add (f_sub (Fin 1) fr) (f_mul fr unit)))"

definition next_backoff :: "knobs \<Rightarrow> u32 \<Rightarrow> f64 \<Rightarrow> duration" where
  "next_backoff k attempt unit = millis (f_as_u64 (backoff_delay_ms k attempt unit))"

section \<open>Lemmas\<close>

lemma opt_decode_encode [simp]: "opt_decode (opt_encode v) = v"
proof (cases v)
  case None
  then show ?thesis by (simp add: opt_decode_def opt_encode_def)
next
  case (Some n)
  have hi: "(OPT_PRESENT OR ucast n) AND OPT_PRESENT = OPT_PRESENT"
    by (rule bit_word_eqI) (auto simp: bit_simps)
  have lo: "ucast ((OPT_PRESENT OR ucast n) AND OPT_VALUE_MASK) = n"
  proof (rule bit_word_eqI)
    have m: "OPT_VALUE_MASK = mask 32" by (simp add: OPT_VALUE_MASK_def mask_eq_exp_minus_1)
    have P: "bit OPT_PRESENT i \<longleftrightarrow> i = 32" for i
      unfolding OPT_PRESENT_def bit_push_bit_iff bit_1_iff by auto
    fix i
    assume "i < LENGTH(32)"
    then show "bit (ucast ((OPT_PRESENT OR ucast n) AND OPT_VALUE_MASK) :: u32) i = bit n i"
      unfolding m by (auto simp: bit_simps P)
  qed
  have "OPT_PRESENT \<noteq> 0" by (simp add: OPT_PRESENT_def)
  with hi lo Some show ?thesis by (simp add: opt_decode_def opt_encode_def)
qed

lemma knob_str_distinct: "distinct (map knob_str all_knobs)"
  by code_simp

lemma all_knobs_complete: "n \<in> set all_knobs"
  by (cases n) (simp_all add: all_knobs_def)

lemma knob_from_str_iff: "knob_from_str s = Some n \<longleftrightarrow> knob_str n = s"
proof -
  have inj: "inj_on knob_str (set all_knobs)" using knob_str_distinct by (simp add: distinct_map)
  have "knob_from_str (knob_str n) = Some n" for n
  proof -
    have "knob_from_str (knob_str n) \<noteq> None"
      using all_knobs_complete [of n] by (auto simp: knob_from_str_def find_None_iff)
    then obtain m where "knob_from_str (knob_str n) = Some m" by blast
    moreover from this have "knob_str m = knob_str n"
      by (auto simp: knob_from_str_def find_Some_iff)
    ultimately show ?thesis using inj all_knobs_complete by (auto dest: inj_onD)
  qed
  moreover have "knob_from_str s = Some n \<Longrightarrow> knob_str n = s"
    by (auto simp: knob_from_str_def find_Some_iff)
  ultimately show ?thesis by blast
qed

lemma validate_pct_Some: "validate_pct v = Some w \<longleftrightarrow> w = v \<and> (\<exists>r. v = Fin r \<and> 0 \<le> r \<and> r \<le> 1)"
  by (cases v) (auto simp: validate_pct_def is_finite_def)

section \<open>Properties\<close>

text \<open>
  Setting a knob at run time behaves like a typed cell: it succeeds only on a
  runtime-mutable knob, with a value of the knob's own type (a warning threshold must lie in the
  unit interval); it returns the value a read gave before, a read afterwards gives the new
  value, and no other knob changes.
\<close>

lemma set_knob_reads_back:
  assumes "set_runtime_knob n v k = Some (k', old)"
  shows "is_runtime_mutable n \<and> old = snapshot_knob k n \<and> snapshot_knob k' n = v \<and>
    (\<forall>m. m \<noteq> n \<longrightarrow> snapshot_knob k' m = snapshot_knob k m)"
proof -
  have "snapshot_knob k' m = snapshot_knob k m" if "m \<noteq> n" for m
    using assms that
    by (cases n; cases v; clarsimp simp: set_runtime_knob_def split: option.splits; cases m; simp)
  moreover have "is_runtime_mutable n \<and> old = snapshot_knob k n \<and> snapshot_knob k' n = v"
    using assms
    by (cases n; cases v; clarsimp simp: set_runtime_knob_def is_runtime_mutable_def validate_pct_Some
        split: option.splits)
  ultimately show ?thesis by blast
qed

text \<open>
  Knob names are unambiguous: parsing a name gives a knob exactly when it is that
  knob's snake-case name, and the optional attempt budget survives its 64-bit encoding for
  every value, present or absent.
\<close>

lemma knob_names_round_trip:
  "(knob_from_str s = Some n \<longleftrightarrow> knob_str n = s) \<and> opt_decode (opt_encode v) = v"
  by (simp add: knob_from_str_iff)

text \<open>The delay is a rounded product of a capped base and a factor of the unit interval.\<close>

lemma round64_p53: "round64 9007199254740992 = 9007199254740992"
  by code_simp

lemma next_unit_range: "\<exists>u. fst (next_unit st) = Fin u \<and> 0 \<le> u \<and> u < 1"
proof -
  define n where "n = unat (drop_bit 11 (mix st))"
  have "unat (mix st) < 2 ^ 53 * 2 ^ 11" using unsigned_less [of "mix st", where 'a = nat] by simp
  then have "unat (mix st) div 2 ^ 11 < 2 ^ 53" by (rule less_mult_imp_div_less)
  moreover have "n = drop_bit 11 (unat (mix st))" unfolding n_def by (rule unat_drop_bit_eq)
  ultimately have n: "n < 2 ^ 53" by (simp add: drop_bit_eq_div)
  then have "f64_of (of_nat n) = Fin (of_nat n)"
    using f64_of_range [of 0 "of_nat n" "int n"] round64_int [of "int n"] by simp
  then have 1: "f_of_u64 (drop_bit 11 (mix st)) = Fin (of_nat n)"
    unfolding f_of_u64_def n_def [symmetric] .
  have "f64_of 9007199254740992 = Fin 9007199254740992"
    by (simp add: f64_of_def round64_p53)
  then have 2: "f_of_u64 (push_bit 53 1) = Fin 9007199254740992" by (simp add: f_of_u64_def)
  let ?x = "of_nat n / 9007199254740992 :: rat"
  have exact: "round64 ?x = ?x"
  proof (rule round64_exact [where k = "int n" and e = "- 53"])
    show "?x = of_int (int n) * p2 (- 53)" by (simp add: power_int_minus field_simps)
    assume "?x \<noteq> 0"
    then have pos: "0 < ?x" by simp
    have "(of_nat n :: rat) < of_nat (2 ^ 53)" using n by (simp only: of_nat_less_iff)
    then have "?x < p2 0" by simp
    then have "binade ?x < 0"
      using binade_bounds [OF pos] p2_mono [of 0 "binade ?x"] by linarith
    then show "ulp_exp \<bar>?x\<bar> \<le> - 53" using pos by (simp add: ulp_exp_def)
  qed
  have "(of_nat n :: rat) < of_nat (2 ^ 53)" using n by (simp only: of_nat_less_iff)
  then have "0 \<le> ?x" "?x < 1" by simp_all
  moreover have "f64_of ?x = Fin ?x" using f64_of_range [of 0 ?x 1] exact calculation by simp
  moreover have "fst (next_unit st) = f64_of ?x" using 1 2 by (simp add: next_unit_def f_div_def)
  ultimately show ?thesis by (intro exI [of _ ?x]) simp
qed

lemma unsigned_rat_nonneg [simp]: "(0 :: rat) \<le> unsigned (w :: u32)"
  by (metis of_nat_0_le_iff of_nat_unat)

definition f_nonneg :: "f64 \<Rightarrow> bool" where
  "f_nonneg x = (case x of Fin r \<Rightarrow> 0 \<le> r | NInf \<Rightarrow> False | _ \<Rightarrow> True)"

lemma f64_of_nonneg: "0 \<le> x \<Longrightarrow> f_nonneg (f64_of x)"
  using round64_nonneg [of x] by (simp add: f64_of_def Let_def f_nonneg_def)

lemma f_mul_nonneg: "f_nonneg x \<Longrightarrow> f_nonneg y \<Longrightarrow> f_nonneg (f_mul x y)"
  by (cases x; cases y) (auto simp: f_mul_def f64_of_nonneg f_nonneg_def f_inf_def f_sign_def
      intro!: f64_of_nonneg [unfolded f_nonneg_def])

lemma powi_loop_nonneg: "f_nonneg a \<Longrightarrow> f_nonneg r \<Longrightarrow> f_nonneg (powi_loop a b r)"
proof (induction a b r rule: powi_loop.induct)
  case (1 a b r)
  then show ?case by (subst powi_loop.simps) (auto simp: Let_def f_mul_nonneg)
qed

lemma scaled_backoff_nonneg:
  "f_nonneg (f_mul (f_of_u32 base) (f_powi (if is_finite g then f_max g (Fin 1) else Fin 2) n))"
proof -
  have "f_nonneg (if is_finite g then f_max g (Fin 1) else Fin 2)"
    by (cases g) (auto simp: is_finite_def f_max_def f_nonneg_def)
  then show ?thesis
    unfolding f_powi_def by (intro f_mul_nonneg powi_loop_nonneg) (simp_all add: f_of_u32_def f_nonneg_def)
qed

lemma capped_range:
  assumes "f_nonneg s"
  shows "\<exists>c. (if is_finite s then f_min s (f_of_u32 m) else f_of_u32 m) = Fin c \<and>
    0 \<le> c \<and> c \<le> of_nat (unat m)"
  using assms by (cases s) (auto simp: is_finite_def f_min_def f_of_u32_def f_nonneg_def)

lemma clamped_unit: "\<exists>f. (if is_finite j then f_clamp j (Fin 0) (Fin 1) else Fin 1) = Fin f \<and> 0 \<le> f \<and> f \<le> 1"
  by (cases j) (auto simp: is_finite_def f_clamp_def f_lt_def)

lemma jittered_range:
  assumes "0 \<le> c" and "c \<le> of_nat m" and "m < 2 ^ 53" and "0 \<le> f" and "f \<le> 1" and "0 \<le> u" and "u \<le> 1"
  shows "\<exists>d. f_mul (Fin c) (f_add (f_sub (Fin 1) (Fin f)) (f_mul (Fin f) (Fin u))) = Fin d \<and>
    0 \<le> d \<and> d \<le> of_nat m"
proof -
  have "f * u \<le> 1" using assms(4-7) by (simp add: mult_le_one)
  then have a: "f64_of (1 - f) = Fin (round64 (1 - f))" and b: "f64_of (f * u) = Fin (round64 (f * u))"
    and b1: "round64 (f * u) \<le> 1" and a1: "round64 (1 - f) \<le> 1"
    using f64_of_range [of 0 "1 - f" 1] f64_of_range [of 0 "f * u" 1] assms by simp_all
  let ?s = "round64 (round64 (1 - f) + round64 (f * u))"
  have s: "0 \<le> ?s" "?s \<le> 1" using r64.mixed_unit [of f u] assms by simp_all
  have sum: "f64_of (round64 (1 - f) + round64 (f * u)) = Fin ?s"
    using f64_of_range [of 0 "round64 (1 - f) + round64 (f * u)" 2] a1 b1 assms
    by (simp add: round64_nonneg)
  have "0 \<le> c * ?s" "c * ?s \<le> of_int (int m)"
    using s assms(1,2) mult_left_le [of ?s c] by simp_all
  then have "f64_of (c * ?s) = Fin (round64 (c * ?s)) \<and> 0 \<le> round64 (c * ?s) \<and> round64 (c * ?s) \<le> of_int (int m)"
    using f64_of_range [of 0 "c * ?s" "int m"] assms(3) by simp
  then show ?thesis using a b sum by (simp add: f_mul_def f_sub_def)
qed

text \<open>
  The reconnect delay never exceeds the configured ceiling: whatever the knobs are
  (a growth factor below one, infinite or not a number, a jitter fraction outside the unit
  interval), whatever the attempt number and whatever state the jitter source is in, the delay
  computed in floating point lies between zero and \<open>backoff_max_ms\<close>. The jitter drawn is a
  number of the half-open unit interval.
\<close>

lemma backoff_within_ceiling:
  "next_backoff k attempt (fst (next_unit st)) \<le> millis (unat (k_backoff_max_ms k)) \<and>
   (\<exists>u. fst (next_unit st) = Fin u \<and> 0 \<le> u \<and> u < 1)"
proof -
  obtain u where u: "fst (next_unit st) = Fin u" "0 \<le> u" "u < 1" using next_unit_range by blast
  define factor where "factor = (if is_finite (k_backoff_factor k) then f_max (k_backoff_factor k) (Fin 1) else Fin 2)"
  define n where "n = (if unat attempt < 2 ^ 31 then unat attempt else 2 ^ 31 - 1)"
  have "f_nonneg (f_mul (f_of_u32 (k_backoff_base_ms k)) (f_powi factor n))"
    unfolding factor_def by (rule scaled_backoff_nonneg)
  from capped_range [OF this, of "k_backoff_max_ms k"] obtain c where c: "0 \<le> c" "c \<le> of_nat (unat (k_backoff_max_ms k))"
    "(if is_finite (f_mul (f_of_u32 (k_backoff_base_ms k)) (f_powi factor n))
      then f_min (f_mul (f_of_u32 (k_backoff_base_ms k)) (f_powi factor n)) (f_of_u32 (k_backoff_max_ms k))
      else f_of_u32 (k_backoff_max_ms k)) = Fin c" by blast
  obtain f where f: "(if is_finite (k_backoff_jitter k) then f_clamp (k_backoff_jitter k) (Fin 0) (Fin 1) else Fin 1) = Fin f"
    "0 \<le> f" "f \<le> 1" using clamped_unit by blast
  have "unat (k_backoff_max_ms k) < 2 ^ 53"
    using unsigned_less [of "k_backoff_max_ms k", where 'a = nat] by simp
  from jittered_range [OF c(1,2) this f(2,3) u(2)] u(3) obtain d where
    d: "f_mul (Fin c) (f_add (f_sub (Fin 1) (Fin f)) (f_mul (Fin f) (Fin u))) = Fin d"
    "0 \<le> d" "d \<le> of_nat (unat (k_backoff_max_ms k))" by (auto simp: less_imp_le)
  have "backoff_delay_ms k attempt (Fin u) = Fin d"
    using c(3) f(1) d(1) unfolding backoff_delay_ms_def Let_def factor_def n_def by simp
  moreover have "nat \<lfloor>d\<rfloor> \<le> unat (k_backoff_max_ms k)" using d(2,3) by (simp add: nat_le_iff floor_le_iff)
  ultimately have "next_backoff k attempt (Fin u) \<le> millis (unat (k_backoff_max_ms k))"
    by (simp add: next_backoff_def f_as_u64_def min.coboundedI1)
  then show ?thesis using u by simp
qed

end
