(* ===== verification/Rate_Budget.thy ===== *)
theory Rate_Budget
  imports Prelude
begin

text \<open>
  The sliding-window limiter of connection attempts, \<open>src/rust/src/conn/rate_budget.rs\<close>. The queue
  of attempts is a list, oldest first; the mutex makes each call atomic, so a call is a function on
  the record.
\<close>

record connection_rate_throttled =
  t_attempts_used :: u32
  t_budget :: u32
  throttle_until :: instant

record connection_rate_budget =
  attempts :: "instant list"
  rb_window :: duration
  rb_budget :: u32

definition with_knobs :: "u32 \<Rightarrow> duration \<Rightarrow> connection_rate_budget" where
  "with_knobs n w = \<lparr>attempts = [], rb_window = w, rb_budget = n\<rparr>"

text \<open>The loop of \<open>prune\<close>; the cutoff is clamped at the epoch.\<close>

fun pop_before :: "instant \<Rightarrow> instant list \<Rightarrow> instant list" where
  "pop_before cutoff [] = []"
| "pop_before cutoff (front # rest) = (if front < cutoff then pop_before cutoff rest else front # rest)"

definition prune :: "instant \<Rightarrow> connection_rate_budget \<Rightarrow> connection_rate_budget" where
  "prune now b = b\<lparr>attempts := pop_before (now - rb_window b) (attempts b)\<rparr>"

definition try_consume :: "instant \<Rightarrow> connection_rate_budget \<Rightarrow>
    connection_rate_budget \<times> (connection_rate_throttled + unit)" where
  "try_consume now b =
     (let b1 = prune now b; record_it = (b1\<lparr>attempts := attempts b1 @ [now]\<rparr>, Inr ()) in
      if (word_of_nat (length (attempts b1)) :: u32) \<ge> rb_budget b1
      then (case attempts b1 of
              oldest # _ \<Rightarrow>
                (b1, Inl \<lparr>t_attempts_used = word_of_nat (length (attempts b1)), t_budget = rb_budget b1,
                          throttle_until = oldest + rb_window b1\<rparr>)
            | [] \<Rightarrow> record_it)
      else record_it)"

definition window_seconds :: "connection_rate_budget \<Rightarrow> u32" where
  "window_seconds b = word_of_nat (rb_window b div 1000000000)"

section \<open>Consults over time\<close>

text \<open>A sequence of consults; the second component lists the granted instants in order.\<close>

fun consume_all :: "instant list \<Rightarrow> connection_rate_budget \<Rightarrow> connection_rate_budget \<times> instant list" where
  "consume_all [] b = (b, [])"
| "consume_all (now # ts) b =
     (let (b1, r) = try_consume now b; (b2, granted) = consume_all ts b1
      in (b2, if r = Inr () then now # granted else granted))"

lemma pop_before_filter: "sorted xs \<Longrightarrow> pop_before c xs = filter (\<lambda>t. c \<le> t) xs"
proof (induction xs)
  case (Cons x xs)
  have "filter ((\<le>) c) xs = xs" if "c \<le> x"
    using that Cons.prems by (auto simp: filter_id_conv)
  with Cons show ?case by auto
qed simp

lemma try_consume_params [simp]:
  "rb_window (fst (try_consume now b)) = rb_window b"
  "rb_budget (fst (try_consume now b)) = rb_budget b"
  by (simp_all add: try_consume_def prune_def Let_def split: list.split)

text \<open>The state of the limiter after the grants \<open>acc\<close>, last consulted at \<open>t\<close>.\<close>

definition budget_inv :: "instant list \<Rightarrow> instant \<Rightarrow> connection_rate_budget \<Rightarrow> bool" where
  "budget_inv acc t b \<longleftrightarrow> sorted acc \<and> (\<forall>x \<in> set acc. x \<le> t) \<and>
     attempts b = filter (\<lambda>x. t - rb_window b \<le> x) acc \<and>
     (\<forall>s. length (filter (\<lambda>x. s - rb_window b \<le> x \<and> x \<le> s) acc) \<le> unat (rb_budget b))"

lemma pruned_attempts:
  assumes "budget_inv acc t b" and "t \<le> now"
  shows "attempts (prune now b) = filter (\<lambda>x. now - rb_window b \<le> x) acc"
proof -
  have "sorted (attempts b)" using assms(1) by (simp add: budget_inv_def sorted_wrt_filter)
  then have "attempts (prune now b) = filter (\<lambda>x. t - rb_window b \<le> x \<and> now - rb_window b \<le> x) acc"
    using assms(1) by (simp add: prune_def pop_before_filter budget_inv_def)
  also have "\<dots> = filter (\<lambda>x. now - rb_window b \<le> x) acc"
    using assms(2) by (intro filter_cong) auto
  finally show ?thesis .
qed

lemma window_count:
  assumes "budget_inv acc t b" and "t \<le> now"
  shows "length (attempts (prune now b)) \<le> unat (rb_budget b)"
proof -
  have "filter (\<lambda>x. now - rb_window b \<le> x) acc = filter (\<lambda>x. now - rb_window b \<le> x \<and> x \<le> now) acc"
    using assms by (intro filter_cong) (auto simp: budget_inv_def)
  with assms pruned_attempts [OF assms] show ?thesis by (simp add: budget_inv_def)
qed

lemma used_word:
  assumes "budget_inv acc t b" and "t \<le> now"
  shows "unat (word_of_nat (length (attempts (prune now b))) :: u32) = length (attempts (prune now b))"
proof -
  have "length (attempts (prune now b)) < 2 ^ 32"
    using window_count [OF assms] unsigned_less [of "rb_budget b", where 'a = nat] by simp
  then show ?thesis by (simp add: unsigned_of_nat take_bit_nat_eq_self)
qed

lemma try_consume_cases:
  assumes "budget_inv acc t b" and "t \<le> now" and "0 < rb_budget b"
  shows "try_consume now b =
    (let b1 = prune now b in
     if length (attempts b1) = unat (rb_budget b)
     then (b1, Inl \<lparr>t_attempts_used = rb_budget b, t_budget = rb_budget b,
                    throttle_until = hd (attempts b1) + rb_window b\<rparr>)
     else (b1\<lparr>attempts := attempts b1 @ [now]\<rparr>, Inr ()))"
proof -
  let ?n = "length (attempts (prune now b))"
  have full: "(word_of_nat ?n :: u32) \<ge> rb_budget b \<longleftrightarrow> ?n = unat (rb_budget b)"
    using window_count [OF assms(1,2)] used_word [OF assms(1,2)] by (auto simp: word_le_nat_alt)
  moreover have "?n = unat (rb_budget b) \<Longrightarrow> attempts (prune now b) \<noteq> []"
    using assms(3) by (auto simp: word_less_nat_alt)
  moreover have "?n = unat (rb_budget b) \<Longrightarrow> (word_of_nat ?n :: u32) = rb_budget b" by simp
  moreover have "rb_window (prune now b) = rb_window b" "rb_budget (prune now b) = rb_budget b"
    by (simp_all add: prune_def)
  ultimately show ?thesis
    unfolding try_consume_def Let_def by (auto split: list.split)
qed

lemma granted_count:
  assumes inv: "budget_inv acc t b" and "t \<le> now"
    and room: "length (filter (\<lambda>x. now - rb_window b \<le> x) acc) < unat (rb_budget b)"
  shows "length (filter (\<lambda>x. s - rb_window b \<le> x \<and> x \<le> s) (acc @ [now])) \<le> unat (rb_budget b)"
proof (cases "now \<le> s")
  case True
  have "length (filter (\<lambda>x. s - rb_window b \<le> x \<and> x \<le> s) acc)
      \<le> length (filter (\<lambda>x. now - rb_window b \<le> x) acc)"
    unfolding length_filter_conv_card using True by (intro card_mono) auto
  with room show ?thesis by simp
next
  case False
  then show ?thesis using inv by (simp add: budget_inv_def)
qed

lemma consult_inv:
  assumes inv: "budget_inv acc t b" and le: "t \<le> now" and pos: "0 < rb_budget b"
    and res: "try_consume now b = (b', r)"
  shows "budget_inv (if r = Inr () then acc @ [now] else acc) now b'"
proof -
  have sorted: "sorted acc" "\<forall>x \<in> set acc. x \<le> now" using inv le by (auto simp: budget_inv_def)
  note pr = pruned_attempts [OF inv le]
  show ?thesis
  proof (cases "length (attempts (prune now b)) = unat (rb_budget b)")
    case True
    then have "b' = prune now b" "r \<noteq> Inr ()"
      using res try_consume_cases [OF inv le pos] by (auto simp: Let_def)
    then show ?thesis using inv sorted pr by (simp add: budget_inv_def prune_def)
  next
    case False
    then have b': "b' = (prune now b)\<lparr>attempts := attempts (prune now b) @ [now]\<rparr>" "r = Inr ()"
      using res try_consume_cases [OF inv le pos] by (auto simp: Let_def)
    have "length (filter (\<lambda>x. now - rb_window b \<le> x) acc) < unat (rb_budget b)"
      using False window_count [OF inv le] pr by simp
    note grow = granted_count [OF inv le this]
    show ?thesis
      using sorted pr grow unfolding b' budget_inv_def by (auto simp: prune_def sorted_append)
  qed
qed

lemma consume_all_inv:
  assumes "sorted (t # ts)" and "budget_inv acc t b" and "0 < rb_budget b"
    and "consume_all ts b = (b', granted)"
  shows "\<exists>t'. budget_inv (acc @ granted) t' b' \<and> rb_window b' = rb_window b \<and> rb_budget b' = rb_budget b"
  using assms
proof (induction ts arbitrary: t acc b b' granted)
  case (Cons now ts)
  obtain b1 r where r: "try_consume now b = (b1, r)" by fastforce
  obtain b2 g where g: "consume_all ts b1 = (b2, g)" by fastforce
  have le: "t \<le> now" using Cons.prems(1) by simp
  have same: "rb_window b1 = rb_window b" "rb_budget b1 = rb_budget b"
    using try_consume_params [of now b] r by simp_all
  from consult_inv [OF Cons.prems(2) le Cons.prems(3) r] same Cons.prems g
    Cons.IH [of now "if r = Inr () then acc @ [now] else acc" b1 b2 g]
  show ?case using r by (auto simp: split: if_splits)
qed auto

lemma with_knobs_inv: "budget_inv [] 0 (with_knobs n w)"
  by (simp add: budget_inv_def with_knobs_def)

section \<open>Properties\<close>

text \<open>
  The connect budget is a hard cap: on a monotone clock, whatever connections consult
  the limiter and whenever they do, no window of the configured length ever contains more granted
  attempts than the budget.
\<close>

lemma budget_is_hard_cap:
  assumes "0 < n" and "sorted ts"
  shows "length (filter (\<lambda>x. s - w \<le> x \<and> x \<le> s) (snd (consume_all ts (with_knobs n w)))) \<le> unat n"
proof -
  obtain b' g where g: "consume_all ts (with_knobs n w) = (b', g)" by fastforce
  have "sorted (0 # ts)" using assms(2) by simp
  from consume_all_inv [OF this with_knobs_inv _ g] assms(1) obtain t' where
    "budget_inv g t' b'" "rb_window b' = w" "rb_budget b' = n" by (auto simp: with_knobs_def)
  then show ?thesis using g by (simp add: budget_inv_def)
qed



text \<open>
  The instant a rejection reports is itself still inside the window: a consult at exactly
  \<open>throttle_until\<close> is rejected again with the same instant.
\<close>

lemma throttle_until_still_throttled:
  "let b = (with_knobs 1 10)\<lparr>attempts := [1]\<rparr> in
   (\<exists>e. try_consume 5 b = (b, Inl e) \<and> throttle_until e = 11) \<and>
   (\<exists>e. try_consume 11 b = (b, Inl e) \<and> throttle_until e = 11)"
  by (simp add: try_consume_def prune_def with_knobs_def Let_def)

end
