(* ===== verification/Managed_Connection.thy ===== *)
theory Managed_Connection
  imports Subscription_Registry Knobs Rate_Budget
begin

text \<open>
  One WebSocket connection: its data and the helper methods of
  \<open>src/rust/src/conn/managed_connection/mod.rs\<close> and \<open>inner.rs\<close>.
  \<^item> The injected clock is a function from the number of readings taken so far to the instant read, so
    every reading of the source is one reading here, in the same order.
  \<^item> What the connection does to the outside (resolving a caller's future, publishing an event, opening
    a socket, sending a close frame) is appended to the field \<open>trace\<close>.
  \<^item> A socket is the number of the \<open>open_socket\<close> call that made it.
  \<^item> Texts the source builds with \<open>format!\<close> are kept as the values they format; the server's
    connection id likewise. The type of an event is determined by its payload and is left out.
\<close>

section \<open>Errors and events\<close>

datatype transport_error_kind =
    TcpConnectTimeout | TcpRefused | DnsFailure | TlsHandshakeFailure | SocketReset
  | RequestSentNoResponse | Ssl
  | CloseFrame u16 string
  | AbnormalClose string
  | HttpUpgradeRejected u16
  | HttpStatus u16
  | OtherTransport string

definition http_upgrade_status_transient :: "u16 \<Rightarrow> bool" where
  "http_upgrade_status_transient s \<longleftrightarrow> s \<in> {408, 409, 425, 429, 503, 504, 507}"

datatype auth_error =
    InvalidKey | InvalidSignature | InvalidNonce
  | AuthPermissionDenied "string option"
  | TemporaryLockout | AuthTokenStale | TokenRefreshFailed | AuthTokenRefreshTransient
  | AuthClientClosed
  | AuthUnknown string string

definition auth_retryable :: "auth_error \<Rightarrow> bool" where
  "auth_retryable e \<longleftrightarrow> e = AuthTokenStale \<or> e = AuthTokenRefreshTransient"

datatype auth_error_kind = BadCreds | PermissionDenied | TokenStale | Transient

datatype subscribe_error_kind = SubscribeRejected (kraken_code: string) (rejected_transient: bool)

datatype fsm_event =
    CallStartConnect u64
  | CallClose u64
  | CallForceReconnect u64
  | WireUpgradeOk "u64 option"
  | WireUpgradeFailed u16
  | WireConnectError transport_error_kind bool
  | WireCloseReceived u16 "string option"
  | WireAbnormalClose transport_error_kind
  | WireAuthHandshakeOk
  | WireOrderAuthOk
  | WireOrderAckTokenStale
  | WireAuthHandshakeFailed auth_error_kind
  | WireSubscribeAck channel_name "string option" bool
  | WireSubscribeFailed channel_name "string option" subscribe_error_kind
  | TimerBackoffElapsed
  | TimerStalenessElapsed
  | TimerUpgradeTimeout
  | TimerCloseTimeout
  | TimerSubscribeAckTimeout channel_name "string option"
  | TimerRateBudgetWindowAdvanced
  | TimerSubscribeResendDue channel_name "string option"
  | TimerBookReseedSnapshot channel_name "string option"
  | TimerTokenRefreshDue
  | BusTokenRefreshed u64
  | BusTokenRefreshFailed u64 auth_error

datatype ws_op = AddOrder | AmendOrder | CancelOrder | CancelAll | CancelAllOrdersAfter | BatchAdd

datatype ws_fail_reason = ConnectionLost | FailClientClosed

datatype connection_error =
    NotOpen | RequestInFlightWhenDropped | ConnClientClosed | LoopClosed | QueueFull | ResponseTimeout

datatype drain_cause = DrainInFlightDropped | DrainClientClosed

fun drain_resolve :: "drain_cause \<Rightarrow> connection_error \<times> ws_fail_reason" where
  "drain_resolve DrainInFlightDropped = (RequestInFlightWhenDropped, ConnectionLost)"
| "drain_resolve DrainClientClosed = (ConnClientClosed, FailClientClosed)"

record ws_response =
  r_req_id :: u64
  r_success :: bool
  r_result :: json
  r_error :: "string option"

record pending_request =
  p_req_id :: u64
  p_op :: ws_op
  p_sent_at :: instant

datatype closed_reason = ClientInitiated | Forced
datatype ack_source = AckServer | SocketDropped | CloseTimeout | NeverOpened
datatype non_transient_class = NtBadCreds | NtPermissionDenied | NtClientError | NtRetryCapExhausted

datatype transient_class =
    HttpTransient | ConnectError | UpgradeTimeout | AuthHandshakeTransient | ClosedDuringHandshake
  | SubscribeBudgetExhausted | TokenRefreshTransientClass

datatype failure_text =
    UpgradeFailedText u16
  | ConnectErrorText transport_error_kind
  | TokenStaleCapText u32
  | AuthFailedText string
  | PolicyDuringAuth u16
  | PolicyDuringResubscribe u16
  | PolicyText u16
  | AuthRefreshFailedText auth_error
  | AttemptBudgetText u32

datatype reason_text = WireReason string | SubscribeBudgetText sub_key

datatype event_payload =
    ConnectionConnectingEvent ws_url u32
  | ConnectionOpenEvent ws_url instant "u64 option"
  | ConnectionClosedEvent ws_url instant closed_reason ack_source "u64 option"
  | ConnectionReopenedEvent ws_url instant u32
  | ConnectionFailedEvent ws_url u32 failure_text bool "non_transient_class option"
  | ConnectionDroppedEvent ws_url instant "u16 option" "reason_text option"
  | ConnectionRateThrottledEvent ws_url u32 u32 u32 instant
  | ConnectionAttemptFailedEvent ws_url u32 transient_class "reason_text option" "u16 option"
      "u16 option" nat instant
  | WebsocketStaleEvent ws_url instant u32
  | AuthenticationFailedEvent ws_url non_transient_class "auth_error option"
  | SubscriptionTerminatedEvent channel_name "string option" termination_cause "string option" instant
  | WsRequestFailedEvent u64 ws_op ws_fail_reason

record event_envelope =
  env_version :: nat
  env_timestamp :: instant
  env_request_id :: "u64 option"
  env_payload :: event_payload

datatype effect =
    Resolved u64 "connection_error + ws_response"
  | Published event_envelope
  | SocketOpened ws_url nat
  | CloseFrameSent nat u16

section \<open>Watchdog, timers and the connection record\<close>

record staleness_monitor =
  window_ms :: u32
  last_inbound_at :: "instant option"
  armed :: bool

definition monitor_new :: "u32 \<Rightarrow> staleness_monitor" where
  "monitor_new w = \<lparr>window_ms = w, last_inbound_at = None, armed = False\<rparr>"

definition monitor_arm :: "instant \<Rightarrow> staleness_monitor \<Rightarrow> staleness_monitor" where
  "monitor_arm now s = s\<lparr>armed := True, last_inbound_at := Some now\<rparr>"

definition monitor_disarm :: "staleness_monitor \<Rightarrow> staleness_monitor" where
  "monitor_disarm s = s\<lparr>armed := False, last_inbound_at := None\<rparr>"

definition note_inbound :: "instant \<Rightarrow> staleness_monitor \<Rightarrow> staleness_monitor" where
  "note_inbound now s = (if armed s then s\<lparr>last_inbound_at := Some now\<rparr> else s)"

definition deadline :: "staleness_monitor \<Rightarrow> instant option" where
  "deadline s =
     (if armed s then map_option (\<lambda>t. t + millis (unat (window_ms s))) (last_inbound_at s) else None)"

record timer_set =
  backoff_due_at :: "instant option"
  upgrade_timeout_due_at :: "instant option"
  staleness_due_at :: "instant option"
  close_timeout_due_at :: "instant option"
  rate_budget_window_advanced_at :: "instant option"
  per_entry_subscribe_ack_timeouts :: "(sub_key, instant) hashmap"
  per_entry_subscribe_resend_due :: "(sub_key, instant) hashmap"
  per_entry_book_reseed_snapshot :: "(sub_key, instant) hashmap"
  token_refresh_due_at :: "instant option"

definition timer_set_default :: timer_set where
  "timer_set_default =
     \<lparr>backoff_due_at = None, upgrade_timeout_due_at = None, staleness_due_at = None,
      close_timeout_due_at = None, rate_budget_window_advanced_at = None,
      per_entry_subscribe_ack_timeouts = [], per_entry_subscribe_resend_due = [],
      per_entry_book_reseed_snapshot = [], token_refresh_due_at = None\<rparr>"

record managed_connection =
  mc_url :: ws_url
  mc_state :: connection_state
  attempt_count :: u32
  auth_handshake_fail_count :: u32
  has_been_open :: bool
  awaiting_token_refresh :: bool
  server_connection_id :: "u64 option"
  socket :: "nat option"
  pending_requests :: "(u64, pending_request) hashmap"
  monitor :: staleness_monitor
  mc_knobs :: knobs
  mc_clock :: "nat \<Rightarrow> instant"
  clock_reads :: nat
  process_now :: instant
  jitter_state :: u64
  sockets_opened :: nat
  rate_budget :: connection_rate_budget
  timers :: timer_set
  subscribe_ack_attempts :: "(sub_key, u8) hashmap"
  pending_connect_request_id :: "u64 option"
  pending_close_request_id :: "u64 option"
  pending_reconnect_request_id :: "u64 option"
  additional_close_request_ids :: "u64 list"
  additional_connect_request_ids :: "u64 list"
  deferred_open_auth_subscribes :: "(channel_name \<times> string option \<times> subscribe_params) list"
  next_subscribe_req_id_field :: u64
  pending_subscribe_req_ids :: "(u64, sub_key) hashmap"
  subscribe_req_id_by_key :: "(sub_key, u64) hashmap"
  trace :: "effect list"

definition mc_new :: "ws_url \<Rightarrow> knobs \<Rightarrow> connection_rate_budget \<Rightarrow> (nat \<Rightarrow> instant) \<Rightarrow> instant \<Rightarrow> u64 \<Rightarrow>
    managed_connection" where
  "mc_new url k rb clock pnow seed =
     \<lparr>mc_url = url, mc_state = Idle, attempt_count = 0, auth_handshake_fail_count = 0,
      has_been_open = False, awaiting_token_refresh = False, server_connection_id = None,
      socket = None, pending_requests = [], monitor = monitor_new (k_staleness_window_ms k),
      mc_knobs = k, mc_clock = clock, clock_reads = 0, process_now = pnow, jitter_state = seed,
      sockets_opened = 0, rate_budget = rb, timers = timer_set_default, subscribe_ack_attempts = [],
      pending_connect_request_id = None, pending_close_request_id = None,
      pending_reconnect_request_id = None, additional_close_request_ids = [],
      additional_connect_request_ids = [], deferred_open_auth_subscribes = [],
      next_subscribe_req_id_field = 1, pending_subscribe_req_ids = [], subscribe_req_id_by_key = [],
      trace = []\<rparr>"

section \<open>Readings and effects\<close>

definition now_of :: "managed_connection \<Rightarrow> instant" where
  "now_of m = mc_clock m (clock_reads m)"

definition tick :: "managed_connection \<Rightarrow> managed_connection" where
  "tick m = m\<lparr>clock_reads := Suc (clock_reads m)\<rparr>"

definition act :: "effect \<Rightarrow> managed_connection \<Rightarrow> managed_connection" where
  "act e m = m\<lparr>trace := trace m @ [e]\<rparr>"

definition set_timers :: "(timer_set \<Rightarrow> timer_set) \<Rightarrow> managed_connection \<Rightarrow> managed_connection" where
  "set_timers f m = m\<lparr>timers := f (timers m)\<rparr>"

definition publish :: "nat \<Rightarrow> u64 option \<Rightarrow> event_payload \<Rightarrow> managed_connection \<Rightarrow> managed_connection" where
  "publish v rid p m =
     act (Published \<lparr>env_version = v, env_timestamp = now_of m, env_request_id = rid, env_payload = p\<rparr>)
       (tick m)"

definition emit_lifecycle :: "event_payload \<Rightarrow> u64 option \<Rightarrow> managed_connection \<Rightarrow> managed_connection" where
  "emit_lifecycle p rid m = publish 1 rid p m"

text \<open>An event whose payload carries a reading of the clock of its own, taken first.\<close>

definition emit_timed :: "(instant \<Rightarrow> event_payload) \<Rightarrow> u64 option \<Rightarrow> managed_connection \<Rightarrow>
    managed_connection" where
  "emit_timed f rid m = emit_lifecycle (f (now_of m)) rid (tick m)"

section \<open>Pending requests\<close>

definition record_pending_request :: "pending_request \<Rightarrow> managed_connection \<Rightarrow> managed_connection" where
  "record_pending_request p m = m\<lparr>pending_requests := hm_insert (p_req_id p) p (pending_requests m)\<rparr>"

definition resolve_pending_request :: "ws_response \<Rightarrow> managed_connection \<Rightarrow> managed_connection" where
  "resolve_pending_request resp m =
     (case hm_get (pending_requests m) (r_req_id resp) of
        None \<Rightarrow> m
      | Some p \<Rightarrow>
          act (Resolved (r_req_id resp) (Inr resp))
            (m\<lparr>pending_requests := hm_remove (r_req_id resp) (pending_requests m)\<rparr>))"

definition fail_pending_request :: "u64 \<Rightarrow> connection_error \<Rightarrow> managed_connection \<Rightarrow> managed_connection" where
  "fail_pending_request req_id err m =
     (case hm_get (pending_requests m) req_id of
        None \<Rightarrow> m
      | Some p \<Rightarrow>
          act (Resolved req_id (Inl err))
            (m\<lparr>pending_requests := hm_remove req_id (pending_requests m)\<rparr>))"

definition drain_one_retryable :: "u64 \<Rightarrow> managed_connection \<Rightarrow> managed_connection" where
  "drain_one_retryable req_id m =
     (case hm_get (pending_requests m) req_id of
        None \<Rightarrow> m
      | Some p \<Rightarrow>
          publish 1 None (WsRequestFailedEvent req_id (p_op p) ConnectionLost)
            (act (Resolved req_id (Inl RequestInFlightWhenDropped))
              (m\<lparr>pending_requests := hm_remove req_id (pending_requests m)\<rparr>)))"

text \<open>The body of the loop of \<open>drain\<close>: the future first, then the event.\<close>

definition drain_step :: "drain_cause \<Rightarrow> pending_request \<Rightarrow> managed_connection \<Rightarrow> managed_connection" where
  "drain_step cause p m =
     (let (err, reason) = drain_resolve cause in
      publish 1 None (WsRequestFailedEvent (p_req_id p) (p_op p) reason)
        (act (Resolved (p_req_id p) (Inl err)) m))"

definition drain :: "drain_cause \<Rightarrow> managed_connection \<Rightarrow> managed_connection" where
  "drain cause m =
     (if pending_requests m = [] then m
      else fold (drain_step cause) (sort_key p_req_id (map snd (pending_requests m)))
             (m\<lparr>pending_requests := []\<rparr>))"

definition pending_requests_contains :: "u64 \<Rightarrow> managed_connection \<Rightarrow> bool" where
  "pending_requests_contains req_id m \<longleftrightarrow> hm_get (pending_requests m) req_id \<noteq> None"

section \<open>Subscribe request ids\<close>

definition next_subscribe_req_id :: "managed_connection \<Rightarrow> managed_connection \<times> u64" where
  "next_subscribe_req_id m =
     (m\<lparr>next_subscribe_req_id_field := saturating_add (next_subscribe_req_id_field m) 1\<rparr>,
      next_subscribe_req_id_field m)"

definition record_subscribe_req_id :: "u64 \<Rightarrow> sub_key \<Rightarrow> managed_connection \<Rightarrow> managed_connection" where
  "record_subscribe_req_id req_id key m =
     (let fwd = (case hm_get (subscribe_req_id_by_key m) key of
                   None \<Rightarrow> pending_subscribe_req_ids m
                 | Some prev \<Rightarrow> hm_remove prev (pending_subscribe_req_ids m))
      in m\<lparr>subscribe_req_id_by_key := hm_insert key req_id (subscribe_req_id_by_key m),
           pending_subscribe_req_ids := hm_insert req_id key fwd\<rparr>)"

definition resolve_subscribe_req_id :: "u64 \<Rightarrow> managed_connection \<Rightarrow> sub_key option" where
  "resolve_subscribe_req_id req_id m = hm_get (pending_subscribe_req_ids m) req_id"

definition forget_subscribe_req_id_for_key :: "sub_key \<Rightarrow> managed_connection \<Rightarrow> managed_connection" where
  "forget_subscribe_req_id_for_key key m =
     (case hm_get (subscribe_req_id_by_key m) key of
        None \<Rightarrow> m
      | Some req_id \<Rightarrow>
          m\<lparr>subscribe_req_id_by_key := hm_remove key (subscribe_req_id_by_key m),
            pending_subscribe_req_ids := hm_remove req_id (pending_subscribe_req_ids m)\<rparr>)"

section \<open>Teardown and timers\<close>

definition disarm_staleness :: "managed_connection \<Rightarrow> managed_connection" where
  "disarm_staleness m =
     set_timers (\<lambda>t. t\<lparr>staleness_due_at := None\<rparr>) (m\<lparr>monitor := monitor_disarm (monitor m)\<rparr>)"

definition clear_subscribe_ack_state :: "managed_connection \<Rightarrow> managed_connection" where
  "clear_subscribe_ack_state m =
     (set_timers (\<lambda>t. t\<lparr>per_entry_subscribe_ack_timeouts := [], per_entry_subscribe_resend_due := [],
                        per_entry_book_reseed_snapshot := []\<rparr>) m)
       \<lparr>subscribe_ack_attempts := [], pending_subscribe_req_ids := [], subscribe_req_id_by_key := [],
        deferred_open_auth_subscribes := [], awaiting_token_refresh := False\<rparr>"

definition exit_authenticating_teardown :: "managed_connection \<Rightarrow> managed_connection" where
  "exit_authenticating_teardown m =
     drain DrainInFlightDropped (clear_subscribe_ack_state (disarm_staleness (m\<lparr>socket := None\<rparr>)))"

definition exit_authenticating_to_closing :: "managed_connection \<Rightarrow> managed_connection" where
  "exit_authenticating_to_closing m = clear_subscribe_ack_state (disarm_staleness m)"

definition exit_resubscribing_teardown :: "managed_connection \<Rightarrow> managed_connection" where
  "exit_resubscribing_teardown m =
     drain DrainInFlightDropped (clear_subscribe_ack_state (disarm_staleness (m\<lparr>socket := None\<rparr>)))"

definition exit_open_teardown :: "drain_cause \<Rightarrow> managed_connection \<Rightarrow> managed_connection" where
  "exit_open_teardown cause m = disarm_staleness ((drain cause m)\<lparr>socket := None\<rparr>)"

text \<open>The jitter is drawn inside \<open>next_backoff\<close>, before the clock is read.\<close>

definition compute_backoff_due :: "managed_connection \<Rightarrow> managed_connection \<times> instant" where
  "compute_backoff_due m =
     (let attempt = saturating_sub (attempt_count m) 1;
          (unit, j) = next_unit (jitter_state m);
          delay = next_backoff (mc_knobs m) attempt unit;
          m1 = m\<lparr>jitter_state := j\<rparr>
      in (tick m1, now_of m1 + delay))"

definition arm_staleness :: "managed_connection \<Rightarrow> managed_connection" where
  "arm_staleness m =
     (let s = monitor_arm (now_of m) (monitor_new (k_staleness_window_ms (mc_knobs m)))
      in set_timers (\<lambda>t. t\<lparr>staleness_due_at := deadline s\<rparr>) ((tick m)\<lparr>monitor := s\<rparr>))"

definition note_inbound_activity :: "managed_connection \<Rightarrow> managed_connection" where
  "note_inbound_activity m =
     (let s = note_inbound (now_of m) (monitor m)
      in set_timers (\<lambda>t. t\<lparr>staleness_due_at := deadline s\<rparr>) ((tick m)\<lparr>monitor := s\<rparr>))"

definition arm_upgrade_timeout :: "managed_connection \<Rightarrow> managed_connection" where
  "arm_upgrade_timeout m =
     set_timers (\<lambda>t. t\<lparr>upgrade_timeout_due_at := Some (now_of m + upgrade_timeout (mc_knobs m))\<rparr>) (tick m)"

definition arm_close_timeout :: "managed_connection \<Rightarrow> managed_connection" where
  "arm_close_timeout m =
     set_timers (\<lambda>t. t\<lparr>close_timeout_due_at := Some (now_of m + close_timeout (mc_knobs m))\<rparr>) (tick m)"

definition arm_token_refresh :: "instant \<Rightarrow> managed_connection \<Rightarrow> managed_connection" where
  "arm_token_refresh due m = set_timers (\<lambda>t. t\<lparr>token_refresh_due_at := Some due\<rparr>) m"

definition disarm_token_refresh :: "managed_connection \<Rightarrow> managed_connection" where
  "disarm_token_refresh m = set_timers (\<lambda>t. t\<lparr>token_refresh_due_at := None\<rparr>) m"

definition ack_budget :: "managed_connection \<Rightarrow> u8" where
  "ack_budget m = word_of_nat (min (unat (k_subscribe_ack_attempts (mc_knobs m))) 255)"

definition arm_subscribe_ack :: "sub_key \<Rightarrow> instant \<Rightarrow> managed_connection \<Rightarrow> managed_connection" where
  "arm_subscribe_ack key due m =
     (let m1 = set_timers (\<lambda>t. t\<lparr>per_entry_subscribe_ack_timeouts :=
                 hm_insert key due (per_entry_subscribe_ack_timeouts t)\<rparr>) m
      in case hm_get (subscribe_ack_attempts m1) key of
           None \<Rightarrow> m1\<lparr>subscribe_ack_attempts := hm_insert key (ack_budget m1) (subscribe_ack_attempts m1)\<rparr>
         | Some _ \<Rightarrow> m1)"

definition drop_entry_timers :: "sub_key \<Rightarrow> managed_connection \<Rightarrow> managed_connection" where
  "drop_entry_timers key m =
     set_timers (\<lambda>t. t\<lparr>per_entry_subscribe_ack_timeouts := hm_remove key (per_entry_subscribe_ack_timeouts t),
                       per_entry_subscribe_resend_due := hm_remove key (per_entry_subscribe_resend_due t)\<rparr>) m"

definition disarm_subscribe_ack :: "sub_key \<Rightarrow> managed_connection \<Rightarrow> managed_connection" where
  "disarm_subscribe_ack key m =
     forget_subscribe_req_id_for_key key
       (let m1 = drop_entry_timers key m
        in m1\<lparr>subscribe_ack_attempts := hm_remove key (subscribe_ack_attempts m1)\<rparr>)"

definition arm_book_reseed_snapshot :: "sub_key \<Rightarrow> instant \<Rightarrow> managed_connection \<Rightarrow> managed_connection" where
  "arm_book_reseed_snapshot key due m =
     set_timers (\<lambda>t. t\<lparr>per_entry_book_reseed_snapshot :=
       hm_insert key due (per_entry_book_reseed_snapshot t)\<rparr>) m"

definition disarm_book_reseed_snapshot :: "sub_key \<Rightarrow> managed_connection \<Rightarrow> managed_connection" where
  "disarm_book_reseed_snapshot key m =
     set_timers (\<lambda>t. t\<lparr>per_entry_book_reseed_snapshot :=
       hm_remove key (per_entry_book_reseed_snapshot t)\<rparr>) m"

definition pending_subscribe_ack_count :: "managed_connection \<Rightarrow> nat" where
  "pending_subscribe_ack_count m = length (per_entry_subscribe_ack_timeouts (timers m))"

definition is_subscribe_ack_armed :: "sub_key \<Rightarrow> managed_connection \<Rightarrow> bool" where
  "is_subscribe_ack_armed key m \<longleftrightarrow> hm_get (per_entry_subscribe_ack_timeouts (timers m)) key \<noteq> None"

definition authenticating_nothing_in_flight :: "managed_connection \<Rightarrow> bool" where
  "authenticating_nothing_in_flight m \<longleftrightarrow>
     mc_state m = Authenticating \<and> pending_subscribe_ack_count m = 0 \<and>
     pending_requests m = [] \<and> \<not> awaiting_token_refresh m"

definition remove_deferred_open_auth_subscribe :: "sub_key \<Rightarrow> managed_connection \<Rightarrow> managed_connection" where
  "remove_deferred_open_auth_subscribe key m =
     m\<lparr>deferred_open_auth_subscribes :=
        filter (\<lambda>(c, p, _). \<not> (c = fst key \<and> p = snd key)) (deferred_open_auth_subscribes m)\<rparr>"

definition defer_open_auth_subscribe :: "sub_key \<Rightarrow> subscribe_params \<Rightarrow> managed_connection \<Rightarrow>
    managed_connection" where
  "defer_open_auth_subscribe key params m =
     (if list_ex (\<lambda>(c, p, _). c = fst key \<and> p = snd key) (deferred_open_auth_subscribes m) then m
      else m\<lparr>deferred_open_auth_subscribes :=
              deferred_open_auth_subscribes m @ [(fst key, snd key, params)]\<rparr>)"

definition drain_deferred_open_auth_subscribes :: "managed_connection \<Rightarrow>
    managed_connection \<times> (channel_name \<times> string option \<times> subscribe_params) list" where
  "drain_deferred_open_auth_subscribes m =
     (m\<lparr>deferred_open_auth_subscribes := []\<rparr>, deferred_open_auth_subscribes m)"

section \<open>Timer selection\<close>

definition consider_timer :: "instant option \<Rightarrow> fsm_event \<Rightarrow> (instant \<times> fsm_event) option \<Rightarrow>
    (instant \<times> fsm_event) option" where
  "consider_timer due ev earliest =
     (case due of
        None \<Rightarrow> earliest
      | Some d \<Rightarrow>
          (case earliest of
             Some (best, e) \<Rightarrow> if d < best then Some (d, ev) else Some (best, e)
           | None \<Rightarrow> Some (d, ev)))"

definition consider_timers :: "(channel_name \<Rightarrow> string option \<Rightarrow> fsm_event) \<Rightarrow> (sub_key, instant) hashmap \<Rightarrow>
    (instant \<times> fsm_event) option \<Rightarrow> (instant \<times> fsm_event) option" where
  "consider_timers mk = fold (\<lambda>((c, p), due). consider_timer (Some due) (mk c p))"

definition next_timer_due :: "managed_connection \<Rightarrow> (instant \<times> fsm_event) option" where
  "next_timer_due m =
     (let t = timers m;
          e1 = consider_timer (backoff_due_at t) TimerBackoffElapsed None;
          e2 = consider_timer (upgrade_timeout_due_at t) TimerUpgradeTimeout e1;
          e3 = consider_timer (staleness_due_at t) TimerStalenessElapsed e2;
          e4 = consider_timer (close_timeout_due_at t) TimerCloseTimeout e3;
          e5 = consider_timer (rate_budget_window_advanced_at t) TimerRateBudgetWindowAdvanced e4;
          e6 = consider_timer (token_refresh_due_at t) TimerTokenRefreshDue e5;
          e7 = consider_timers TimerSubscribeAckTimeout (per_entry_subscribe_ack_timeouts t) e6;
          e8 = consider_timers TimerSubscribeResendDue (per_entry_subscribe_resend_due t) e7
      in consider_timers TimerBookReseedSnapshot (per_entry_book_reseed_snapshot t) e8)"

definition pop_timer_for_event :: "fsm_event \<Rightarrow> managed_connection \<Rightarrow> managed_connection" where
  "pop_timer_for_event ev m =
     set_timers (\<lambda>t. case ev of
         TimerBackoffElapsed \<Rightarrow> t\<lparr>backoff_due_at := None\<rparr>
       | TimerUpgradeTimeout \<Rightarrow> t\<lparr>upgrade_timeout_due_at := None\<rparr>
       | TimerStalenessElapsed \<Rightarrow> t\<lparr>staleness_due_at := None\<rparr>
       | TimerCloseTimeout \<Rightarrow> t\<lparr>close_timeout_due_at := None\<rparr>
       | TimerRateBudgetWindowAdvanced \<Rightarrow> t\<lparr>rate_budget_window_advanced_at := None\<rparr>
       | TimerTokenRefreshDue \<Rightarrow> t\<lparr>token_refresh_due_at := None\<rparr>
       | TimerSubscribeAckTimeout c p \<Rightarrow>
           t\<lparr>per_entry_subscribe_ack_timeouts := hm_remove (c, p) (per_entry_subscribe_ack_timeouts t)\<rparr>
       | TimerSubscribeResendDue c p \<Rightarrow>
           t\<lparr>per_entry_subscribe_resend_due := hm_remove (c, p) (per_entry_subscribe_resend_due t)\<rparr>
       | TimerBookReseedSnapshot c p \<Rightarrow>
           t\<lparr>per_entry_book_reseed_snapshot := hm_remove (c, p) (per_entry_book_reseed_snapshot t)\<rparr>
       | _ \<Rightarrow> t) m"

text \<open>The loop of \<open>earliest_timer_delay\<close> over the connections in their iteration order.\<close>

definition earliest_timer :: "(ws_url \<times> managed_connection) list \<Rightarrow> (ws_url \<times> instant \<times> fsm_event) option" where
  "earliest_timer conns =
     fold (\<lambda>(url, mc) earliest.
         case next_timer_due mc of
           None \<Rightarrow> earliest
         | Some (due, ev) \<Rightarrow>
             (case earliest of
                Some (u, best, e) \<Rightarrow> if best \<le> due then Some (u, best, e) else Some (url, due, ev)
              | None \<Rightarrow> Some (url, due, ev))) conns None"

definition earliest_timer_delay :: "(ws_url \<times> managed_connection) list \<Rightarrow> instant \<Rightarrow>
    (ws_url \<times> duration \<times> fsm_event) option" where
  "earliest_timer_delay conns process_clock =
     (case earliest_timer conns of
        None \<Rightarrow> None
      | Some (url, due, ev) \<Rightarrow>
          let now = (case hm_get conns url of Some mc \<Rightarrow> now_of mc | None \<Rightarrow> process_clock)
          in Some (url, due - now, ev))"

end
