(* ===== verification/Connection_Fsm.thy ===== *)
theory Connection_Fsm
  imports Managed_Connection
begin

text \<open>
  The connection state machine: the transition helpers of
  \<open>src/rust/src/conn/managed_connection/mod.rs\<close> and \<open>handle_event\<close> of \<open>handle_event.rs\<close>, one
  definition per source state, every arm of the match with its guards and early returns. An arm
  that only logs is the identity.
\<close>

section \<open>Transition helpers\<close>

definition emit_rate_throttled :: "u64 option \<Rightarrow> connection_rate_throttled \<Rightarrow> managed_connection \<Rightarrow>
    managed_connection" where
  "emit_rate_throttled rid e m =
     emit_lifecycle
       (ConnectionRateThrottledEvent (mc_url m) (t_attempts_used e) (window_seconds (rate_budget m))
         (saturating_sub (t_budget e) (t_attempts_used e)) (throttle_until e)) rid m"

text \<open>\<open>self.rate_budget.try_consume(self.clock.now())\<close>.\<close>

definition consult_budget :: "managed_connection \<Rightarrow> managed_connection \<times> (connection_rate_throttled + unit)" where
  "consult_budget m =
     (let (b, r) = try_consume (now_of m) (rate_budget m) in ((tick m)\<lparr>rate_budget := b\<rparr>, r))"

definition arm_rate_window :: "connection_rate_throttled \<Rightarrow> managed_connection \<Rightarrow> managed_connection" where
  "arm_rate_window e m =
     set_timers (\<lambda>t. t\<lparr>rate_budget_window_advanced_at := Some (throttle_until e)\<rparr>) m"

definition enter_connecting :: "u64 option \<Rightarrow> managed_connection \<Rightarrow> managed_connection" where
  "enter_connecting rid m =
     (let n = sockets_opened m;
          m1 = act (SocketOpened (mc_url m) n) (m\<lparr>socket := Some n, sockets_opened := Suc n\<rparr>);
          m2 = arm_upgrade_timeout m1
      in emit_lifecycle (ConnectionConnectingEvent (mc_url m2) (attempt_count m2)) rid m2)"

definition reenter_connecting :: "u64 \<Rightarrow> managed_connection \<Rightarrow> managed_connection" where
  "reenter_connecting rid m =
     (case consult_budget m of
        (m1, Inl e) \<Rightarrow>
          emit_rate_throttled (Some rid) e
            (arm_rate_window e
              (m1\<lparr>mc_state := BackingOff, socket := None, pending_connect_request_id := Some rid\<rparr>))
      | (m1, Inr _) \<Rightarrow>
          enter_connecting (Some rid)
            (m1\<lparr>mc_state := Connecting, pending_connect_request_id := Some rid\<rparr>))"

definition emit_connection_failed :: "failure_text \<Rightarrow> bool \<Rightarrow> non_transient_class option \<Rightarrow>
    managed_connection \<Rightarrow> managed_connection" where
  "emit_connection_failed err transient cls m =
     (let primary = pending_connect_request_id m; cohort = additional_connect_request_ids m;
          ev = ConnectionFailedEvent (mc_url m) (attempt_count m) err transient cls;
          m1 = m\<lparr>pending_connect_request_id := None, additional_connect_request_ids := []\<rparr>
      in if primary = None \<and> cohort = [] then emit_lifecycle ev None m1
         else fold (\<lambda>rid. emit_lifecycle ev (Some rid))
                ((case primary of None \<Rightarrow> [] | Some r \<Rightarrow> [r]) @ cohort) m1)"

definition emit_attempt_failed :: "instant \<Rightarrow> transient_class \<Rightarrow> reason_text option \<Rightarrow> u16 option \<Rightarrow>
    u16 option \<Rightarrow> managed_connection \<Rightarrow> managed_connection" where
  "emit_attempt_failed due cls kraken_error http_status close_code m =
     emit_timed (\<lambda>now. ConnectionAttemptFailedEvent (mc_url m) (attempt_count m) cls kraken_error
       http_status close_code ((due - now) div 1000000) now) None m"

text \<open>The two ways an arm lands in \<open>BackingOff\<close> with the backoff timer armed: before the connection was
  open (an attempt failed) and from \<open>Open\<close> (it dropped).\<close>

definition back_off_attempt_failed :: "transient_class \<Rightarrow> reason_text option \<Rightarrow> u16 option \<Rightarrow> u16 option \<Rightarrow>
    managed_connection \<Rightarrow> managed_connection" where
  "back_off_attempt_failed cls kraken_error http_status close_code m =
     (let (m1, due) = compute_backoff_due (m\<lparr>mc_state := BackingOff\<rparr>)
      in emit_attempt_failed due cls kraken_error http_status close_code
           (set_timers (\<lambda>t. t\<lparr>backoff_due_at := Some due\<rparr>) m1))"

definition back_off_dropped :: "u16 option \<Rightarrow> reason_text option \<Rightarrow> managed_connection \<Rightarrow>
    managed_connection" where
  "back_off_dropped close_code reason m =
     (let (m1, due) = compute_backoff_due (m\<lparr>mc_state := BackingOff\<rparr>)
      in emit_timed (\<lambda>now. ConnectionDroppedEvent (mc_url m) now close_code reason) None
           (set_timers (\<lambda>t. t\<lparr>backoff_due_at := Some due\<rparr>) m1))"

definition cap_exhausted :: "managed_connection \<Rightarrow> bool" where
  "cap_exhausted m =
     (case opt_decode (k_reconnect_attempts (mc_knobs m)) of
        Some n \<Rightarrow> attempt_count m \<ge> n
      | None \<Rightarrow> False)"

definition cap_exhausted_then_escalate :: "managed_connection \<Rightarrow> managed_connection \<times> bool" where
  "cap_exhausted_then_escalate m =
     (if cap_exhausted m
      then (let m1 = set_timers (\<lambda>t. t\<lparr>upgrade_timeout_due_at := None\<rparr>)
                       (disarm_staleness (m\<lparr>mc_state := Failed, socket := None\<rparr>))
            in (emit_connection_failed (AttemptBudgetText (attempt_count m1)) False
                  (Some NtRetryCapExhausted) m1, True))
      else (m, False))"

definition emit_open_or_reopened :: "bool \<Rightarrow> u32 \<Rightarrow> u64 option \<Rightarrow> managed_connection \<Rightarrow> managed_connection" where
  "emit_open_or_reopened is_reopen n rid m =
     (if is_reopen
      then emit_timed (\<lambda>now. ConnectionReopenedEvent (mc_url m) now n) rid m
      else emit_timed (\<lambda>now. ConnectionOpenEvent (mc_url m) now (server_connection_id m)) rid m)"

definition enter_open :: "managed_connection \<Rightarrow> managed_connection" where
  "enter_open m =
     (let is_reopen = has_been_open m; n = attempt_count m;
          m1 = arm_staleness (m\<lparr>attempt_count := 0, has_been_open := True, mc_state := Open\<rparr>);
          rid = pending_connect_request_id m1; cohort = additional_connect_request_ids m1;
          m2 = m1\<lparr>pending_connect_request_id := None, additional_connect_request_ids := []\<rparr>
      in fold (\<lambda>r. emit_open_or_reopened is_reopen n (Some r)) cohort
           (emit_open_or_reopened is_reopen n rid m2))"

definition complete_resubscribe_if_empty :: "managed_connection \<Rightarrow> managed_connection" where
  "complete_resubscribe_if_empty m =
     (if mc_state m = Resubscribing \<and> pending_subscribe_ack_count m = 0 \<and>
         per_entry_subscribe_resend_due (timers m) = []
      then enter_open m else m)"

definition enter_closed_or_reconnect :: "closed_reason \<Rightarrow> ack_source \<Rightarrow> managed_connection \<Rightarrow>
    managed_connection" where
  "enter_closed_or_reconnect reason ack m =
     (let m1 = set_timers (\<lambda>t. t\<lparr>close_timeout_due_at := None\<rparr>) m;
          cause = (if pending_reconnect_request_id m1 \<noteq> None then DrainInFlightDropped
                   else DrainClientClosed);
          m2 = drain cause m1;
          closes = (case pending_close_request_id m2 of None \<Rightarrow> [] | Some r \<Rightarrow> [r])
                     @ additional_close_request_ids m2;
          reconnect = pending_reconnect_request_id m2;
          m3 = m2\<lparr>pending_close_request_id := None, additional_close_request_ids := [],
                  pending_reconnect_request_id := None\<rparr>;
          now = now_of m3;
          m4 = fold (\<lambda>rid. emit_lifecycle
                  (ConnectionClosedEvent (mc_url m3) now reason ack (server_connection_id m3)) (Some rid))
                 closes (tick m3)
      in case reconnect of
           Some rid \<Rightarrow> reenter_connecting rid (m4\<lparr>attempt_count := 0\<rparr>)
         | None \<Rightarrow> m4\<lparr>mc_state := Closed, socket := None\<rparr>)"

definition RESEND_BACKOFF :: duration where
  "RESEND_BACKOFF = millis 200"

text \<open>The budget left after one more transient failure of the entry, recorded.\<close>

definition burn_ack_budget :: "sub_key \<Rightarrow> managed_connection \<Rightarrow> managed_connection \<times> u8" where
  "burn_ack_budget key m =
     (let left = (case hm_get (subscribe_ack_attempts m) key of
                    Some n \<Rightarrow> saturating_sub n 1
                  | None \<Rightarrow> saturating_sub (ack_budget m) 1)
      in (m\<lparr>subscribe_ack_attempts := hm_insert key left (subscribe_ack_attempts m)\<rparr>, left))"

definition handle_subscribe_failure :: "channel_name \<Rightarrow> string option \<Rightarrow> bool \<Rightarrow> string option \<Rightarrow>
    managed_connection \<Rightarrow> managed_connection" where
  "handle_subscribe_failure channel pair transient last_error m =
     (let key = (channel, pair);
          m1 = forget_subscribe_req_id_for_key key (drop_entry_timers key m)
      in if \<not> transient
         then (let m2 = m1\<lparr>subscribe_ack_attempts := hm_remove key (subscribe_ack_attempts m1)\<rparr>;
                   now = now_of m2;
                   env = \<lparr>env_version = 2, env_timestamp = now, env_request_id = None,
                          env_payload = SubscriptionTerminatedEvent channel pair
                            NonTransientWireRejection last_error now\<rparr>
               in complete_resubscribe_if_empty (act (Published env) (tick m2)))
         else (let (m2, left) = burn_ack_budget key m1
               in if left > 0
                  then set_timers (\<lambda>t. t\<lparr>per_entry_subscribe_resend_due :=
                         hm_insert key (now_of m2 + RESEND_BACKOFF) (per_entry_subscribe_resend_due t)\<rparr>)
                         (tick m2)
                  else (let m3 = exit_resubscribing_teardown m2
                        in if mc_state m3 = Open
                           then (let (m4, escalated) = cap_exhausted_then_escalate m3
                                 in if escalated then m4
                                    else back_off_dropped None (Some (SubscribeBudgetText key)) m4)
                           else back_off_attempt_failed SubscribeBudgetExhausted
                                  (Some (SubscribeBudgetText key)) None None m3)))"

text \<open>\<open>WebsocketStaleEvent\<close>, read off the watchdog before it is disarmed.\<close>

definition emit_stale :: "managed_connection \<Rightarrow> managed_connection" where
  "emit_stale m =
     emit_lifecycle
       (WebsocketStaleEvent (mc_url m)
         (case last_inbound_at (monitor m) of Some t \<Rightarrow> t | None \<Rightarrow> process_now m)
         (window_ms (monitor m))) None m"

text \<open>The tail of every pre-open transient arm: escalate at the cap, else back off.\<close>

definition retry_or_escalate :: "transient_class \<Rightarrow> reason_text option \<Rightarrow> u16 option \<Rightarrow> u16 option \<Rightarrow>
    managed_connection \<Rightarrow> managed_connection" where
  "retry_or_escalate cls kraken_error http_status close_code m =
     (let (m1, escalated) = cap_exhausted_then_escalate m
      in if escalated then m1 else back_off_attempt_failed cls kraken_error http_status close_code m1)"

definition emit_auth_failed :: "non_transient_class \<Rightarrow> auth_error option \<Rightarrow> managed_connection \<Rightarrow>
    managed_connection" where
  "emit_auth_failed cls resp m = emit_lifecycle (AuthenticationFailedEvent (mc_url m) cls resp) None m"

definition emit_closed :: "ack_source \<Rightarrow> u64 \<Rightarrow> managed_connection \<Rightarrow> managed_connection" where
  "emit_closed ack rid m =
     emit_timed (\<lambda>now. ConnectionClosedEvent (mc_url m) now ClientInitiated ack None) (Some rid) m"

definition send_close_frame :: "managed_connection \<Rightarrow> managed_connection" where
  "send_close_frame m = (case socket m of None \<Rightarrow> m | Some s \<Rightarrow> act (CloseFrameSent s 1000) m)"

section \<open>Idle, Failed and BackingOff\<close>

definition idle_event :: "fsm_event \<Rightarrow> managed_connection \<Rightarrow> managed_connection" where
  "idle_event ev m =
     (case ev of
        CallStartConnect rid \<Rightarrow>
          (case consult_budget m of
             (m1, Inl e) \<Rightarrow>
               emit_rate_throttled (Some rid) e
                 (arm_rate_window e (m1\<lparr>mc_state := BackingOff, pending_connect_request_id := Some rid\<rparr>))
           | (m1, Inr _) \<Rightarrow>
               enter_connecting (Some rid)
                 (m1\<lparr>attempt_count := saturating_add (attempt_count m1) 1, mc_state := Connecting,
                     pending_connect_request_id := Some rid\<rparr>))
      | CallClose rid \<Rightarrow> emit_closed NeverOpened rid (m\<lparr>mc_state := Closed\<rparr>)
      | CallForceReconnect rid \<Rightarrow>
          (case consult_budget (m\<lparr>attempt_count := 0\<rparr>) of
             (m1, Inl e) \<Rightarrow>
               emit_rate_throttled (Some rid) e
                 (arm_rate_window e (m1\<lparr>mc_state := BackingOff, pending_connect_request_id := Some rid\<rparr>))
           | (m1, Inr _) \<Rightarrow>
               enter_connecting (Some rid)
                 (m1\<lparr>mc_state := Connecting, pending_connect_request_id := Some rid\<rparr>))
      | _ \<Rightarrow> m)"

definition failed_event :: "fsm_event \<Rightarrow> managed_connection \<Rightarrow> managed_connection" where
  "failed_event ev m =
     (case ev of
        CallForceReconnect rid \<Rightarrow>
          (case consult_budget (m\<lparr>attempt_count := 0\<rparr>) of
             (m1, Inl e) \<Rightarrow>
               emit_rate_throttled (Some rid) e
                 (arm_rate_window e (m1\<lparr>mc_state := BackingOff, pending_connect_request_id := Some rid\<rparr>))
           | (m1, Inr _) \<Rightarrow>
               enter_connecting (Some rid)
                 (m1\<lparr>mc_state := Connecting, pending_connect_request_id := Some rid\<rparr>))
      | CallClose rid \<Rightarrow> emit_closed SocketDropped rid (m\<lparr>mc_state := Closed\<rparr>)
      | _ \<Rightarrow> m)"

text \<open>A further caller's id joins the cohort when a waiter is already latched.\<close>

definition latch_connect :: "u64 \<Rightarrow> managed_connection \<Rightarrow> managed_connection" where
  "latch_connect rid m =
     (case pending_connect_request_id m of
        None \<Rightarrow> m\<lparr>pending_connect_request_id := Some rid\<rparr>
      | Some _ \<Rightarrow> m\<lparr>additional_connect_request_ids := additional_connect_request_ids m @ [rid]\<rparr>)"

definition backing_off_event :: "fsm_event \<Rightarrow> managed_connection \<Rightarrow> managed_connection" where
  "backing_off_event ev m =
     (case ev of
        TimerBackoffElapsed \<Rightarrow>
          (case consult_budget m of
             (m1, Inl e) \<Rightarrow> emit_rate_throttled None e (arm_rate_window e m1)
           | (m1, Inr _) \<Rightarrow>
               enter_connecting None
                 ((set_timers (\<lambda>t. t\<lparr>backoff_due_at := None\<rparr>) m1)
                   \<lparr>attempt_count := saturating_add (attempt_count m1) 1, mc_state := Connecting\<rparr>))
      | TimerRateBudgetWindowAdvanced \<Rightarrow>
          (case consult_budget m of
             (m1, Inl e) \<Rightarrow> emit_rate_throttled None e (arm_rate_window e m1)
           | (m1, Inr _) \<Rightarrow>
               enter_connecting None
                 ((set_timers (\<lambda>t. t\<lparr>rate_budget_window_advanced_at := None\<rparr>) m1)
                   \<lparr>attempt_count := saturating_add (attempt_count m1) 1, mc_state := Connecting\<rparr>))
      | CallClose rid \<Rightarrow> emit_closed SocketDropped rid (m\<lparr>mc_state := Closed\<rparr>)
      | CallForceReconnect rid \<Rightarrow>
          (case consult_budget m of
             (m1, Inl e) \<Rightarrow>
               emit_rate_throttled (Some rid) e (arm_rate_window e (latch_connect rid m1))
           | (m1, Inr _) \<Rightarrow>
               enter_connecting (Some rid)
                 (latch_connect rid
                   ((set_timers (\<lambda>t. t\<lparr>backoff_due_at := None\<rparr>) m1)\<lparr>attempt_count := 0, mc_state := Connecting\<rparr>)))
      | _ \<Rightarrow> m)"

section \<open>Connecting\<close>

abbreviation clear_upgrade :: "managed_connection \<Rightarrow> managed_connection" where
  "clear_upgrade m \<equiv> set_timers (\<lambda>t. t\<lparr>upgrade_timeout_due_at := None\<rparr>) m"

definition connecting_event :: "fsm_event \<Rightarrow> managed_connection \<Rightarrow> managed_connection" where
  "connecting_event ev m =
     (case ev of
        WireUpgradeOk cid \<Rightarrow>
          arm_staleness
            ((clear_upgrade (m\<lparr>server_connection_id := cid\<rparr>))
              \<lparr>mc_state := (case mc_url m of Public \<Rightarrow> Resubscribing | Auth \<Rightarrow> Authenticating)\<rparr>)
      | WireUpgradeFailed status \<Rightarrow>
          if http_upgrade_status_transient status
          then (let (m1, escalated) = cap_exhausted_then_escalate m
                in if escalated then m1
                   else back_off_attempt_failed HttpTransient None (Some status) None
                          (clear_upgrade (m1\<lparr>socket := None\<rparr>)))
          else emit_connection_failed (UpgradeFailedText status) False None
                 (clear_upgrade (m\<lparr>mc_state := Failed, socket := None\<rparr>))
      | WireConnectError kind transient \<Rightarrow>
          if transient
          then (let (m1, escalated) = cap_exhausted_then_escalate m
                in if escalated then m1
                   else back_off_attempt_failed ConnectError None None None
                          (clear_upgrade (m1\<lparr>socket := None\<rparr>)))
          else emit_connection_failed (ConnectErrorText kind) False None
                 (clear_upgrade (m\<lparr>mc_state := Failed, socket := None\<rparr>))
      | TimerUpgradeTimeout \<Rightarrow>
          retry_or_escalate UpgradeTimeout None None None (clear_upgrade (m\<lparr>socket := None\<rparr>))
      | CallClose rid \<Rightarrow>
          (arm_close_timeout (clear_upgrade (m\<lparr>mc_state := Closing\<rparr>)))\<lparr>pending_close_request_id := Some rid\<rparr>
      | CallForceReconnect rid \<Rightarrow>
          (let m1 = m\<lparr>attempt_count := 0\<rparr>
           in if has_been_open m1
              then m1\<lparr>additional_connect_request_ids := additional_connect_request_ids m1 @ [rid]\<rparr>
              else m1)
      | _ \<Rightarrow> m)"

section \<open>Authenticating\<close>

definition token_stale_event :: "managed_connection \<Rightarrow> managed_connection" where
  "token_stale_event m =
     (let m1 = m\<lparr>auth_handshake_fail_count := saturating_add (auth_handshake_fail_count m) 1\<rparr>
      in if auth_handshake_fail_count m1 \<ge> k_max_auth_handshake_failures (mc_knobs m1)
         then (let m2 = (exit_authenticating_teardown m1)\<lparr>mc_state := Failed\<rparr>
               in emit_auth_failed NtRetryCapExhausted None
                    (emit_connection_failed (TokenStaleCapText (auth_handshake_fail_count m2)) False
                      (Some NtRetryCapExhausted) m2))
         else m1\<lparr>awaiting_token_refresh := True, attempt_count := saturating_add (attempt_count m1) 1\<rparr>)"

definition auth_rejected_event :: "auth_error_kind \<Rightarrow> managed_connection \<Rightarrow> managed_connection" where
  "auth_rejected_event kind m =
     (let m1 = (exit_authenticating_teardown m)\<lparr>mc_state := Failed\<rparr>;
          cause = (case kind of BadCreds \<Rightarrow> ''BadCreds'' | PermissionDenied \<Rightarrow> ''PermissionDenied''
                   | _ \<Rightarrow> ''AuthHandshakeFailed'');
          cls = (case kind of PermissionDenied \<Rightarrow> NtPermissionDenied | _ \<Rightarrow> NtBadCreds)
      in emit_auth_failed cls None (emit_connection_failed (AuthFailedText cause) False (Some cls) m1))"

definition authenticating_event :: "fsm_event \<Rightarrow> managed_connection \<Rightarrow> managed_connection" where
  "authenticating_event ev m =
     (case ev of
        WireAuthHandshakeOk \<Rightarrow>
          m\<lparr>awaiting_token_refresh := False, auth_handshake_fail_count := 0, mc_state := Resubscribing\<rparr>
      | WireOrderAuthOk \<Rightarrow>
          enter_open (clear_subscribe_ack_state
            (m\<lparr>awaiting_token_refresh := False, auth_handshake_fail_count := 0\<rparr>))
      | WireAuthHandshakeFailed kind \<Rightarrow>
          (case kind of
             TokenStale \<Rightarrow> token_stale_event m
           | Transient \<Rightarrow>
               retry_or_escalate AuthHandshakeTransient None None None (exit_authenticating_teardown m)
           | _ \<Rightarrow> auth_rejected_event kind m)
      | WireCloseReceived code reason \<Rightarrow>
          (let m1 = exit_authenticating_teardown m
           in if code = 1008
              then emit_connection_failed (PolicyDuringAuth code) False None (m1\<lparr>mc_state := Failed\<rparr>)
              else retry_or_escalate ClosedDuringHandshake (map_option WireReason reason) None (Some code) m1)
      | WireAbnormalClose _ \<Rightarrow>
          retry_or_escalate ClosedDuringHandshake None None None (exit_authenticating_teardown m)
      | TimerStalenessElapsed \<Rightarrow>
          retry_or_escalate ClosedDuringHandshake None None None (exit_authenticating_teardown (emit_stale m))
      | BusTokenRefreshFailed _ err \<Rightarrow>
          (let m1 = exit_authenticating_teardown m
           in if auth_retryable err
              then retry_or_escalate TokenRefreshTransientClass None None None m1
              else emit_auth_failed NtClientError (Some err)
                     (emit_connection_failed (AuthRefreshFailedText err) False (Some NtClientError)
                       (m1\<lparr>mc_state := Failed\<rparr>)))
      | BusTokenRefreshed _ \<Rightarrow> m\<lparr>awaiting_token_refresh := False\<rparr>
      | TimerSubscribeAckTimeout ch p \<Rightarrow> handle_subscribe_failure ch p True None m
      | CallClose rid \<Rightarrow>
          (arm_close_timeout ((exit_authenticating_to_closing m)\<lparr>mc_state := Closing\<rparr>))
            \<lparr>pending_close_request_id := Some rid\<rparr>
      | CallForceReconnect rid \<Rightarrow>
          (arm_close_timeout ((exit_authenticating_to_closing m)\<lparr>mc_state := Closing\<rparr>))
            \<lparr>pending_reconnect_request_id := Some rid\<rparr>
      | _ \<Rightarrow> m)"

section \<open>Resubscribing\<close>

definition begin_closing :: "managed_connection \<Rightarrow> managed_connection" where
  "begin_closing m =
     arm_close_timeout (clear_subscribe_ack_state (disarm_staleness (m\<lparr>mc_state := Closing\<rparr>)))"

definition resubscribing_event :: "fsm_event \<Rightarrow> managed_connection \<Rightarrow> managed_connection" where
  "resubscribing_event ev m =
     (case ev of
        WireSubscribeAck ch p is_last \<Rightarrow>
          (let m1 = disarm_subscribe_ack (ch, p) m in if is_last then enter_open m1 else m1)
      | CallClose rid \<Rightarrow> (begin_closing m)\<lparr>pending_close_request_id := Some rid\<rparr>
      | CallForceReconnect rid \<Rightarrow>
          send_close_frame ((begin_closing m)\<lparr>pending_reconnect_request_id := Some rid\<rparr>)
      | TimerSubscribeAckTimeout ch p \<Rightarrow> handle_subscribe_failure ch p True None m
      | WireSubscribeFailed ch p err \<Rightarrow>
          handle_subscribe_failure ch p (rejected_transient err) (Some (kraken_code err)) m
      | WireCloseReceived code reason \<Rightarrow>
          (let m1 = exit_resubscribing_teardown m
           in if code = 1008
              then emit_connection_failed (PolicyDuringResubscribe code) False None (m1\<lparr>mc_state := Failed\<rparr>)
              else retry_or_escalate ClosedDuringHandshake (map_option WireReason reason) None (Some code) m1)
      | WireAbnormalClose _ \<Rightarrow>
          retry_or_escalate ClosedDuringHandshake None None None (exit_resubscribing_teardown m)
      | TimerStalenessElapsed \<Rightarrow>
          retry_or_escalate ClosedDuringHandshake None None None (exit_resubscribing_teardown (emit_stale m))
      | BusTokenRefreshed _ \<Rightarrow> m\<lparr>awaiting_token_refresh := False\<rparr>
      | BusTokenRefreshFailed _ _ \<Rightarrow> m\<lparr>awaiting_token_refresh := False\<rparr>
      | _ \<Rightarrow> m)"

section \<open>Open\<close>

definition drop_or_escalate :: "u16 option \<Rightarrow> reason_text option \<Rightarrow> managed_connection \<Rightarrow>
    managed_connection" where
  "drop_or_escalate close_code reason m =
     (let (m1, escalated) = cap_exhausted_then_escalate m
      in if escalated then m1 else back_off_dropped close_code reason m1)"

definition leave_open :: "managed_connection \<Rightarrow> managed_connection" where
  "leave_open m = clear_subscribe_ack_state (exit_open_teardown DrainInFlightDropped m)"

definition open_event :: "fsm_event \<Rightarrow> managed_connection \<Rightarrow> managed_connection" where
  "open_event ev m =
     (case ev of
        WireSubscribeAck ch p _ \<Rightarrow> disarm_subscribe_ack (ch, p) m
      | BusTokenRefreshed _ \<Rightarrow> m\<lparr>awaiting_token_refresh := False\<rparr>
      | BusTokenRefreshFailed _ _ \<Rightarrow> m\<lparr>awaiting_token_refresh := False\<rparr>
      | WireOrderAckTokenStale \<Rightarrow> m\<lparr>awaiting_token_refresh := True\<rparr>
      | WireSubscribeFailed ch p err \<Rightarrow>
          handle_subscribe_failure ch p (rejected_transient err) (Some (kraken_code err)) m
      | TimerSubscribeAckTimeout ch p \<Rightarrow> handle_subscribe_failure ch p True None m
      | WireCloseReceived code reason \<Rightarrow>
          (let m1 = leave_open m
           in if code = 1008
              then emit_connection_failed (PolicyText code) False None (m1\<lparr>mc_state := Failed\<rparr>)
              else drop_or_escalate (Some code) (map_option WireReason reason) m1)
      | WireAbnormalClose _ \<Rightarrow> drop_or_escalate None None (leave_open m)
      | TimerStalenessElapsed \<Rightarrow> drop_or_escalate None None (leave_open (emit_stale m))
      | CallClose rid \<Rightarrow>
          send_close_frame
            ((begin_closing (drain DrainClientClosed m))\<lparr>pending_close_request_id := Some rid\<rparr>)
      | CallForceReconnect rid \<Rightarrow>
          send_close_frame
            ((begin_closing (drain DrainInFlightDropped m))\<lparr>pending_reconnect_request_id := Some rid\<rparr>)
      | _ \<Rightarrow> m)"

section \<open>Closing, and the whole step\<close>

definition closing_event :: "fsm_event \<Rightarrow> managed_connection \<Rightarrow> managed_connection" where
  "closing_event ev m =
     (case ev of
        WireCloseReceived _ _ \<Rightarrow> enter_closed_or_reconnect ClientInitiated AckServer m
      | WireAbnormalClose _ \<Rightarrow> enter_closed_or_reconnect ClientInitiated SocketDropped m
      | TimerCloseTimeout \<Rightarrow> enter_closed_or_reconnect Forced CloseTimeout m
      | CallClose rid \<Rightarrow>
          (case pending_close_request_id m of
             Some _ \<Rightarrow> m\<lparr>additional_close_request_ids := additional_close_request_ids m @ [rid]\<rparr>
           | None \<Rightarrow> m\<lparr>pending_close_request_id := Some rid\<rparr>)
      | CallForceReconnect rid \<Rightarrow>
          (case pending_reconnect_request_id m of
             None \<Rightarrow> m\<lparr>pending_reconnect_request_id := Some rid\<rparr>
           | Some _ \<Rightarrow> m\<lparr>additional_connect_request_ids := additional_connect_request_ids m @ [rid]\<rparr>)
      | _ \<Rightarrow> m)"

definition handle_event :: "fsm_event \<Rightarrow> managed_connection \<Rightarrow> managed_connection" where
  "handle_event ev m =
     (case mc_state m of
        Idle \<Rightarrow> idle_event ev m
      | Connecting \<Rightarrow> connecting_event ev m
      | Authenticating \<Rightarrow> authenticating_event ev m
      | Resubscribing \<Rightarrow> resubscribing_event ev m
      | Open \<Rightarrow> open_event ev m
      | BackingOff \<Rightarrow> backing_off_event ev m
      | Closing \<Rightarrow> closing_event ev m
      | Closed \<Rightarrow> m
      | Failed \<Rightarrow> failed_event ev m)"

end
