(* ===== verification/Connection_Invariants.thy ===== *)
theory Connection_Invariants
  imports Connection_Fsm
begin

text \<open>
  The invariants of the connection state machine: which states hold a socket, requests and
  watchdog timers. Operations that only read the clock and append to the trace are \<open>quiet\<close>; the
  other helpers are read through their fields.
\<close>

section \<open>Operations that only read the clock and act outwards\<close>

definition quiet :: "(managed_connection \<Rightarrow> managed_connection) \<Rightarrow> bool" where
  "quiet f \<longleftrightarrow> (\<forall>m. \<exists>c t. clock_reads m \<le> c \<and> f m = m\<lparr>clock_reads := c, trace := trace m @ t\<rparr>)"

lemma quietD: "quiet f \<Longrightarrow> \<exists>c t. clock_reads m \<le> c \<and> f m = m\<lparr>clock_reads := c, trace := trace m @ t\<rparr>"
  by (simp add: quiet_def)

lemma quiet_fields:
  assumes "quiet f"
  shows "mc_url (f m) = mc_url m" "mc_state (f m) = mc_state m" "attempt_count (f m) = attempt_count m"
    "auth_handshake_fail_count (f m) = auth_handshake_fail_count m"
    "has_been_open (f m) = has_been_open m" "awaiting_token_refresh (f m) = awaiting_token_refresh m"
    "server_connection_id (f m) = server_connection_id m" "socket (f m) = socket m"
    "pending_requests (f m) = pending_requests m" "monitor (f m) = monitor m"
    "mc_knobs (f m) = mc_knobs m" "mc_clock (f m) = mc_clock m" "process_now (f m) = process_now m"
    "jitter_state (f m) = jitter_state m" "sockets_opened (f m) = sockets_opened m"
    "rate_budget (f m) = rate_budget m" "timers (f m) = timers m"
    "subscribe_ack_attempts (f m) = subscribe_ack_attempts m"
    "pending_connect_request_id (f m) = pending_connect_request_id m"
    "pending_close_request_id (f m) = pending_close_request_id m"
    "pending_reconnect_request_id (f m) = pending_reconnect_request_id m"
    "additional_close_request_ids (f m) = additional_close_request_ids m"
    "additional_connect_request_ids (f m) = additional_connect_request_ids m"
    "deferred_open_auth_subscribes (f m) = deferred_open_auth_subscribes m"
    "next_subscribe_req_id_field (f m) = next_subscribe_req_id_field m"
    "pending_subscribe_req_ids (f m) = pending_subscribe_req_ids m"
    "subscribe_req_id_by_key (f m) = subscribe_req_id_by_key m"
    "clock_reads m \<le> clock_reads (f m)"
  using quietD [OF assms, of m] by auto

lemma quietI:
  "(\<And>m. clock_reads m \<le> c m) \<Longrightarrow> (\<And>m. f m = m\<lparr>clock_reads := c m, trace := trace m @ t m\<rparr>) \<Longrightarrow> quiet f"
  unfolding quiet_def by blast

lemma quiet_tick: "quiet tick"
proof (rule quietI)
  show "tick m = m\<lparr>clock_reads := Suc (clock_reads m), trace := trace m @ []\<rparr>" for m
    by (cases m) (simp add: tick_def)
qed simp

lemma quiet_act: "quiet (act e)"
proof (rule quietI)
  show "act e m = m\<lparr>clock_reads := clock_reads m, trace := trace m @ [e]\<rparr>" for m
    by (cases m) (simp add: act_def)
qed simp

lemma quiet_id: "quiet (\<lambda>m. m)"
proof (rule quietI)
  show "m = m\<lparr>clock_reads := clock_reads m, trace := trace m @ []\<rparr>" for m
    by (cases m) simp
qed simp

lemma quiet_comp:
  assumes "\<And>m. quiet (f m)" and "quiet g"
  shows "quiet (\<lambda>m. f m (g m))"
  unfolding quiet_def
proof
  fix m
  obtain c t where "clock_reads m \<le> c" "g m = m\<lparr>clock_reads := c, trace := trace m @ t\<rparr>"
    using quietD [OF assms(2)] by blast
  moreover obtain c' t' where "clock_reads (g m) \<le> c'" "f m (g m) = (g m)\<lparr>clock_reads := c', trace := trace (g m) @ t'\<rparr>"
    using quietD [OF assms(1)] by blast
  ultimately have "clock_reads m \<le> c'" "f m (g m) = m\<lparr>clock_reads := c', trace := trace m @ t @ t'\<rparr>" by simp_all
  then show "\<exists>c t. clock_reads m \<le> c \<and> f m (g m) = m\<lparr>clock_reads := c, trace := trace m @ t\<rparr>" by blast
qed

lemma quiet_publish: "quiet (publish v rid p)"
  unfolding publish_def
  using quiet_comp [where g = tick and f = "\<lambda>m. act (Published
    \<lparr>env_version = v, env_timestamp = now_of m, env_request_id = rid, env_payload = p\<rparr>)",
    OF quiet_act quiet_tick] .

lemma quiet_emit: "quiet (emit_lifecycle p rid)"
  unfolding emit_lifecycle_def by (rule quiet_publish)

lemma quiet_emit_of: "quiet (\<lambda>m. emit_lifecycle (p m) (rid m) m)"
  using quiet_comp [where g = "\<lambda>m. m" and f = "\<lambda>m. emit_lifecycle (p m) (rid m)", OF quiet_emit quiet_id] .

lemma quiet_emit_timed: "quiet (emit_timed f rid)"
  unfolding emit_timed_def
  using quiet_comp [where g = tick and f = "\<lambda>m. emit_lifecycle (f (now_of m)) rid", OF quiet_emit quiet_tick] .

lemma quiet_emit_timed_of: "quiet (\<lambda>m. emit_timed (f m) rid m)"
  using quiet_comp [where g = "\<lambda>m. m" and f = "\<lambda>m. emit_timed (f m) rid", OF quiet_emit_timed quiet_id] .

lemma quiet_fold: "(\<And>x. quiet (g x)) \<Longrightarrow> quiet (fold g xs)"
proof (induction xs)
  case Nil
  then show ?case by (simp add: quiet_id id_def)
next
  case (Cons x xs)
  then have "quiet (fold g xs)" by blast
  then have "quiet (\<lambda>m. fold g xs (g x m))"
    using quiet_comp [where f = "\<lambda>_. fold g xs" and g = "g x"] Cons.prems by blast
  then show ?case by (simp add: comp_def)
qed

lemma quiet_ops:
  "quiet (drain_step cause p)" "quiet (emit_rate_throttled rid e)"
  "quiet (emit_attempt_failed due cls ke hs cc)" "quiet (emit_open_or_reopened b n rid)"
  "quiet emit_stale" "quiet (emit_auth_failed ntc r)" "quiet (emit_closed ack q)"
proof -
  show "quiet (drain_step cause p)"
  proof -
    obtain err reason where r: "drain_resolve cause = (err, reason)" by fastforce
    show ?thesis
      unfolding drain_step_def r prod.case Let_def
      using quiet_comp [where g = "act (Resolved (p_req_id p) (Inl err))" and
        f = "\<lambda>_. publish 1 None (WsRequestFailedEvent (p_req_id p) (p_op p) reason)", OF quiet_publish quiet_act] .
  qed
  show "quiet (emit_rate_throttled rid e)" unfolding emit_rate_throttled_def by (rule quiet_emit_of)
  show "quiet (emit_attempt_failed due cls ke hs cc)"
    unfolding emit_attempt_failed_def by (rule quiet_emit_timed_of)
  have "emit_open_or_reopened b n rid = (\<lambda>m. emit_timed (if b then (\<lambda>now. ConnectionReopenedEvent (mc_url m) now n)
      else (\<lambda>now. ConnectionOpenEvent (mc_url m) now (server_connection_id m))) rid m)"
    by (simp add: emit_open_or_reopened_def fun_eq_iff)
  then show "quiet (emit_open_or_reopened b n rid)" by (simp only: quiet_emit_timed_of)
  show "quiet emit_stale" unfolding emit_stale_def by (rule quiet_emit_of)
  show "quiet (emit_auth_failed ntc r)" unfolding emit_auth_failed_def by (rule quiet_emit_of)
  show "quiet (emit_closed ack q)" unfolding emit_closed_def by (rule quiet_emit_timed_of)
qed

lemma quiet_send_close_frame: "quiet send_close_frame"
  unfolding quiet_def
proof
  fix m
  show "\<exists>c t. clock_reads m \<le> c \<and> send_close_frame m = m\<lparr>clock_reads := c, trace := trace m @ t\<rparr>"
    using quietD [OF quiet_id, of m] quietD [OF quiet_act, of m]
    by (cases "socket m") (simp_all add: send_close_frame_def)
qed

lemmas quiet_rules [simp] =
  quiet_fields [OF quiet_tick] quiet_fields [OF quiet_act] quiet_fields [OF quiet_publish]
  quiet_fields [OF quiet_emit] quiet_fields [OF quiet_emit_timed] quiet_fields [OF quiet_ops(1)]
  quiet_fields [OF quiet_ops(2)] quiet_fields [OF quiet_ops(3)] quiet_fields [OF quiet_ops(4)]
  quiet_fields [OF quiet_ops(5)] quiet_fields [OF quiet_ops(6)] quiet_fields [OF quiet_ops(7)]
  quiet_fields [OF quiet_send_close_frame]
section \<open>Helpers seen through their fields\<close>

lemma drain_shape: "\<exists>f. quiet f \<and> drain cause m = f (m\<lparr>pending_requests := []\<rparr>)"
proof (cases "pending_requests m = []")
  case True
  then have "drain cause m = m\<lparr>pending_requests := []\<rparr>" by (cases m) (simp add: drain_def)
  then show ?thesis using quiet_id by blast
next
  case False
  then have "drain cause m = fold (drain_step cause) (sort_key p_req_id (map snd (pending_requests m)))
      (m\<lparr>pending_requests := []\<rparr>)" by (simp add: drain_def)
  moreover have "quiet (fold (drain_step cause) (sort_key p_req_id (map snd (pending_requests m))))"
    by (rule quiet_fold) (rule quiet_ops)
  ultimately show ?thesis by blast
qed

lemma failed_shape:
  "\<exists>f. quiet f \<and> emit_connection_failed err tr cls m =
     f (m\<lparr>pending_connect_request_id := None, additional_connect_request_ids := []\<rparr>)"
proof -
  define ev where "ev = ConnectionFailedEvent (mc_url m) (attempt_count m) err tr cls"
  define g where "g = (if pending_connect_request_id m = None \<and> additional_connect_request_ids m = []
    then emit_lifecycle ev None
    else fold (\<lambda>rid. emit_lifecycle ev (Some rid))
      ((case pending_connect_request_id m of None \<Rightarrow> [] | Some r \<Rightarrow> [r]) @ additional_connect_request_ids m))"
  have "quiet (fold (\<lambda>rid. emit_lifecycle ev (Some rid)) xs)" for xs
    by (rule quiet_fold) (rule quiet_emit)
  then have "quiet g" by (simp only: g_def quiet_emit split: if_split) simp
  moreover have "emit_connection_failed err tr cls m =
      g (m\<lparr>pending_connect_request_id := None, additional_connect_request_ids := []\<rparr>)"
    unfolding emit_connection_failed_def Let_def g_def ev_def by simp
  ultimately show ?thesis by blast
qed

lemma drain_fields [simp]:
  "mc_url (drain c m) = mc_url m" "mc_state (drain c m) = mc_state m"
  "attempt_count (drain c m) = attempt_count m" "has_been_open (drain c m) = has_been_open m"
  "auth_handshake_fail_count (drain c m) = auth_handshake_fail_count m"
  "socket (drain c m) = socket m" "pending_requests (drain c m) = []" "monitor (drain c m) = monitor m"
  "mc_knobs (drain c m) = mc_knobs m" "rate_budget (drain c m) = rate_budget m"
  "timers (drain c m) = timers m" "sockets_opened (drain c m) = sockets_opened m"
  "pending_connect_request_id (drain c m) = pending_connect_request_id m"
  "pending_close_request_id (drain c m) = pending_close_request_id m"
  "pending_reconnect_request_id (drain c m) = pending_reconnect_request_id m"
  "additional_close_request_ids (drain c m) = additional_close_request_ids m"
  "additional_connect_request_ids (drain c m) = additional_connect_request_ids m"
  "server_connection_id (drain c m) = server_connection_id m"
  "pending_subscribe_req_ids (drain c m) = pending_subscribe_req_ids m"
  "subscribe_req_id_by_key (drain c m) = subscribe_req_id_by_key m"
  "next_subscribe_req_id_field (drain c m) = next_subscribe_req_id_field m"
  "mc_clock (drain c m) = mc_clock m" "clock_reads m \<le> clock_reads (drain c m)"
  using drain_shape [of c m] quiet_fields(28) [of _ "m\<lparr>pending_requests := []\<rparr>"] by (auto simp: quiet_fields)

lemma emit_connection_failed_fields [simp]:
  "mc_url (emit_connection_failed e t c m) = mc_url m"
  "mc_state (emit_connection_failed e t c m) = mc_state m"
  "attempt_count (emit_connection_failed e t c m) = attempt_count m"
  "has_been_open (emit_connection_failed e t c m) = has_been_open m"
  "socket (emit_connection_failed e t c m) = socket m"
  "pending_requests (emit_connection_failed e t c m) = pending_requests m"
  "monitor (emit_connection_failed e t c m) = monitor m"
  "mc_knobs (emit_connection_failed e t c m) = mc_knobs m"
  "rate_budget (emit_connection_failed e t c m) = rate_budget m"
  "timers (emit_connection_failed e t c m) = timers m"
  "sockets_opened (emit_connection_failed e t c m) = sockets_opened m"
  "pending_connect_request_id (emit_connection_failed e t c m) = None"
  "additional_connect_request_ids (emit_connection_failed e t c m) = []"
  "pending_close_request_id (emit_connection_failed e t c m) = pending_close_request_id m"
  "pending_reconnect_request_id (emit_connection_failed e t c m) = pending_reconnect_request_id m"
  "additional_close_request_ids (emit_connection_failed e t c m) = additional_close_request_ids m"
  "pending_subscribe_req_ids (emit_connection_failed e t c m) = pending_subscribe_req_ids m"
  "subscribe_req_id_by_key (emit_connection_failed e t c m) = subscribe_req_id_by_key m"
  "next_subscribe_req_id_field (emit_connection_failed e t c m) = next_subscribe_req_id_field m"
  "mc_clock (emit_connection_failed e t c m) = mc_clock m"
  "clock_reads m \<le> clock_reads (emit_connection_failed e t c m)"
  using failed_shape [of e t c m] quiet_fields(28) [of _ "m\<lparr>pending_connect_request_id := None,
    additional_connect_request_ids := []\<rparr>"] by (auto simp: quiet_fields)

lemma quiet_opens: "quiet (fold (\<lambda>r. emit_open_or_reopened b n (Some r)) rs)"
  by (rule quiet_fold) (rule quiet_ops)

lemma quiet_closes: "quiet (fold (\<lambda>rid. emit_lifecycle ev (Some rid)) rs)"
  by (rule quiet_fold) (rule quiet_emit)

lemmas fold_fields [simp] = quiet_fields [OF quiet_opens] quiet_fields [OF quiet_closes]

text \<open>The definitions whose fields the simplifier reads off directly.\<close>

lemma backoff_shape:
  "compute_backoff_due m =
     (tick (m\<lparr>jitter_state := snd (next_unit (jitter_state m))\<rparr>),
      now_of m + next_backoff (mc_knobs m) (saturating_sub (attempt_count m) 1) (fst (next_unit (jitter_state m))))"
  by (simp add: compute_backoff_due_def Let_def split_beta now_of_def)

lemmas mc_defs =
  set_timers_def disarm_staleness_def clear_subscribe_ack_state_def exit_authenticating_teardown_def
  exit_authenticating_to_closing_def exit_resubscribing_teardown_def exit_open_teardown_def
  backoff_shape arm_staleness_def arm_upgrade_timeout_def arm_close_timeout_def
  drop_entry_timers_def disarm_subscribe_ack_def forget_subscribe_req_id_for_key_def
  arm_rate_window_def enter_connecting_def back_off_attempt_failed_def back_off_dropped_def
  cap_exhausted_then_escalate_def begin_closing_def leave_open_def latch_connect_def burn_ack_budget_def
  monitor_arm_def monitor_new_def monitor_disarm_def deadline_def retry_or_escalate_def drop_or_escalate_def
section \<open>The control invariant\<close>

definition present :: "'a option \<Rightarrow> bool" where
  "present x \<longleftrightarrow> x \<noteq> None"

lemma present_simps [simp]: "\<not> present None" "present (Some x)" "present (map_option f y) = present y"
  by (simp_all add: present_def)

definition watched :: "connection_state \<Rightarrow> bool" where
  "watched s \<longleftrightarrow> s \<in> {Authenticating, Resubscribing, Open}"

definition has_socket :: "connection_state \<Rightarrow> bool" where
  "has_socket s \<longleftrightarrow> s \<in> {Connecting, Authenticating, Resubscribing, Open, Closing}"

text \<open>The invariant while the timer of \<open>ev\<close> may already have been popped.\<close>

definition mc_inv_popped :: "fsm_event option \<Rightarrow> managed_connection \<Rightarrow> bool" where
  "mc_inv_popped ev m \<longleftrightarrow>
     (present (socket m) = has_socket (mc_state m)) \<and>
     (has_socket (mc_state m) \<and> mc_state m \<noteq> Connecting \<or> pending_requests m = []) \<and>
     (armed (monitor m) = watched (mc_state m)) \<and>
     (present (last_inbound_at (monitor m)) = watched (mc_state m)) \<and>
     (present (staleness_due_at (timers m)) = watched (mc_state m) \<or>
        ev = Some TimerStalenessElapsed \<and> \<not> present (staleness_due_at (timers m))) \<and>
     (present (upgrade_timeout_due_at (timers m)) = (mc_state m = Connecting) \<or>
        ev = Some TimerUpgradeTimeout \<and> \<not> present (upgrade_timeout_due_at (timers m))) \<and>
     (present (close_timeout_due_at (timers m)) = (mc_state m = Closing) \<or>
        ev = Some TimerCloseTimeout \<and> \<not> present (close_timeout_due_at (timers m))) \<and>
     (mc_state m \<noteq> BackingOff \<or> present (backoff_due_at (timers m)) \<or>
        present (rate_budget_window_advanced_at (timers m)) \<or>
        ev = Some TimerBackoffElapsed \<or> ev = Some TimerRateBudgetWindowAdvanced)"

abbreviation mc_inv :: "managed_connection \<Rightarrow> bool" where
  "mc_inv m \<equiv> mc_inv_popped None m"

lemmas inv_defs = mc_inv_popped_def watched_def has_socket_def

lemma mc_inv_weaken: "mc_inv m \<Longrightarrow> mc_inv_popped ev m"
  by (simp add: mc_inv_popped_def) blast

lemma mc_new_inv: "mc_inv (mc_new url k rb clock pnow seed)"
  by (simp add: inv_defs mc_new_def monitor_new_def timer_set_default_def)

lemma consult_shape:
  "consult_budget m = ((tick m)\<lparr>rate_budget := fst (try_consume (now_of m) (rate_budget m))\<rparr>,
     snd (try_consume (now_of m) (rate_budget m)))"
  by (simp add: consult_budget_def split_beta Let_def)

lemma idle_event_inv: "mc_inv_popped e m \<Longrightarrow> mc_state m = Idle \<Longrightarrow> mc_inv (idle_event ev m)"
  by (cases ev) (simp_all add: inv_defs idle_event_def mc_defs consult_shape Let_def split: sum.split)

lemma failed_event_inv: "mc_inv_popped e m \<Longrightarrow> mc_state m = Failed \<Longrightarrow> mc_inv (failed_event ev m)"
  by (cases ev) (simp_all add: inv_defs failed_event_def mc_defs consult_shape Let_def split: sum.split)

lemma backing_off_event_inv:
  "mc_inv_popped (Some ev) m \<Longrightarrow> mc_state m = BackingOff \<Longrightarrow> mc_inv (backing_off_event ev m)"
  by (cases ev) (simp_all add: inv_defs backing_off_event_def mc_defs consult_shape Let_def split: sum.split option.split)

lemma connecting_event_inv:
  "mc_inv_popped (Some ev) m \<Longrightarrow> mc_state m = Connecting \<Longrightarrow> mc_inv (connecting_event ev m)"
  by (cases ev) (simp_all add: inv_defs connecting_event_def mc_defs Let_def split: ws_url.split)

lemma watched_facts:
  assumes "mc_inv_popped e m" and "watched (mc_state m)"
  shows "present (socket m)" "armed (monitor m)" "present (last_inbound_at (monitor m))"
    "\<not> present (upgrade_timeout_due_at (timers m))" "\<not> present (close_timeout_due_at (timers m))"
  using assms by (cases "mc_state m"; auto simp: inv_defs)+

text \<open>Reaching \<open>Open\<close> from a watched state, and leaving through a torn-down connection.\<close>

lemma enter_open_inv:
  assumes "mc_inv_popped e m" and "watched (mc_state m)"
  shows "mc_inv (enter_open m)"
  using watched_facts [OF assms] by (simp add: inv_defs enter_open_def mc_defs Let_def)

definition torn_down :: "managed_connection \<Rightarrow> bool" where
  "torn_down m \<longleftrightarrow> \<not> present (socket m) \<and> pending_requests m = [] \<and> \<not> armed (monitor m) \<and>
     \<not> present (last_inbound_at (monitor m)) \<and> \<not> present (staleness_due_at (timers m)) \<and>
     \<not> present (upgrade_timeout_due_at (timers m)) \<and> \<not> present (close_timeout_due_at (timers m))"

lemma torn_down_inv:
  assumes "torn_down m"
  shows "mc_inv (retry_or_escalate cls ke hs cc m)" "mc_inv (drop_or_escalate cc' r m)"
    "mc_inv (back_off_attempt_failed cls ke hs cc m)"
    "mc_inv (emit_connection_failed err tr ntc (m\<lparr>mc_state := Failed\<rparr>))"
  using assms by (simp_all add: inv_defs mc_defs torn_down_def Let_def)

lemma teardown_torn_down:
  assumes "mc_inv_popped e m" and "watched (mc_state m)"
  shows "torn_down (exit_authenticating_teardown m)" "torn_down (exit_resubscribing_teardown m)"
    "torn_down (leave_open m)"
  using watched_facts [OF assms] by (simp_all add: mc_defs torn_down_def)

lemma subscribe_failure_inv:
  assumes inv: "mc_inv_popped e m" and w: "watched (mc_state m)" and ev: "e \<noteq> Some TimerStalenessElapsed"
  shows "mc_inv (handle_subscribe_failure ch p tr err m)"
proof -
  define m1 where "m1 = forget_subscribe_req_id_for_key (ch, p) (drop_entry_timers (ch, p) m)"
  have same: "mc_state m1 = mc_state m" "socket m1 = socket m" "pending_requests m1 = pending_requests m"
    "monitor m1 = monitor m" "staleness_due_at (timers m1) = staleness_due_at (timers m)"
    "upgrade_timeout_due_at (timers m1) = upgrade_timeout_due_at (timers m)"
    "close_timeout_due_at (timers m1) = close_timeout_due_at (timers m)"
    by (simp_all add: m1_def mc_defs split: option.split)
  have facts: "present (socket m1)" "armed (monitor m1)" "present (last_inbound_at (monitor m1))"
    "\<not> present (upgrade_timeout_due_at (timers m1))" "\<not> present (close_timeout_due_at (timers m1))"
    "watched (mc_state m1)" "present (staleness_due_at (timers m1))"
    using watched_facts [OF inv w] w inv ev by (simp_all add: same) (simp add: mc_inv_popped_def)
  show ?thesis
  proof (cases tr)
    case False
    define m2 where "m2 = m1\<lparr>subscribe_ack_attempts := hm_remove (ch, p) (subscribe_ack_attempts m1)\<rparr>"
    have inv2: "mc_inv (act x (tick m2))" for x
      using facts by (auto simp: inv_defs m2_def)
    have "handle_subscribe_failure ch p tr err m = complete_resubscribe_if_empty (act (Published
        \<lparr>env_version = 2, env_timestamp = now_of m2, env_request_id = None,
         env_payload = SubscriptionTerminatedEvent ch p NonTransientWireRejection err (now_of m2)\<rparr>) (tick m2))"
      using False by (simp add: handle_subscribe_failure_def m1_def [symmetric] m2_def [symmetric] Let_def)
    moreover have "mc_inv (complete_resubscribe_if_empty (act x (tick m2)))" for x
      using inv2 enter_open_inv [OF inv2] facts(6)
      by (simp add: complete_resubscribe_if_empty_def m2_def)
    ultimately show ?thesis by simp
  next
    case True
    define m2 where "m2 = fst (burn_ack_budget (ch, p) m1)"
    have facts2: "present (socket m2)" "armed (monitor m2)" "present (last_inbound_at (monitor m2))"
      "\<not> present (upgrade_timeout_due_at (timers m2))" "\<not> present (close_timeout_due_at (timers m2))"
      "watched (mc_state m2)" "present (staleness_due_at (timers m2))"
      using facts by (simp_all add: m2_def burn_ack_budget_def Let_def)
    have td: "torn_down (exit_resubscribing_teardown m2)"
      using facts2 by (simp add: mc_defs torn_down_def)
    have "handle_subscribe_failure ch p tr err m =
      (if snd (burn_ack_budget (ch, p) m1) > 0
       then set_timers (\<lambda>t. t\<lparr>per_entry_subscribe_resend_due := hm_insert (ch, p)
              (now_of m2 + RESEND_BACKOFF) (per_entry_subscribe_resend_due t)\<rparr>) (tick m2)
       else if mc_state (exit_resubscribing_teardown m2) = Open
       then drop_or_escalate None (Some (SubscribeBudgetText (ch, p))) (exit_resubscribing_teardown m2)
       else back_off_attempt_failed SubscribeBudgetExhausted (Some (SubscribeBudgetText (ch, p))) None None
              (exit_resubscribing_teardown m2))"
      using True by (simp add: handle_subscribe_failure_def m1_def [symmetric] m2_def Let_def split_beta
          drop_or_escalate_def)
    then show ?thesis
      using facts2 torn_down_inv [OF td] by (auto simp: inv_defs set_timers_def)
  qed
qed
lemma popped_keep:
  assumes "mc_inv_popped (Some ev) m" and "watched (mc_state m)" and "ev \<noteq> TimerStalenessElapsed"
  shows "mc_inv m"
  using watched_facts [OF assms(1,2)] assms(2,3) assms(1) by (auto simp: mc_inv_popped_def watched_def)

text \<open>A step that touches none of the fields the invariant reads.\<close>

lemma mc_inv_cong:
  assumes "mc_state m' = mc_state m" "socket m' = socket m" "pending_requests m' = pending_requests m"
    "monitor m' = monitor m" "staleness_due_at (timers m') = staleness_due_at (timers m)"
    "upgrade_timeout_due_at (timers m') = upgrade_timeout_due_at (timers m)"
    "close_timeout_due_at (timers m') = close_timeout_due_at (timers m)"
    "backoff_due_at (timers m') = backoff_due_at (timers m)"
    "rate_budget_window_advanced_at (timers m') = rate_budget_window_advanced_at (timers m)"
  shows "mc_inv_popped e m' = mc_inv_popped e m"
  by (simp only: mc_inv_popped_def assms)

lemma stale_emit_inv: "mc_inv_popped e (emit_stale m) = mc_inv_popped e m"
  by (rule mc_inv_cong) simp_all

lemma disarm_ack_inv: "mc_inv_popped e (disarm_subscribe_ack k m) = mc_inv_popped e m"
  by (rule mc_inv_cong) (simp_all add: mc_defs Let_def split: option.split)

lemma disarm_ack_state [simp]: "mc_state (disarm_subscribe_ack k m) = mc_state m"
  by (simp add: mc_defs Let_def split: option.split)

text \<open>Leaving a watched state for \<open>Closing\<close> with the socket kept.\<close>

lemma closing_entry_inv:
  assumes "mc_inv_popped e m" and "watched (mc_state m)"
  shows "mc_inv ((begin_closing m)\<lparr>pending_close_request_id := rid\<rparr>)"
    "mc_inv ((begin_closing m)\<lparr>pending_reconnect_request_id := rid\<rparr>)"
    "mc_inv (send_close_frame ((begin_closing m)\<lparr>pending_close_request_id := rid\<rparr>))"
    "mc_inv (send_close_frame ((begin_closing m)\<lparr>pending_reconnect_request_id := rid\<rparr>))"
    "mc_inv ((arm_close_timeout ((exit_authenticating_to_closing m)\<lparr>mc_state := Closing\<rparr>))
       \<lparr>pending_close_request_id := rid\<rparr>)"
    "mc_inv ((arm_close_timeout ((exit_authenticating_to_closing m)\<lparr>mc_state := Closing\<rparr>))
       \<lparr>pending_reconnect_request_id := rid\<rparr>)"
  using watched_facts [OF assms] by (simp_all add: inv_defs mc_defs)

lemma auth_failed_inv: "mc_inv_popped e (emit_auth_failed c r m) = mc_inv_popped e m"
  by (rule mc_inv_cong) simp_all

lemma resubscribing_event_inv:
  assumes inv: "mc_inv_popped (Some ev) m" and s: "mc_state m = Resubscribing"
  shows "mc_inv (resubscribing_event ev m)"
proof -
  have w: "watched (mc_state m)" using s by (simp add: watched_def)
  note keep = popped_keep [OF inv w]
  note td = teardown_torn_down [OF inv w]
  have stale: "torn_down (exit_resubscribing_teardown (emit_stale m))"
    using inv w by (intro teardown_torn_down) (simp_all add: stale_emit_inv)
  have flag: "mc_inv (m\<lparr>awaiting_token_refresh := b\<rparr>) = mc_inv m" for b
    by (rule mc_inv_cong) simp_all
  have ack: "mc_inv (enter_open (disarm_subscribe_ack k m))" for k
    using inv w by (intro enter_open_inv [of "Some ev"]) (simp_all add: disarm_ack_inv)
  show ?thesis
    by (cases ev) (simp_all add: resubscribing_event_def Let_def keep ack disarm_ack_inv flag
        closing_entry_inv [OF inv w] torn_down_inv [OF td(2)] torn_down_inv [OF stale]
        subscribe_failure_inv [OF inv w])
qed

lemma open_event_inv:
  assumes inv: "mc_inv_popped (Some ev) m" and s: "mc_state m = Open"
  shows "mc_inv (open_event ev m)"
proof -
  have w: "watched (mc_state m)" using s by (simp add: watched_def)
  note keep = popped_keep [OF inv w]
  note td = teardown_torn_down [OF inv w]
  have stale: "torn_down (leave_open (emit_stale m))"
    using inv w by (intro teardown_torn_down) (simp_all add: stale_emit_inv)
  have drained: "mc_inv_popped (Some ev) (drain c m)" for c
    using inv s by (simp add: inv_defs)
  have flag: "mc_inv (m\<lparr>awaiting_token_refresh := b\<rparr>) = mc_inv m" for b
    by (rule mc_inv_cong) simp_all
  show ?thesis
    using w
    by (cases ev) (simp_all add: open_event_def Let_def keep disarm_ack_inv flag
        closing_entry_inv [OF drained] torn_down_inv [OF td(3)] torn_down_inv [OF stale]
        subscribe_failure_inv [OF inv w])
qed

lemma authenticating_event_inv:
  assumes inv: "mc_inv_popped (Some ev) m" and s: "mc_state m = Authenticating"
  shows "mc_inv (authenticating_event ev m)"
proof -
  have w: "watched (mc_state m)" using s by (simp add: watched_def)
  note keep = popped_keep [OF inv w] and W = watched_facts [OF inv w]
  note td = teardown_torn_down [OF inv w]
  have stale: "torn_down (exit_authenticating_teardown (emit_stale m))"
    using inv w by (intro teardown_torn_down) (simp_all add: stale_emit_inv)
  have flag: "mc_inv (m\<lparr>awaiting_token_refresh := b\<rparr>) = mc_inv m" for b
    by (rule mc_inv_cong) simp_all
  have ok: "mc_inv (m\<lparr>awaiting_token_refresh := False, auth_handshake_fail_count := 0, mc_state := Resubscribing\<rparr>)"
    if "ev \<noteq> TimerStalenessElapsed"
    using keep [OF that] W s by (auto simp: inv_defs)
  have order: "mc_inv (enter_open (clear_subscribe_ack_state
      (m\<lparr>awaiting_token_refresh := False, auth_handshake_fail_count := 0\<rparr>)))"
  proof (rule enter_open_inv)
    show "mc_inv_popped (Some ev) (clear_subscribe_ack_state
        (m\<lparr>awaiting_token_refresh := False, auth_handshake_fail_count := 0\<rparr>))"
      using inv by (subst mc_inv_cong [of _ m]) (simp_all add: mc_defs)
  qed (use w in \<open>simp add: mc_defs\<close>)
  have token: "mc_inv (token_stale_event m)" if "ev \<noteq> TimerStalenessElapsed"
  proof -
    let ?m = "m\<lparr>auth_handshake_fail_count := saturating_add (auth_handshake_fail_count m) 1\<rparr>"
    have inv1: "mc_inv ?m" using keep [OF that] by (subst mc_inv_cong [of _ m]) simp_all
    have "mc_inv (?m\<lparr>awaiting_token_refresh := True, attempt_count := n\<rparr>)" for n
      using keep [OF that] by (subst mc_inv_cong [of _ m]) simp_all
    moreover have "torn_down (exit_authenticating_teardown ?m)"
      using inv1 w by (intro teardown_torn_down) simp_all
    ultimately show ?thesis
      by (simp add: token_stale_event_def Let_def auth_failed_inv torn_down_inv(4))
  qed
  have rejected: "mc_inv (auth_rejected_event kind m)" for kind
    using torn_down_inv(4) [OF td(1)] by (simp add: auth_rejected_event_def Let_def auth_failed_inv)
  show ?thesis
    by (cases ev) (simp_all add: authenticating_event_def Let_def keep flag ok order token rejected
        auth_failed_inv closing_entry_inv [OF inv w] torn_down_inv [OF td(1)] torn_down_inv [OF stale]
        subscribe_failure_inv [OF inv w] split: auth_error_kind.split)
qed

lemma reenter_inv:
  assumes "pending_requests m = []" "\<not> armed (monitor m)" "\<not> present (last_inbound_at (monitor m))"
    "\<not> present (staleness_due_at (timers m))" "\<not> present (upgrade_timeout_due_at (timers m))"
    "\<not> present (close_timeout_due_at (timers m))"
  shows "mc_inv (reenter_connecting rid m)"
  using assms by (simp add: reenter_connecting_def consult_shape inv_defs mc_defs Let_def split: sum.split)

lemma closing_event_inv:
  assumes inv: "mc_inv_popped (Some ev) m" and s: "mc_state m = Closing"
  shows "mc_inv (closing_event ev m)"
proof -
  have facts: "present (socket m)" "\<not> armed (monitor m)" "\<not> present (last_inbound_at (monitor m))"
    "\<not> present (staleness_due_at (timers m))" "\<not> present (upgrade_timeout_due_at (timers m))"
    using inv s by (auto simp: inv_defs)
  have finished: "mc_inv (enter_closed_or_reconnect r a m)" for r a
  proof (cases "pending_reconnect_request_id m")
    case None
    with facts show ?thesis by (simp add: enter_closed_or_reconnect_def inv_defs mc_defs Let_def)
  next
    case (Some rid)
    with facts show ?thesis
      by (simp add: enter_closed_or_reconnect_def mc_defs Let_def reenter_inv)
  qed
  have keep: "mc_inv m" if "ev \<noteq> TimerCloseTimeout"
    using inv s that by (auto simp: inv_defs)
  have latched: "mc_inv (m\<lparr>additional_close_request_ids := x\<rparr>) = mc_inv m"
    "mc_inv (m\<lparr>pending_close_request_id := y\<rparr>) = mc_inv m"
    "mc_inv (m\<lparr>additional_connect_request_ids := x\<rparr>) = mc_inv m"
    "mc_inv (m\<lparr>pending_reconnect_request_id := y\<rparr>) = mc_inv m" for x y
    by (rule mc_inv_cong; simp)+
  show ?thesis
    by (cases ev) (simp_all add: closing_event_def finished keep latched split: option.split)
qed

lemma handle_event_inv: "mc_inv_popped (Some ev) m \<Longrightarrow> mc_inv (handle_event ev m)"
proof -
  assume inv: "mc_inv_popped (Some ev) m"
  have rest: "mc_inv m" if "mc_state m = Closed" using inv that by (auto simp: inv_defs)
  show ?thesis
    by (cases "mc_state m") (simp_all add: handle_event_def rest idle_event_inv [OF inv] failed_event_inv [OF inv]
        backing_off_event_inv [OF inv] connecting_event_inv [OF inv] authenticating_event_inv [OF inv]
        resubscribing_event_inv [OF inv] open_event_inv [OF inv] closing_event_inv [OF inv])
qed

lemma pop_inv: "mc_inv m \<Longrightarrow> mc_inv_popped (Some ev) (pop_timer_for_event ev m)"
proof -
  assume inv: "mc_inv m"
  show ?thesis
  proof (cases "ev \<in> {TimerBackoffElapsed, TimerStalenessElapsed, TimerUpgradeTimeout, TimerCloseTimeout,
      TimerRateBudgetWindowAdvanced}")
    case True
    then show ?thesis
      using inv by (elim insertE emptyE; simp add: mc_inv_popped_def pop_timer_for_event_def set_timers_def)
  next
    case False
    have "mc_inv_popped (Some ev) (pop_timer_for_event ev m) = mc_inv_popped (Some ev) m"
      using False by (intro mc_inv_cong) (simp_all add: pop_timer_for_event_def set_timers_def split: fsm_event.split)
    with mc_inv_weaken [OF inv] show ?thesis by simp
  qed
qed

end
