(* ===== verification/Connection_Properties.thy ===== *)
theory Connection_Properties
  imports Connection_Invariants
begin

text \<open>
  Runs of a connection, as sequences of events, timer expiries and calls, and two guarantees of
  every run: the control invariant of each state, and the accounting of order requests, each of
  which is resolved exactly once.
\<close>

section \<open>Runs of a connection\<close>

text \<open>What the reactor does to a connection: it delivers events and fired timers, forwards order
  requests when the connection admits them, resolves and fails them, and keeps the subscribe
  bookkeeping. A request is admitted only on an open connection or as the authentication probe.\<close>

datatype mc_op =
    OpEvent fsm_event
  | OpTimer fsm_event
  | OpRequest pending_request
  | OpResponse ws_response
  | OpFail u64 connection_error
  | OpDrainOne u64
  | OpInbound
  | OpSubscribeSent sub_key instant
  | OpSendFailed sub_key
  | OpDisarmAck sub_key
  | OpArmReseed sub_key instant
  | OpDisarmReseed sub_key
  | OpArmToken instant
  | OpDisarmToken
  | OpDefer sub_key subscribe_params
  | OpRemoveDeferred sub_key
  | OpDrainDeferred
  | OpAwaiting bool
  | OpCompleteIfEmpty
  | OpKnobs knobs

definition admits_request :: "managed_connection \<Rightarrow> bool" where
  "admits_request m \<longleftrightarrow> mc_state m = Open \<or> mc_state m = Authenticating"

fun mc_step :: "mc_op \<Rightarrow> managed_connection \<Rightarrow> managed_connection" where
  "mc_step (OpEvent ev) m = handle_event ev m"
| "mc_step (OpTimer ev) m = handle_event ev (pop_timer_for_event ev m)"
| "mc_step (OpRequest p) m = (if admits_request m then record_pending_request p m else m)"
| "mc_step (OpResponse r) m = resolve_pending_request r m"
| "mc_step (OpFail i err) m = fail_pending_request i err m"
| "mc_step (OpDrainOne i) m = drain_one_retryable i m"
| "mc_step OpInbound m = note_inbound_activity m"
| "mc_step (OpSubscribeSent k due) m =
     (let (m1, i) = next_subscribe_req_id m in arm_subscribe_ack k due (record_subscribe_req_id i k m1))"
| "mc_step (OpSendFailed k) m =
     (if watched (mc_state m) then handle_subscribe_failure (fst k) (snd k) True None m else m)"
| "mc_step (OpDisarmAck k) m = disarm_subscribe_ack k m"
| "mc_step (OpArmReseed k due) m = arm_book_reseed_snapshot k due m"
| "mc_step (OpDisarmReseed k) m = disarm_book_reseed_snapshot k m"
| "mc_step (OpArmToken due) m = arm_token_refresh due m"
| "mc_step OpDisarmToken m = disarm_token_refresh m"
| "mc_step (OpDefer k params) m = defer_open_auth_subscribe k params m"
| "mc_step (OpRemoveDeferred k) m = remove_deferred_open_auth_subscribe k m"
| "mc_step OpDrainDeferred m = fst (drain_deferred_open_auth_subscribes m)"
| "mc_step (OpAwaiting b) m = m\<lparr>awaiting_token_refresh := b\<rparr>"
| "mc_step OpCompleteIfEmpty m = complete_resubscribe_if_empty m"
| "mc_step (OpKnobs k) m = m\<lparr>mc_knobs := k\<rparr>"

definition mc_run :: "mc_op list \<Rightarrow> managed_connection \<Rightarrow> managed_connection" where
  "mc_run ops m = fold mc_step ops m"

lemmas book_keeping_defs =
  resolve_pending_request_def fail_pending_request_def drain_one_retryable_def next_subscribe_req_id_def
  record_subscribe_req_id_def arm_subscribe_ack_def arm_book_reseed_snapshot_def disarm_book_reseed_snapshot_def
  arm_token_refresh_def disarm_token_refresh_def defer_open_auth_subscribe_def
  remove_deferred_open_auth_subscribe_def drain_deferred_open_auth_subscribes_def

lemma pending_shrinks_inv:
  assumes "mc_inv m" and "hm_get (pending_requests m) i = Some p"
  shows "mc_inv (m\<lparr>pending_requests := x\<rparr>)"
  using assms by (auto simp: mc_inv_popped_def)

lemma act_inv: "mc_inv_popped e (act x m) = mc_inv_popped e m"
  by (rule mc_inv_cong) simp_all

lemma publish_inv: "mc_inv_popped e (publish v r p m) = mc_inv_popped e m"
  by (rule mc_inv_cong) simp_all

lemma inbound_inv: "mc_inv m \<Longrightarrow> mc_inv (note_inbound_activity m)"
  by (cases "watched (mc_state m)")
    (auto simp: mc_inv_popped_def note_inbound_activity_def note_inbound_def deadline_def set_timers_def Let_def)

lemma mc_step_inv:
  assumes inv: "mc_inv m"
  shows "mc_inv (mc_step op m)"
proof (cases op)
  case (OpEvent ev)
  then show ?thesis using handle_event_inv [OF mc_inv_weaken [OF inv]] by simp
next
  case (OpTimer ev)
  then show ?thesis using handle_event_inv [OF pop_inv [OF inv]] by simp
next
  case (OpRequest p)
  then show ?thesis
    using inv by (auto simp: admits_request_def record_pending_request_def inv_defs)
next
  case (OpResponse r)
  then show ?thesis
    using inv pending_shrinks_inv [OF inv]
    by (simp add: resolve_pending_request_def act_inv split: option.split)
next
  case (OpFail i err)
  then show ?thesis
    using inv pending_shrinks_inv [OF inv]
    by (simp add: fail_pending_request_def act_inv split: option.split)
next
  case (OpDrainOne i)
  then show ?thesis
    using inv pending_shrinks_inv [OF inv]
    by (simp add: drain_one_retryable_def act_inv publish_inv split: option.split)
next
  case OpInbound
  then show ?thesis using inbound_inv [OF inv] by simp
next
  case (OpSendFailed k)
  then show ?thesis using inv subscribe_failure_inv [OF inv] by simp
next
  case OpCompleteIfEmpty
  then show ?thesis
    using inv enter_open_inv [OF inv] by (simp add: complete_resubscribe_if_empty_def watched_def)
qed (use inv in \<open>subst mc_inv_cong [of _ m]; simp add: book_keeping_defs mc_defs Let_def split: option.split\<close>)+

lemma mc_run_inv: "mc_inv m \<Longrightarrow> mc_inv (mc_run ops m)"
  unfolding mc_run_def by (induction ops arbitrary: m) (simp_all add: mc_step_inv)

section \<open>The control invariant of a run\<close>


section \<open>Accounts of the order requests\<close>

text \<open>What the accounting of order requests sees of a connection: the requests in flight and the
  resolutions handed out so far.\<close>

fun is_resolved :: "effect \<Rightarrow> bool" where
  "is_resolved (Resolved i r) = True"
| "is_resolved _ = False"

definition acct :: "managed_connection \<Rightarrow> (u64, pending_request) hashmap \<times> effect list" where
  "acct m = (pending_requests m, filter is_resolved (trace m))"

definition drain_acct :: "drain_cause \<Rightarrow> (u64, pending_request) hashmap \<times> effect list \<Rightarrow>
    (u64, pending_request) hashmap \<times> effect list" where
  "drain_acct c = (\<lambda>(ps, t). ([], t @ map (\<lambda>p. Resolved (p_req_id p) (Inl (fst (drain_resolve c))))
     (sort_key p_req_id (map snd ps))))"

lemma acct_update [simp]:
  "acct (m\<lparr>mc_state := a1\<rparr>) = acct m" "acct (m\<lparr>attempt_count := a2\<rparr>) = acct m"
  "acct (m\<lparr>auth_handshake_fail_count := a2\<rparr>) = acct m" "acct (m\<lparr>has_been_open := b\<rparr>) = acct m"
  "acct (m\<lparr>awaiting_token_refresh := b\<rparr>) = acct m" "acct (m\<lparr>server_connection_id := a3\<rparr>) = acct m"
  "acct (m\<lparr>socket := a4\<rparr>) = acct m" "acct (m\<lparr>monitor := a5\<rparr>) = acct m" "acct (m\<lparr>mc_knobs := a6\<rparr>) = acct m"
  "acct (m\<lparr>clock_reads := a7\<rparr>) = acct m" "acct (m\<lparr>jitter_state := a8\<rparr>) = acct m"
  "acct (m\<lparr>sockets_opened := a9\<rparr>) = acct m" "acct (m\<lparr>rate_budget := c1\<rparr>) = acct m"
  "acct (m\<lparr>timers := c2\<rparr>) = acct m" "acct (m\<lparr>subscribe_ack_attempts := c3\<rparr>) = acct m"
  "acct (m\<lparr>pending_connect_request_id := a3\<rparr>) = acct m" "acct (m\<lparr>pending_close_request_id := a3\<rparr>) = acct m"
  "acct (m\<lparr>pending_reconnect_request_id := a3\<rparr>) = acct m"
  "acct (m\<lparr>additional_close_request_ids := c4\<rparr>) = acct m"
  "acct (m\<lparr>additional_connect_request_ids := c4\<rparr>) = acct m"
  "acct (m\<lparr>deferred_open_auth_subscribes := c5\<rparr>) = acct m"
  "acct (m\<lparr>next_subscribe_req_id_field := a8\<rparr>) = acct m"
  "acct (m\<lparr>pending_subscribe_req_ids := c6\<rparr>) = acct m" "acct (m\<lparr>subscribe_req_id_by_key := c7\<rparr>) = acct m"
  by (simp_all add: acct_def)

lemma acct_act [simp]: "\<not> is_resolved e \<Longrightarrow> acct (act e m) = acct m"
  by (simp add: acct_def act_def)

lemma acct_emit [simp]:
  "acct (tick m) = acct m" "acct (publish v rid p m) = acct m" "acct (emit_lifecycle p rid m) = acct m"
  "acct (emit_timed f rid m) = acct m" "acct (emit_rate_throttled rid e m) = acct m"
  "acct (emit_attempt_failed due cls ke hs cc m) = acct m" "acct (emit_open_or_reopened b n rid m) = acct m"
  "acct (emit_stale m) = acct m" "acct (emit_auth_failed ntc r m) = acct m" "acct (emit_closed ack q m) = acct m"
  "acct (send_close_frame m) = acct m" 
proof -
  show tick: "acct (tick m) = acct m" for m by (simp add: tick_def)
  show pub: "acct (publish v rid p m) = acct m" for v rid p m by (simp add: publish_def tick)
  note emits = emit_lifecycle_def emit_timed_def pub tick
  show "acct (emit_lifecycle p rid m) = acct m" "acct (emit_timed f rid m) = acct m"
    "acct (emit_rate_throttled rid e m) = acct m" "acct (emit_attempt_failed due cls ke hs cc m) = acct m"
    "acct (emit_open_or_reopened b n rid m) = acct m" "acct (emit_stale m) = acct m"
    "acct (emit_auth_failed ntc r m) = acct m" "acct (emit_closed ack q m) = acct m"
    by (simp_all add: emits emit_rate_throttled_def emit_attempt_failed_def emit_open_or_reopened_def
        emit_stale_def emit_auth_failed_def emit_closed_def)
  show "acct (send_close_frame m) = acct m" by (simp add: send_close_frame_def split: option.split)
qed

lemma acct_fold: "(\<And>x m. acct (f x m) = acct m) \<Longrightarrow> acct (fold f xs m) = acct m"
  by (induction xs arbitrary: m) simp_all

lemma acct_failed [simp]: "acct (emit_connection_failed e tr c m) = acct m"
  by (simp add: emit_connection_failed_def Let_def acct_fold)

lemma acct_drain [simp]: "acct (drain c m) = drain_acct c (acct m)"
proof -
  have step: "acct (drain_step c p m) = (fst (acct m), snd (acct m) @ [Resolved (p_req_id p) (Inl (fst (drain_resolve c)))])"
    for p m
    by (simp add: drain_step_def split_beta Let_def) (simp add: acct_def act_def)
  have "acct (fold (drain_step c) ps m) =
      (fst (acct m), snd (acct m) @ map (\<lambda>p. Resolved (p_req_id p) (Inl (fst (drain_resolve c)))) ps)" for ps m
    by (induction ps arbitrary: m) (simp_all add: step)
  then show ?thesis by (simp add: drain_def drain_acct_def) (simp add: acct_def)
qed

lemma acct_enter_open [simp]: "acct (enter_open m) = acct m"
  by (simp add: enter_open_def arm_staleness_def set_timers_def Let_def acct_fold)

lemma acct_reenter [simp]: "acct (reenter_connecting rid m) = acct m"
  by (simp add: reenter_connecting_def consult_shape mc_defs Let_def split: sum.split)

lemma acct_subscribe_failure:
  "acct (handle_subscribe_failure ch p tr err m) = acct m \<or>
   (\<exists>c. acct (handle_subscribe_failure ch p tr err m) = drain_acct c (acct m))"
  by (simp add: handle_subscribe_failure_def mc_defs Let_def complete_resubscribe_if_empty_def split: option.split) blast

lemma acct_closed: "\<exists>c. acct (enter_closed_or_reconnect r a m) = drain_acct c (acct m)"
  by (auto simp: enter_closed_or_reconnect_def Let_def acct_fold set_timers_def split: option.split)

lemma handle_event_acct:
  "acct (handle_event ev m) = acct m \<or> (\<exists>c. acct (handle_event ev m) = drain_acct c (acct m))"
proof (cases "mc_state m")
  case Idle
  then show ?thesis
   by (cases ev) (simp_all add: handle_event_def idle_event_def mc_defs consult_shape Let_def split: sum.split)
next
  case Failed
  then show ?thesis
   by (cases ev) (simp_all add: handle_event_def failed_event_def mc_defs consult_shape Let_def split: sum.split)
next
  case BackingOff
  then show ?thesis
   by (cases ev) (simp_all add: handle_event_def backing_off_event_def mc_defs consult_shape Let_def
      split: sum.split option.split)
next
  case Connecting
  then show ?thesis
   by (cases ev) (simp_all add: handle_event_def connecting_event_def mc_defs Let_def)
next
  case Authenticating
  then show ?thesis
   by (cases ev) (auto simp add: handle_event_def authenticating_event_def mc_defs Let_def token_stale_event_def
     auth_rejected_event_def acct_subscribe_failure split: auth_error_kind.split)
next
  case Resubscribing
  then show ?thesis
   by (cases ev) (auto simp add: handle_event_def resubscribing_event_def mc_defs Let_def 
      acct_subscribe_failure split: option.split)
next
  case Open
  then show ?thesis
   by (cases ev) (auto simp add: handle_event_def open_event_def mc_defs Let_def 
      acct_subscribe_failure split: option.split)
next
  case Closing
  then show ?thesis
   by (cases ev) (auto simp add: handle_event_def closing_event_def Let_def acct_closed split: option.split)
next
  case Closed
  then show ?thesis by (simp add: handle_event_def)
qed
fun resolves :: "u64 \<Rightarrow> effect \<Rightarrow> bool" where
  "resolves i (Resolved j r) = (i = j)"
| "resolves i _ = False"

definition resolutions :: "u64 \<Rightarrow> effect list \<Rightarrow> nat" where
  "resolutions i t = length (filter (resolves i) t)"

definition ledger :: "u64 \<Rightarrow> (u64, pending_request) hashmap \<times> effect list \<Rightarrow> nat" where
  "ledger i a = resolutions i (snd a) + (if hm_get (fst a) i = None then 0 else 1)"

definition pend_ok :: "(u64, pending_request) hashmap \<Rightarrow> bool" where
  "pend_ok ps \<longleftrightarrow> hm_inv ps \<and> (\<forall>(k, p) \<in> set ps. p_req_id p = k)"

lemma resolutions_filtered: "resolutions i (filter is_resolved t) = resolutions i t"
proof -
  have "resolves i e \<longrightarrow> is_resolved e" for e by (cases e) simp_all
  then show ?thesis unfolding resolutions_def by (simp add: filter_filter) (metis)
qed

lemma ledger_acct: "ledger i (acct m) =
    resolutions i (trace m) + (if hm_get (pending_requests m) i = None then 0 else 1)"
  by (simp add: ledger_def acct_def resolutions_filtered)

lemma resolutions_append [simp]: "resolutions i (s @ t) = resolutions i s + resolutions i t"
  by (simp add: resolutions_def)

lemma drained_once:
  assumes "pend_ok ps"
  shows "resolutions i (map (\<lambda>p. Resolved (p_req_id p) x) (sort_key p_req_id (map snd ps))) =
    (if hm_get ps i = None then 0 else 1)"
proof -
  have "resolutions i (map (\<lambda>p. Resolved (p_req_id p) x) qs) = length (filter (\<lambda>p. i = p_req_id p) qs)"
    for qs :: "pending_request list"
    by (simp add: resolutions_def filter_map comp_def)
  moreover have "length (filter P (sort_key p_req_id qs)) = length (filter P qs)" for P and qs :: "pending_request list"
    by (simp add: filter_sort)
  moreover have "length (filter (\<lambda>p. i = p_req_id p) (map snd ps)) = (if hm_get ps i = None then 0 else 1)"
    using assms
  proof (induction ps)
    case (Cons x ps)
    have "hm_get ps (fst x) = None" using Cons.prems
      by (cases x) (auto simp: pend_ok_def hm_inv_def map_of_eq_None_iff)
    with Cons show ?case by (cases x) (auto simp: pend_ok_def hm_inv_def filter_map)
  qed simp
  ultimately show ?thesis by (simp only:)
qed

lemma ledger_drain: "pend_ok (fst a) \<Longrightarrow> ledger i (drain_acct c a) = ledger i a"
  by (cases a) (simp add: ledger_def drain_acct_def drained_once)

lemma pend_ok_ops:
  "pend_ok []" "pend_ok ps \<Longrightarrow> pend_ok (hm_remove i ps)"
  "pend_ok ps \<Longrightarrow> pend_ok (hm_insert (p_req_id p) p ps)"
  using set_delete_subset [of i ps] set_hm_insert [of "p_req_id p" p ps]
  by (auto simp: pend_ok_def hm_simps)

text \<open>A step that admits no request keeps every account, and only ever drops requests.\<close>

definition settles :: "managed_connection \<Rightarrow> managed_connection \<Rightarrow> bool" where
  "settles m m' \<longleftrightarrow> pend_ok (pending_requests m') \<and> (\<forall>i. ledger i (acct m') = ledger i (acct m)) \<and>
     (\<forall>i. hm_get (pending_requests m) i = None \<longrightarrow> hm_get (pending_requests m') i = None)"

lemma settles_same: "pend_ok (pending_requests m) \<Longrightarrow> acct m' = acct m \<Longrightarrow> settles m m'"
  by (simp add: settles_def acct_def)

lemma settles_one:
  assumes "pend_ok (pending_requests m)" and "hm_get (pending_requests m) i = Some p"
    and "acct m' = (hm_remove i (pending_requests m), snd (acct m) @ [Resolved i r])"
  shows "settles m m'"
proof -
  have "pending_requests m' = hm_remove i (pending_requests m)" using assms(3) by (simp add: acct_def)
  moreover have "ledger j (acct m') = ledger j (acct m)" for j
    using assms(2) by (simp add: assms(3) ledger_def hm_simps) (simp add: acct_def resolutions_def)
  ultimately show ?thesis using assms(1) by (simp add: settles_def pend_ok_ops hm_simps)
qed

lemma settles_drained:
  assumes ok: "pend_ok (pending_requests m)" and "acct m' = acct m \<or> (\<exists>c. acct m' = drain_acct c (acct m))"
  shows "settles m m'"
  using assms(2)
proof
  assume "\<exists>c. acct m' = drain_acct c (acct m)"
  then obtain c where c: "acct m' = drain_acct c (acct m)" ..
  then have "pending_requests m' = []" by (simp add: acct_def drain_acct_def)
  with c ok show ?thesis by (simp add: settles_def pend_ok_ops ledger_drain acct_def)
qed (rule settles_same [OF ok])

lemmas settles_event = settles_drained [OF _ handle_event_acct]

lemma acct_timers [simp]: "acct (pop_timer_for_event ev m) = acct m" "acct (note_inbound_activity m) = acct m"
  by (simp_all add: pop_timer_for_event_def note_inbound_activity_def set_timers_def Let_def)

lemma settles_step:
  assumes ok: "pend_ok (pending_requests m)" and "\<And>p. op \<noteq> OpRequest p"
  shows "settles m (mc_step op m)"
proof (cases op)
  case (OpEvent ev)
  then show ?thesis using settles_event [OF ok] by simp
next
  case (OpTimer ev)
  have "pending_requests (pop_timer_for_event ev m) = pending_requests m"
    by (simp add: pop_timer_for_event_def set_timers_def)
  then show ?thesis
    using OpTimer settles_event [of "pop_timer_for_event ev m" ev] ok by (simp add: settles_def)
next
  case (OpResponse r)
  show ?thesis
  proof (cases "hm_get (pending_requests m) (r_req_id r)")
    case None
    then show ?thesis using OpResponse ok by (simp add: resolve_pending_request_def settles_same)
  next
    case (Some p)
    show ?thesis
      by (rule settles_one [OF ok Some, where r = "Inr r"])
        (simp add: OpResponse resolve_pending_request_def Some, simp add: acct_def act_def)
  qed
next
  case (OpFail i err)
  show ?thesis
  proof (cases "hm_get (pending_requests m) i")
    case None
    then show ?thesis using OpFail ok by (simp add: fail_pending_request_def settles_same)
  next
    case (Some p)
    show ?thesis
      by (rule settles_one [OF ok Some, where r = "Inl err"])
        (simp add: OpFail fail_pending_request_def Some, simp add: acct_def act_def)
  qed
next
  case (OpDrainOne i)
  show ?thesis
  proof (cases "hm_get (pending_requests m) i")
    case None
    then show ?thesis using OpDrainOne ok by (simp add: drain_one_retryable_def settles_same)
  next
    case (Some p)
    show ?thesis
      by (rule settles_one [OF ok Some, where r = "Inl RequestInFlightWhenDropped"])
        (simp add: OpDrainOne drain_one_retryable_def Some, simp add: acct_def act_def)
  qed
next
  case (OpSendFailed k)
  have "settles m (handle_subscribe_failure (fst k) (snd k) True None m)"
    by (rule settles_drained [OF ok acct_subscribe_failure])
  then show ?thesis using OpSendFailed settles_same [OF ok] by simp
qed (use ok assms(2) in \<open>auto simp: book_keeping_defs mc_defs Let_def complete_resubscribe_if_empty_def
      intro!: settles_same split: option.split\<close>)+
text \<open>The ids of the requests offered to the connection, and of those it admitted.\<close>

fun request_ids :: "mc_op list \<Rightarrow> u64 list" where
  "request_ids [] = []"
| "request_ids (OpRequest p # ops) = p_req_id p # request_ids ops"
| "request_ids (op # ops) = request_ids ops"

fun admitted :: "mc_op list \<Rightarrow> managed_connection \<Rightarrow> u64 list" where
  "admitted [] m = []"
| "admitted (OpRequest p # ops) m =
     (if admits_request m then [p_req_id p] else []) @ admitted ops (mc_step (OpRequest p) m)"
| "admitted (op # ops) m = admitted ops (mc_step op m)"

lemma not_request:
  assumes "\<And>p. op \<noteq> OpRequest p"
  shows "request_ids (op # ops) = request_ids ops" "admitted (op # ops) m = admitted ops (mc_step op m)"
  using assms by (cases op; simp)+

lemma admitted_subset: "set (admitted ops m) \<subseteq> set (request_ids ops)"
  by (induction ops m rule: admitted.induct) auto

lemma run_ledger:
  assumes "pend_ok (pending_requests m)" and "distinct (request_ids ops)"
    and "\<forall>i \<in> set (request_ids ops). hm_get (pending_requests m) i = None"
  shows "ledger i (acct (mc_run ops m)) = ledger i (acct m) + count_list (admitted ops m) i"
  using assms
proof (induction ops arbitrary: m)
  case Nil
  then show ?case by (simp add: mc_run_def)
next
  case (Cons op ops)
  show ?case
  proof (cases "\<exists>p. op = OpRequest p")
    case True
    then obtain p where p: "op = OpRequest p" ..
    let ?m = "mc_step op m"
    have fresh: "hm_get (pending_requests m) (p_req_id p) = None" using Cons.prems p by simp
    have "pend_ok (pending_requests ?m) \<and> (\<forall>i \<in> set (request_ids ops). hm_get (pending_requests ?m) i = None)"
      using Cons.prems p by (auto simp: record_pending_request_def pend_ok_ops hm_simps)
    then have "ledger i (acct (mc_run ops ?m)) = ledger i (acct ?m) + count_list (admitted ops ?m) i"
      using Cons.prems p by (intro Cons.IH) simp_all
    moreover have "ledger i (acct ?m) = ledger i (acct m) + count_list (if admits_request m then [p_req_id p] else []) i"
      using fresh by (auto simp: p ledger_acct record_pending_request_def hm_simps)
    ultimately show ?thesis using p by (simp add: mc_run_def)
  next
    case False
    then have S: "settles m (mc_step op m)" and N: "\<And>p. op \<noteq> OpRequest p"
      using settles_step [OF Cons.prems(1)] by blast+
    have "ledger i (acct (mc_run ops (mc_step op m))) =
        ledger i (acct (mc_step op m)) + count_list (admitted ops (mc_step op m)) i"
      using S Cons.prems not_request(1) [OF N] by (intro Cons.IH) (simp_all add: settles_def)
    then show ?thesis using S not_request(2) [OF N] by (simp add: mc_run_def settles_def)
  qed
qed

lemma no_requests:
  assumes "mc_inv m" and "mc_state m \<in> {Idle, Connecting, BackingOff, Closed, Failed}"
  shows "pending_requests m = []"
proof -
  have "has_socket (mc_state m) \<and> mc_state m \<noteq> Connecting \<or> pending_requests m = []"
    using assms(1) by (simp only: mc_inv_popped_def)
  with assms(2) show ?thesis by (auto simp: has_socket_def)
qed

lemma count_distinct: "distinct xs \<Longrightarrow> count_list xs x = (if x \<in> set xs then 1 else 0)"
  by (induction xs) auto

lemma admitted_distinct: "distinct (request_ids ops) \<Longrightarrow> distinct (admitted ops m)"
proof (induction ops m rule: admitted.induct)
  case (2 p ops m)
  then show ?case using admitted_subset [of ops "mc_step (OpRequest p) m"] by auto
qed simp_all

text \<open>
  Property C1. Every order request is answered exactly once. Over any run in which the caller draws
  fresh request ids, the number of resolutions handed to a request's future plus one if it is still
  in flight is one when the connection admitted the request and zero otherwise; nothing is resolved
  twice, nothing that was not admitted is resolved, and in every state without an established
  socket all admitted requests have been resolved.
\<close>

theorem requests_resolved_exactly_once:
  assumes "distinct (request_ids ops)"
  shows "let m0 = mc_new url k rb clock pnow seed; m = mc_run ops m0 in
    resolutions i (trace m) + (if pending_requests_contains i m then 1 else 0) =
      (if i \<in> set (admitted ops m0) then 1 else 0) \<and>
    (mc_state m \<in> {Idle, Connecting, BackingOff, Closed, Failed} \<longrightarrow>
      resolutions i (trace m) = (if i \<in> set (admitted ops m0) then 1 else 0))"
proof -
  define m0 where "m0 = mc_new url k rb clock pnow seed"
  have m0: "pending_requests m0 = []" "trace m0 = []" by (simp_all add: m0_def mc_new_def)
  have "ledger i (acct (mc_run ops m0)) = count_list (admitted ops m0) i"
    using run_ledger [of m0 ops i] assms m0 by (simp add: pend_ok_ops ledger_acct resolutions_def)
  moreover have "count_list (admitted ops m0) i = (if i \<in> set (admitted ops m0) then 1 else 0)"
    using admitted_distinct [OF assms, of m0] by (rule count_distinct)
  ultimately have L: "resolutions i (trace (mc_run ops m0)) +
      (if pending_requests_contains i (mc_run ops m0) then 1 else 0) = (if i \<in> set (admitted ops m0) then 1 else 0)"
    by (cases "hm_get (pending_requests (mc_run ops m0)) i = None")
      (simp_all add: ledger_acct pending_requests_contains_def)
  have "mc_inv (mc_run ops m0)" unfolding m0_def by (rule mc_run_inv [OF mc_new_inv])
  then have "\<not> pending_requests_contains i (mc_run ops m0)"
    if "mc_state (mc_run ops m0) \<in> {Idle, Connecting, BackingOff, Closed, Failed}"
    using that by (simp only: pending_requests_contains_def no_requests) simp
  with L show ?thesis unfolding Let_def m0_def [symmetric] by (intro conjI impI) simp_all
qed

definition order_then_drop :: "mc_op list" where
  "order_then_drop =
     [OpEvent (CallStartConnect 1), OpEvent (WireUpgradeOk None), OpCompleteIfEmpty,
      OpRequest \<lparr>p_req_id = 7, p_op = AddOrder, p_sent_at = 3\<rparr>, OpEvent (WireAbnormalClose SocketReset)]"

theorem requests_resolved_exactly_once_witness:
  "resolutions 7 (trace (mc_run order_then_drop (mc_new Public knobs_defaults (with_knobs 2 10) (\<lambda>n. n) 0 0))) = 1"
proof -
  let ?m0 = "mc_new Public knobs_defaults (with_knobs 2 10) (\<lambda>n. n) 0 0"
  have ids: "distinct (request_ids order_then_drop)" by (simp add: order_then_drop_def)
  have adm: "7 \<in> set (admitted order_then_drop ?m0)"
    by (simp add: order_then_drop_def mc_new_def handle_event_def idle_event_def consult_shape try_consume_def
        with_knobs_def prune_def mc_defs Let_def connecting_event_def complete_resubscribe_if_empty_def
        pending_subscribe_ack_count_def timer_set_default_def enter_open_def admits_request_def)
  have "mc_state (mc_run order_then_drop ?m0) = BackingOff"
    by (simp add: order_then_drop_def mc_run_def mc_new_def handle_event_def idle_event_def consult_shape try_consume_def
        with_knobs_def prune_def mc_defs Let_def connecting_event_def complete_resubscribe_if_empty_def
        pending_subscribe_ack_count_def timer_set_default_def enter_open_def admits_request_def open_event_def
        record_pending_request_def cap_exhausted_def knobs_defaults_def opt_encode_def opt_decode_def)
  then show ?thesis
    using requests_resolved_exactly_once [OF ids, of Public knobs_defaults "with_knobs 2 10" "\<lambda>n. n" 0 0 7] adm
    by (simp add: Let_def)
qed

end
