(* ===== verification/Connection_Contracts.thy ===== *)
theory Connection_Contracts
  imports Connection_Properties
begin

text \<open>
  Contracts of a connection that span a whole run: the reactor's next timer, the connect budget every
  socket is paid from, the callers that wait for the connection to close, the request ids wire replies are
  attributed by, and a connect caller that a forced reconnect strands. The locale \<open>failure_chain\<close> states what
  every teardown path keeps.
\<close>

section \<open>The timer the reactor sleeps on\<close>

text \<open>Every armed timer with the event it fires, in the order \<open>next_timer_due\<close> looks at them.\<close>

definition one_shot :: "fsm_event \<Rightarrow> instant option \<Rightarrow> (instant \<times> fsm_event) list" where
  "one_shot ev due = (case due of None \<Rightarrow> [] | Some d \<Rightarrow> [(d, ev)])"

definition keyed_shots :: "(channel_name \<Rightarrow> string option \<Rightarrow> fsm_event) \<Rightarrow> (sub_key, instant) hashmap \<Rightarrow>
    (instant \<times> fsm_event) list" where
  "keyed_shots mk dues = map (\<lambda>((c, p), d). (d, mk c p)) dues"

definition armed_timers :: "managed_connection \<Rightarrow> (instant \<times> fsm_event) list" where
  "armed_timers m =
     (let t = timers m in
      one_shot TimerBackoffElapsed (backoff_due_at t) @ one_shot TimerUpgradeTimeout (upgrade_timeout_due_at t) @
      one_shot TimerStalenessElapsed (staleness_due_at t) @ one_shot TimerCloseTimeout (close_timeout_due_at t) @
      one_shot TimerRateBudgetWindowAdvanced (rate_budget_window_advanced_at t) @
      one_shot TimerTokenRefreshDue (token_refresh_due_at t) @
      keyed_shots TimerSubscribeAckTimeout (per_entry_subscribe_ack_timeouts t) @
      keyed_shots TimerSubscribeResendDue (per_entry_subscribe_resend_due t) @
      keyed_shots TimerBookReseedSnapshot (per_entry_book_reseed_snapshot t))"

abbreviation pick :: "(instant \<times> fsm_event) list \<Rightarrow> (instant \<times> fsm_event) option \<Rightarrow> (instant \<times> fsm_event) option" where
  "pick \<equiv> fold (\<lambda>(d, ev). consider_timer (Some d) ev)"

lemma pick_one_shot: "pick (one_shot ev due) e = consider_timer due ev e"
  by (simp add: one_shot_def consider_timer_def split: option.split)

lemma pick_keyed_shots: "pick (keyed_shots mk dues) e = consider_timers mk dues e"
  unfolding keyed_shots_def consider_timers_def fold_map
  by (rule arg_cong [where f = "\<lambda>g. fold g dues e"]) (simp add: fun_eq_iff split_beta)

lemma next_timer_pick: "next_timer_due m = pick (armed_timers m) None"
  by (simp add: next_timer_due_def armed_timers_def Let_def pick_one_shot pick_keyed_shots)

lemma pick_earliest:
  "case pick ts e of
     None \<Rightarrow> ts = [] \<and> e = None
   | Some (d, ev) \<Rightarrow> ((d, ev) \<in> set ts \<or> e = Some (d, ev)) \<and> (\<forall>(d', _) \<in> set ts. d \<le> d') \<and>
       (case e of None \<Rightarrow> True | Some (d', _) \<Rightarrow> d \<le> d')"
proof (induction ts arbitrary: e)
  case Nil
  then show ?case by (auto split: option.split)
next
  case (Cons t ts)
  show ?case
    using Cons.IH [of "consider_timer (Some (fst t)) (snd t) e"]
    by (cases t; cases e) (auto simp: consider_timer_def split: option.splits if_splits)
qed

definition spares :: "fsm_event \<Rightarrow> instant \<times> fsm_event \<Rightarrow> bool" where
  "spares ev t \<longleftrightarrow> snd t \<noteq> ev"

lemma spare_one_shot: "filter (spares ev) (one_shot ev' due) = (if ev = ev' then [] else one_shot ev' due)"
  by (auto simp: spares_def one_shot_def split: option.split)

lemma delete_keyed: "keyed_shots mk (hm_remove k dues) = filter (spares (mk (fst k) (snd k))) (keyed_shots mk dues)"
  if "inj (\<lambda>(c, p). mk c p)"
proof -
  have "mk c p = mk c' p' \<longleftrightarrow> c = c' \<and> p = p'" for c p c' p'
    using inj_eq [OF that, of "(c, p)" "(c', p')"] by simp
  then show ?thesis by (induction dues) (auto simp: keyed_shots_def spares_def)
qed

lemma keep_keyed:
  assumes "\<And>c p. mk c p \<noteq> ev"
  shows "filter (spares ev) (keyed_shots mk dues) = keyed_shots mk dues"
  unfolding filter_id_conv keyed_shots_def spares_def using assms by fastforce

lemma inj_events:
  "inj (\<lambda>(c, p). TimerSubscribeAckTimeout c p)" "inj (\<lambda>(c, p). TimerSubscribeResendDue c p)"
  "inj (\<lambda>(c, p). TimerBookReseedSnapshot c p)"
  by (auto simp: inj_def)

lemma pop_spares: "armed_timers (pop_timer_for_event ev m) = filter (spares ev) (armed_timers m)"
  by (cases ev)
    (simp_all add: armed_timers_def pop_timer_for_event_def set_timers_def Let_def spare_one_shot keep_keyed
      delete_keyed [OF inj_events(1)] delete_keyed [OF inj_events(2)] delete_keyed [OF inj_events(3)],
     simp_all add: one_shot_def)

text \<open>
  The reactor sleeps exactly until the next timer. \<open>next_timer_due\<close> is empty only when
  no timer of the connection is armed; otherwise it returns an armed timer that no other armed timer
  precedes, and popping it disarms that timer and leaves every other one armed.
\<close>

lemma next_timer_earliest:
  "case next_timer_due m of
     None \<Rightarrow> armed_timers m = []
   | Some (d, ev) \<Rightarrow>
       (d, ev) \<in> set (armed_timers m) \<and> list_all (\<lambda>(d', _). d \<le> d') (armed_timers m) \<and>
       armed_timers (pop_timer_for_event ev m) = filter (\<lambda>(_, ev'). ev' \<noteq> ev) (armed_timers m)"
proof -
  have "spares ev = (\<lambda>(_, ev'). ev' \<noteq> ev)" for ev by (auto simp: spares_def fun_eq_iff)
  then show ?thesis
    using pick_earliest [of "armed_timers m" None] next_timer_pick [of m]
    by (auto simp: pop_spares list_all_iff split: option.splits)
qed

section \<open>Relations kept by a failed subscribe\<close>

text \<open>
  A failed subscribe is a chain of helper calls. A transitive relation between the connection before
  and after that each link keeps is kept by the whole handler; the contracts below (the connect budget,
  the close calls, the request-id maps) are such relations.
\<close>

locale failure_chain =
  fixes R :: "managed_connection \<Rightarrow> managed_connection \<Rightarrow> bool"
  assumes R_trans: "R m m1 \<Longrightarrow> R m1 m2 \<Longrightarrow> R m m2"
    and R_refl: "R m m"
    and R_forget: "R m (forget_subscribe_req_id_for_key k (drop_entry_timers k m))"
    and R_burn: "R m (fst (burn_ack_budget k m))"
    and R_resend: "R m (set_timers (\<lambda>t. t\<lparr>per_entry_subscribe_resend_due := f t\<rparr>) (tick m))"
    and R_teardown: "R m (exit_resubscribing_teardown m)"
    and R_drop: "R m (drop_or_escalate cc r m)"
    and R_backoff: "R m (back_off_attempt_failed cls ke hs cc m)"
    and R_terminated: "R m (act (Published \<lparr>env_version = v, env_timestamp = t, env_request_id = None,
        env_payload = SubscriptionTerminatedEvent ch p c e t'\<rparr>) (tick (m\<lparr>subscribe_ack_attempts := y\<rparr>)))"
    and R_open: "mc_state m = Resubscribing \<Longrightarrow> R m (enter_open m)"
begin

lemma complete: "R m m1 \<Longrightarrow> R m (complete_resubscribe_if_empty m1)"
  using R_trans [OF _ R_open] by (simp add: complete_resubscribe_if_empty_def)

lemma subscribe_failure: "R m (handle_subscribe_failure ch p tr err m)"
proof -
  define m1 where "m1 = forget_subscribe_req_id_for_key (ch, p) (drop_entry_timers (ch, p) m)"
  define m2 where "m2 = fst (burn_ack_budget (ch, p) m1)"
  have m1: "R m m1" unfolding m1_def by (rule R_forget)
  have m2: "R m m2" unfolding m2_def by (rule R_trans [OF m1 R_burn])
  note td = R_trans [OF m2 R_teardown]
  have "R m (drop_or_escalate cc r (exit_resubscribing_teardown m2))"
    "R m (back_off_attempt_failed cls ke hs cc' (exit_resubscribing_teardown m2))" for cc r cls ke hs cc'
    by (rule R_trans [OF td R_drop], rule R_trans [OF td R_backoff])
  moreover have "R m (set_timers (\<lambda>t. t\<lparr>per_entry_subscribe_resend_due := f t\<rparr>) (tick m2))" for f
    by (rule R_trans [OF m2 R_resend])
  moreover have "R m (complete_resubscribe_if_empty (act (Published \<lparr>env_version = v, env_timestamp = t,
        env_request_id = None, env_payload = SubscriptionTerminatedEvent ch p c e t'\<rparr>)
      (tick (m1\<lparr>subscribe_ack_attempts := y\<rparr>))))" for v t c e t' y
    by (rule complete [OF R_trans [OF m1 R_terminated]])
  ultimately show ?thesis
    unfolding handle_subscribe_failure_def Let_def m1_def [symmetric] split_beta m2_def [symmetric]
      drop_or_escalate_def [unfolded Let_def split_beta, symmetric]
    by simp
qed

end

section \<open>Sockets are paid for\<close>

definition purse :: "managed_connection \<Rightarrow> (nat \<Rightarrow> instant) \<times> connection_rate_budget \<times> nat" where
  "purse m = (mc_clock m, rate_budget m, sockets_opened m)"

definition free_step :: "managed_connection \<Rightarrow> managed_connection \<Rightarrow> bool" where
  "free_step m m' \<longleftrightarrow> clock_reads m \<le> clock_reads m' \<and> purse m' = purse m"

definition paid_step :: "managed_connection \<Rightarrow> managed_connection \<Rightarrow> bool" where
  "paid_step m m' \<longleftrightarrow> (\<exists>r. clock_reads m \<le> r \<and> Suc r \<le> clock_reads m' \<and>
     purse m' = (mc_clock m, fst (try_consume (mc_clock m r) (rate_budget m)),
       sockets_opened m + (if snd (try_consume (mc_clock m r) (rate_budget m)) = Inr () then 1 else 0)))"

lemma paid_stepI:
  "clock_reads m \<le> r \<Longrightarrow> Suc r \<le> clock_reads m' \<Longrightarrow>
   purse m' = (mc_clock m, fst (try_consume (mc_clock m r) (rate_budget m)),
       sockets_opened m + (if snd (try_consume (mc_clock m r) (rate_budget m)) = Inr () then 1 else 0)) \<Longrightarrow>
   paid_step m m'"
  unfolding paid_step_def by blast

lemma reads_tick: "n \<le> clock_reads m \<Longrightarrow> n \<le> clock_reads (tick m)" "n \<le> clock_reads m \<Longrightarrow> Suc n \<le> clock_reads (tick m)"
  by (simp_all add: tick_def)

text \<open>Readings only grow: conditional rewrite rules, one per helper.\<close>

lemmas reads_grow =
  reads_tick
  order_trans [OF _ quiet_fields(28) [OF quiet_act]] order_trans [OF _ quiet_fields(28) [OF quiet_publish]]
  order_trans [OF _ quiet_fields(28) [OF quiet_emit]] order_trans [OF _ quiet_fields(28) [OF quiet_emit_timed]]
  order_trans [OF _ quiet_fields(28) [OF quiet_ops(1)]] order_trans [OF _ quiet_fields(28) [OF quiet_ops(2)]]
  order_trans [OF _ quiet_fields(28) [OF quiet_ops(3)]] order_trans [OF _ quiet_fields(28) [OF quiet_ops(4)]]
  order_trans [OF _ quiet_fields(28) [OF quiet_ops(5)]] order_trans [OF _ quiet_fields(28) [OF quiet_ops(6)]]
  order_trans [OF _ quiet_fields(28) [OF quiet_ops(7)]] order_trans [OF _ quiet_fields(28) [OF quiet_send_close_frame]]
  order_trans [OF _ quiet_fields(28) [OF quiet_opens]] order_trans [OF _ quiet_fields(28) [OF quiet_closes]]
  order_trans [OF _ drain_fields(23)] order_trans [OF _ emit_connection_failed_fields(21)]

lemmas free_defs = free_step_def purse_def mc_defs Let_def

lemma free_trans: "free_step m m1 \<Longrightarrow> free_step m1 m2 \<Longrightarrow> free_step m m2"
  unfolding free_step_def by (auto intro: order_trans)

interpretation fs: failure_chain free_step
proof unfold_locales
  show "free_step m m1 \<Longrightarrow> free_step m1 m2 \<Longrightarrow> free_step m m2" for m m1 m2 by (rule free_trans)
qed (simp_all add: free_defs enter_open_def reads_grow split: option.split)

lemmas free_sf = fs.subscribe_failure [unfolded free_step_def purse_def prod.inject]

lemma paid_reenter: "paid_step m (reenter_connecting rid m)"
  by (rule paid_stepI [of _ "clock_reads m"])
    (simp_all add: reenter_connecting_def consult_shape now_of_def mc_defs purse_def Let_def reads_grow split: sum.split)

lemma free_then_paid: "free_step m m1 \<Longrightarrow> paid_step m1 m2 \<Longrightarrow> paid_step m m2"
  unfolding free_step_def paid_step_def purse_def by (auto intro: order_trans)

lemma closing_exit_paid: "free_step m (enter_closed_or_reconnect r a m) \<or> paid_step m (enter_closed_or_reconnect r a m)"
proof (cases "pending_reconnect_request_id m")
  case None
  then show ?thesis
    by (simp add: enter_closed_or_reconnect_def free_defs reads_grow)
next
  case (Some rid)
  then show ?thesis
    by (auto intro!: free_then_paid [OF _ paid_reenter]
      simp: enter_closed_or_reconnect_def free_defs reads_grow)
qed

lemma handle_event_paid: "free_step m (handle_event ev m) \<or> paid_step m (handle_event ev m)"
proof (cases "mc_state m")
  case Idle
  have "paid_step m (idle_event ev m)" if "ev \<in> {CallStartConnect rid, CallForceReconnect rid}" for rid
    using that by (intro paid_stepI [of _ "clock_reads m"])
      (auto simp: idle_event_def consult_shape now_of_def mc_defs purse_def Let_def reads_grow split: sum.split)
  then show ?thesis
    using Idle by (cases ev) (simp_all add: handle_event_def idle_event_def free_defs reads_grow)
next
  case Failed
  have "paid_step m (failed_event (CallForceReconnect rid) m)" for rid
    by (rule paid_stepI [of _ "clock_reads m"])
      (simp_all add: failed_event_def consult_shape now_of_def mc_defs purse_def Let_def reads_grow split: sum.split)
  then show ?thesis
    using Failed by (cases ev) (simp_all add: handle_event_def failed_event_def free_defs reads_grow)
next
  case BackingOff
  have "paid_step m (backing_off_event ev m)"
    if "ev \<in> {TimerBackoffElapsed, TimerRateBudgetWindowAdvanced, CallForceReconnect rid}" for rid
    using that by (intro paid_stepI [of _ "clock_reads m"])
      (auto simp: backing_off_event_def consult_shape now_of_def mc_defs purse_def Let_def reads_grow
        split: sum.split option.split)
  then show ?thesis
    using BackingOff by (cases ev) (simp_all add: handle_event_def backing_off_event_def free_defs reads_grow)
next
  case Connecting
  then show ?thesis
    by (cases ev) (simp_all add: handle_event_def connecting_event_def free_defs reads_grow)
next
  case Authenticating
  then show ?thesis
    by (cases ev) (simp_all add: handle_event_def authenticating_event_def token_stale_event_def
      auth_rejected_event_def enter_open_def free_sf free_defs reads_grow split: auth_error_kind.split)
next
  case Resubscribing
  then show ?thesis
    by (cases ev) (simp_all add: handle_event_def resubscribing_event_def enter_open_def
      free_sf free_defs reads_grow split: option.split)
next
  case Open
  then show ?thesis
    by (cases ev) (simp_all add: handle_event_def open_event_def free_sf free_defs reads_grow
      split: option.split)
next
  case Closing
  then show ?thesis
    by (cases ev) (simp_all add: handle_event_def closing_event_def
      closing_exit_paid [unfolded free_step_def purse_def prod.inject] free_step_def purse_def
      split: option.split)
next
  case Closed
  then show ?thesis by (simp add: handle_event_def free_step_def)
qed

lemma free_popped: "free_step m (pop_timer_for_event ev m)"
  by (simp add: free_step_def purse_def pop_timer_for_event_def set_timers_def)

lemma mc_step_paid: "free_step m (mc_step op m) \<or> paid_step m (mc_step op m)"
proof (cases op)
  case (OpEvent ev)
  then show ?thesis using handle_event_paid by simp
next
  case (OpTimer ev)
  then show ?thesis
    using handle_event_paid [of "pop_timer_for_event ev m" ev] free_trans [OF free_popped [of m ev]]
      free_then_paid [OF free_popped [of m ev]] by auto
next
  case (OpSendFailed k)
  then show ?thesis using fs.subscribe_failure by (simp add: free_step_def)
next
  case OpCompleteIfEmpty
  have "free_step m m" by (simp add: free_step_def)
  then show ?thesis using fs.complete [of m m] OpCompleteIfEmpty by simp
qed (simp_all add: free_defs book_keeping_defs note_inbound_activity_def record_pending_request_def reads_grow
      split: option.split)

text \<open>The consults of a run, and the socket each granted one paid for.\<close>

lemma run_paid:
  "\<exists>rs granted. sorted rs \<and> set rs \<subseteq> {clock_reads m ..< clock_reads (mc_run ops m)} \<and>
     clock_reads m \<le> clock_reads (mc_run ops m) \<and>
     consume_all (map (mc_clock m) rs) (rate_budget m) = (rate_budget (mc_run ops m), granted) \<and>
     sockets_opened (mc_run ops m) = sockets_opened m + length granted"
proof (induction ops arbitrary: m)
  case Nil
  show ?case by (rule exI [of _ "[]"]) (simp add: mc_run_def)
next
  case (Cons op ops)
  let ?m = "mc_step op m" and ?e = "mc_run ops (mc_step op m)"
  obtain rs granted where IH: "sorted rs" "set rs \<subseteq> {clock_reads ?m ..< clock_reads ?e}"
    "clock_reads ?m \<le> clock_reads ?e"
    "consume_all (map (mc_clock ?m) rs) (rate_budget ?m) = (rate_budget ?e, granted)"
    "sockets_opened ?e = sockets_opened ?m + length granted"
    using Cons.IH [of ?m] by blast
  have run: "mc_run (op # ops) m = ?e" by (simp add: mc_run_def)
  from mc_step_paid [of m op] show ?case
  proof
    assume "free_step m ?m"
    then have "clock_reads m \<le> clock_reads ?m" "mc_clock ?m = mc_clock m" "rate_budget ?m = rate_budget m"
      "sockets_opened ?m = sockets_opened m" by (simp_all add: free_step_def purse_def)
    then show ?thesis
      unfolding run using IH by (intro exI [of _ rs] exI [of _ granted]) auto
  next
    assume "paid_step m ?m"
    then obtain r where r: "clock_reads m \<le> r" "Suc r \<le> clock_reads ?m" and
      p: "mc_clock ?m = mc_clock m" "rate_budget ?m = fst (try_consume (mc_clock m r) (rate_budget m))"
      "sockets_opened ?m = sockets_opened m + (if snd (try_consume (mc_clock m r) (rate_budget m)) = Inr () then 1 else 0)"
      by (auto simp: paid_step_def purse_def)
    let ?g = "if snd (try_consume (mc_clock m r) (rate_budget m)) = Inr () then mc_clock m r # granted else granted"
    have "consume_all (map (mc_clock m) (r # rs)) (rate_budget m) = (rate_budget ?e, ?g)"
      using IH(4) p(1,2) by (simp add: split_beta Let_def)
    moreover have "sorted (r # rs)" "set (r # rs) \<subseteq> {clock_reads m ..< clock_reads ?e}" "clock_reads m \<le> clock_reads ?e"
      using IH(1,2,3) r by auto
    moreover have "sockets_opened ?e = sockets_opened m + length ?g" using IH(5) p(3) by simp
    ultimately show ?thesis unfolding run by blast
  qed
qed

lemma granted_subseq: "consume_all ts b = (b', g) \<Longrightarrow> set g \<subseteq> set ts"
proof (induction ts arbitrary: b b' g)
  case (Cons t ts)
  then show ?case by (auto simp: split_beta Let_def split: if_splits) (metis prod.collapse subsetD)+
qed simp



section \<open>Close calls\<close>

fun is_closed_payload :: "event_payload \<Rightarrow> bool" where
  "is_closed_payload (ConnectionClosedEvent u t r a c) = True"
| "is_closed_payload _ = False"

fun closed_answer :: "effect \<Rightarrow> u64 option list" where
  "closed_answer (Published e) = (if is_closed_payload (env_payload e) then [env_request_id e] else [])"
| "closed_answer _ = []"

text \<open>The callers answered with a \<open>ConnectionClosedEvent\<close>, in order, and those still waiting for one.\<close>

definition closed_ids :: "effect list \<Rightarrow> u64 option list" where
  "closed_ids t = concat (map closed_answer t)"

definition waiting_close :: "managed_connection \<Rightarrow> u64 list" where
  "waiting_close m = (case pending_close_request_id m of None \<Rightarrow> [] | Some r \<Rightarrow> [r]) @ additional_close_request_ids m"

definition close_log :: "managed_connection \<Rightarrow> u64 option list" where
  "close_log m = closed_ids (trace m) @ map Some (waiting_close m)"

definition close_inv :: "managed_connection \<Rightarrow> bool" where
  "close_inv m \<longleftrightarrow> (mc_state m = Closing \<or> pending_close_request_id m = None) \<and>
     (pending_close_request_id m = None \<longrightarrow> additional_close_request_ids m = [])"

lemma closed_ids_act [simp]: "closed_ids (trace (act e m)) = closed_ids (trace m) @ closed_answer e"
  by (simp add: closed_ids_def act_def)

lemma closed_ids_tick [simp]: "closed_ids (trace (tick m)) = closed_ids (trace m)"
  by (simp add: tick_def)

lemma closed_ids_publish [simp]:
  "closed_ids (trace (publish v rid p m)) = closed_ids (trace m) @ (if is_closed_payload p then [rid] else [])"
  by (simp add: publish_def)

lemma closed_ids_emit [simp]:
  "closed_ids (trace (emit_lifecycle p rid m)) = closed_ids (trace m) @ (if is_closed_payload p then [rid] else [])"
  "closed_ids (trace (emit_rate_throttled rid e m)) = closed_ids (trace m)"
  "closed_ids (trace (emit_attempt_failed due cls ke hs cc m)) = closed_ids (trace m)"
  "closed_ids (trace (emit_open_or_reopened b n rid m)) = closed_ids (trace m)"
  "closed_ids (trace (emit_stale m)) = closed_ids (trace m)"
  "closed_ids (trace (emit_auth_failed ntc r m)) = closed_ids (trace m)"
  "closed_ids (trace (emit_closed ack q m)) = closed_ids (trace m) @ [Some q]"
  "closed_ids (trace (send_close_frame m)) = closed_ids (trace m)"
  by (simp_all add: emit_lifecycle_def emit_timed_def emit_rate_throttled_def emit_attempt_failed_def
      emit_open_or_reopened_def emit_stale_def emit_auth_failed_def emit_closed_def send_close_frame_def split: option.split)

lemma closed_ids_timed [simp]:
  "(\<And>t. \<not> is_closed_payload (f t)) \<Longrightarrow> closed_ids (trace (emit_timed f rid m)) = closed_ids (trace m)"
  by (simp add: emit_timed_def)

lemma closed_ids_folds [simp]:
  "closed_ids (trace (fold (\<lambda>r. emit_open_or_reopened b n (Some r)) rs m)) = closed_ids (trace m)"
  "closed_ids (trace (fold (\<lambda>rid. emit_lifecycle p (Some rid)) rs m)) =
     closed_ids (trace m) @ (if is_closed_payload p then map Some rs else [])"
  "closed_ids (trace (fold (drain_step c) ps m)) = closed_ids (trace m)"
proof -
  show "closed_ids (trace (fold (\<lambda>r. emit_open_or_reopened b n (Some r)) rs m)) = closed_ids (trace m)"
    by (induction rs arbitrary: m) simp_all
  show "closed_ids (trace (fold (\<lambda>rid. emit_lifecycle p (Some rid)) rs m)) =
     closed_ids (trace m) @ (if is_closed_payload p then map Some rs else [])"
    by (induction rs arbitrary: m) simp_all
  show "closed_ids (trace (fold (drain_step c) ps m)) = closed_ids (trace m)"
    by (induction ps arbitrary: m) (simp_all add: drain_step_def split_beta Let_def)
qed

lemma closed_ids_helpers [simp]:
  "closed_ids (trace (drain c m)) = closed_ids (trace m)"
  "closed_ids (trace (emit_connection_failed e tr cls m)) = closed_ids (trace m)"
  by (simp_all add: drain_def emit_connection_failed_def Let_def)

lemmas close_defs = close_log_def close_inv_def waiting_close_def

definition close_step :: "u64 list \<Rightarrow> managed_connection \<Rightarrow> managed_connection \<Rightarrow> bool" where
  "close_step new m m' \<longleftrightarrow> close_inv m' \<and> close_log m' = close_log m @ map Some new"

definition close_kept :: "managed_connection \<Rightarrow> managed_connection \<Rightarrow> bool" where
  "close_kept m m' \<longleftrightarrow> (mc_state m \<noteq> Closing \<longrightarrow> close_inv m \<longrightarrow> close_step [] m m' \<and> mc_state m' \<noteq> Closing)"

lemmas kept_defs = close_kept_def close_step_def close_defs mc_defs Let_def

interpretation ck: failure_chain close_kept
proof unfold_locales
  show "close_kept m m1 \<Longrightarrow> close_kept m1 m2 \<Longrightarrow> close_kept m m2" for m m1 m2
    by (simp add: close_kept_def close_step_def)
qed (simp_all add: kept_defs enter_open_def split: option.split)

lemma close_subscribe_failure:
  "close_inv m \<Longrightarrow> mc_state m \<noteq> Closing \<Longrightarrow> close_step [] m (handle_subscribe_failure ch p tr err m)"
  using ck.subscribe_failure by (simp add: close_kept_def)

lemmas close_sf = close_subscribe_failure [unfolded close_step_def]

lemma close_exit:
  assumes "mc_state m = Closing" and "close_inv m"
  shows "close_step [] m (enter_closed_or_reconnect r a m)"
proof (cases "pending_reconnect_request_id m")
  case None
  with assms show ?thesis
    by (cases "pending_close_request_id m")
      (simp_all add: enter_closed_or_reconnect_def close_step_def close_defs mc_defs Let_def)
next
  case (Some rid)
  with assms show ?thesis
    by (cases "pending_close_request_id m")
     (simp_all add: enter_closed_or_reconnect_def close_step_def close_defs mc_defs Let_def reenter_connecting_def
       consult_shape split: sum.split)
qed

text \<open>The close call an event brings, unless the connection is already closed.\<close>

definition new_close :: "fsm_event \<Rightarrow> managed_connection \<Rightarrow> u64 list" where
  "new_close ev m = (case ev of CallClose rid \<Rightarrow> (if mc_state m = Closed then [] else [rid]) | _ \<Rightarrow> [])"

lemma handle_event_close:
  assumes inv: "close_inv m"
  shows "close_step (new_close ev m) m (handle_event ev m)"
proof (cases "mc_state m")
  case Idle
  with inv show ?thesis
    by (cases ev) (simp_all add: new_close_def handle_event_def idle_event_def close_step_def close_defs mc_defs
        consult_shape Let_def split: sum.split)
next
  case Failed
  with inv show ?thesis
    by (cases ev) (simp_all add: new_close_def handle_event_def failed_event_def close_step_def close_defs mc_defs
        consult_shape Let_def split: sum.split)
next
  case BackingOff
  with inv show ?thesis
    by (cases ev) (simp_all add: new_close_def handle_event_def backing_off_event_def close_step_def close_defs mc_defs
        consult_shape Let_def split: sum.split option.split)
next
  case Connecting
  with inv show ?thesis
    by (cases ev) (simp_all add: new_close_def handle_event_def connecting_event_def close_step_def close_defs mc_defs
        Let_def split: ws_url.split)
next
  case Authenticating
  with inv show ?thesis
    using close_subscribe_failure [OF inv]
    by (cases ev) (simp_all add: new_close_def handle_event_def authenticating_event_def token_stale_event_def
        auth_rejected_event_def enter_open_def close_step_def close_defs mc_defs Let_def split: auth_error_kind.split)
next
  case Resubscribing
  with inv show ?thesis
    using close_subscribe_failure [OF inv]
    by (cases ev) (simp_all add: new_close_def handle_event_def resubscribing_event_def enter_open_def close_step_def
        close_defs mc_defs Let_def split: option.split)
next
  case Open
  with inv show ?thesis
    using close_subscribe_failure [OF inv]
    by (cases ev) (simp_all add: new_close_def handle_event_def open_event_def close_step_def close_defs mc_defs
        Let_def split: option.split)
next
  case Closing
  with inv close_exit [OF Closing inv] show ?thesis
    by (cases ev) (auto simp: new_close_def handle_event_def closing_event_def close_step_def close_defs
        split: option.split)
next
  case Closed
  with inv show ?thesis
    by (simp add: handle_event_def close_step_def new_close_def split: fsm_event.split)
qed

lemma close_step_refl: "close_inv m \<Longrightarrow> mc_state m' = mc_state m \<Longrightarrow>
    pending_close_request_id m' = pending_close_request_id m \<Longrightarrow>
    additional_close_request_ids m' = additional_close_request_ids m \<Longrightarrow>
    closed_ids (trace m') = closed_ids (trace m) \<Longrightarrow> close_step [] m m'"
  by (simp add: close_step_def close_defs)

fun close_of_op :: "mc_op \<Rightarrow> managed_connection \<Rightarrow> u64 list" where
  "close_of_op (OpEvent ev) m = new_close ev m"
| "close_of_op (OpTimer ev) m = new_close ev m"
| "close_of_op _ m = []"

fun close_calls :: "mc_op list \<Rightarrow> managed_connection \<Rightarrow> u64 list" where
  "close_calls [] m = []"
| "close_calls (op # ops) m = close_of_op op m @ close_calls ops (mc_step op m)"

lemma mc_step_close:
  assumes inv: "close_inv m"
  shows "close_step (close_of_op op m) m (mc_step op m)"
proof (cases op)
  case (OpEvent ev)
  then show ?thesis using handle_event_close [OF inv] by simp
next
  case (OpTimer ev)
  have "close_step [] m (pop_timer_for_event ev m)"
    by (rule close_step_refl [OF inv]) (simp_all add: pop_timer_for_event_def set_timers_def)
  then have "close_inv (pop_timer_for_event ev m)" "close_log (pop_timer_for_event ev m) = close_log m"
    by (simp_all add: close_step_def)
  moreover have "mc_state (pop_timer_for_event ev m) = mc_state m"
    by (simp add: pop_timer_for_event_def set_timers_def)
  then have "new_close ev (pop_timer_for_event ev m) = new_close ev m"
    by (cases ev) (simp_all add: new_close_def)
  ultimately show ?thesis
    using handle_event_close [of "pop_timer_for_event ev m" ev] OpTimer by (simp add: close_step_def)
next
  case (OpSendFailed k)
  have "close_step [] m m" by (rule close_step_refl [OF inv]) simp_all
  then show ?thesis
    using OpSendFailed close_subscribe_failure [OF inv] by (auto simp: watched_def)
next
  case OpCompleteIfEmpty
  have "close_kept m (complete_resubscribe_if_empty m)" by (rule ck.complete [OF ck.R_refl])
  moreover have "close_step [] m m" by (rule close_step_refl [OF inv]) simp_all
  ultimately show ?thesis
    using OpCompleteIfEmpty inv
    by (cases "mc_state m = Closing") (simp_all add: close_kept_def complete_resubscribe_if_empty_def)
qed (simp_all add: close_step_refl [OF inv] book_keeping_defs note_inbound_activity_def record_pending_request_def
      mc_defs Let_def split: option.split)

lemma run_close: "close_inv m \<Longrightarrow> close_step (close_calls ops m) m (mc_run ops m)"
proof (induction ops arbitrary: m)
  case Nil
  then show ?case by (simp add: mc_run_def close_step_def)
next
  case (Cons op ops)
  then show ?case
    using mc_step_close [OF Cons.prems, of op] Cons.IH [of "mc_step op m"]
    by (simp add: mc_run_def close_step_def)
qed


section \<open>Subscribe request ids\<close>

text \<open>The two maps between request ids and subscription keys are inverse to each other, and every id
  in them has been handed out.\<close>

definition inverse_maps :: "('i \<Rightarrow> 'k option) \<Rightarrow> ('k \<Rightarrow> 'i option) \<Rightarrow> bool" where
  "inverse_maps f g \<longleftrightarrow> (\<forall>i k. f i = Some k \<longleftrightarrow> g k = Some i)"

definition req_maps_ok :: "managed_connection \<Rightarrow> bool" where
  "req_maps_ok m \<longleftrightarrow>
     inverse_maps (hm_get (pending_subscribe_req_ids m)) (hm_get (subscribe_req_id_by_key m)) \<and>
     (\<forall>i \<in> dom (hm_get (pending_subscribe_req_ids m)). i < next_subscribe_req_id_field m)"

lemma inverse_empty: "inverse_maps (\<lambda>x. None) (\<lambda>x. None)"
  by (simp add: inverse_maps_def)

lemma inverse_remove: "inverse_maps f g \<Longrightarrow> g k = Some i \<Longrightarrow> inverse_maps (f(i := None)) (g(k := None))"
  unfolding inverse_maps_def by (metis fun_upd_apply option.distinct(1) option.inject)

lemma inverse_insert:
  assumes "inverse_maps f g" and "f i = None"
  shows "inverse_maps ((case g k of None \<Rightarrow> f | Some p \<Rightarrow> f(p := None))(i \<mapsto> k)) (g(k \<mapsto> i))"
  using assms unfolding inverse_maps_def
  by (cases "g k") (simp_all, metis option.distinct(1), metis option.distinct(1) option.inject)

text \<open>What a step may do to the maps: forget keys. \<open>kept\<close> are the keys it leaves alone.\<close>

definition forgets :: "managed_connection \<Rightarrow> managed_connection \<Rightarrow> bool" where
  "forgets m m' \<longleftrightarrow> next_subscribe_req_id_field m' = next_subscribe_req_id_field m \<and>
     (req_maps_ok m \<longrightarrow> req_maps_ok m' \<and>
       (\<forall>k. hm_get (subscribe_req_id_by_key m') k = None \<or>
            hm_get (subscribe_req_id_by_key m') k = hm_get (subscribe_req_id_by_key m) k))"

lemma forgets_same:
  assumes "next_subscribe_req_id_field m' = next_subscribe_req_id_field m"
    "pending_subscribe_req_ids m' = pending_subscribe_req_ids m" "subscribe_req_id_by_key m' = subscribe_req_id_by_key m"
  shows "forgets m m'"
  using assms by (simp add: forgets_def req_maps_ok_def)

lemma forgets_all:
  assumes "next_subscribe_req_id_field m' = next_subscribe_req_id_field m"
    "pending_subscribe_req_ids m' = []" "subscribe_req_id_by_key m' = []"
  shows "forgets m m'"
  using assms by (simp add: forgets_def req_maps_ok_def inverse_empty)

lemma forgets_either:
  assumes "next_subscribe_req_id_field m' = next_subscribe_req_id_field m"
    "pending_subscribe_req_ids m' = pending_subscribe_req_ids m \<and> subscribe_req_id_by_key m' = subscribe_req_id_by_key m \<or>
     pending_subscribe_req_ids m' = [] \<and> subscribe_req_id_by_key m' = []"
  shows "forgets m m'"
  using assms forgets_same [of m' m] forgets_all [of m' m] by blast

lemma forgets_trans: "forgets m m1 \<Longrightarrow> forgets m1 m2 \<Longrightarrow> forgets m m2"
  unfolding forgets_def by metis

lemma forgets_key: "forgets m (forget_subscribe_req_id_for_key k m)"
proof (cases "hm_get (subscribe_req_id_by_key m) k")
  case None
  then show ?thesis by (simp add: forget_subscribe_req_id_for_key_def forgets_same)
next
  case (Some i)
  have "req_maps_ok (forget_subscribe_req_id_for_key k m)" if "req_maps_ok m"
    using that Some inverse_remove [where f = "hm_get (pending_subscribe_req_ids m)" and
      g = "hm_get (subscribe_req_id_by_key m)" and k = k and i = i]
    by (auto simp: req_maps_ok_def forget_subscribe_req_id_for_key_def Some hm_simps fun_upd_def split: if_splits)
  then show ?thesis by (simp add: forgets_def forget_subscribe_req_id_for_key_def Some hm_simps)
qed

lemma forgets_drop: "forgets m (forget_subscribe_req_id_for_key k (drop_entry_timers k m))"
  by (rule forgets_trans [OF forgets_same forgets_key]) (simp_all add: drop_entry_timers_def set_timers_def)

lemma forgets_disarm: "forgets m (disarm_subscribe_ack k m)"
  unfolding disarm_subscribe_ack_def Let_def
  by (rule forgets_trans [OF forgets_same forgets_key]) (simp_all add: drop_entry_timers_def set_timers_def)

interpretation fg: failure_chain forgets
proof unfold_locales
  show "forgets m m1 \<Longrightarrow> forgets m1 m2 \<Longrightarrow> forgets m m2" for m m1 m2 by (rule forgets_trans)
  show "forgets m (forget_subscribe_req_id_for_key k (drop_entry_timers k m))" for m k by (rule forgets_drop)
  show "forgets m (exit_resubscribing_teardown m)" for m by (rule forgets_all) (simp_all add: mc_defs)
qed (rule forgets_same; simp add: enter_open_def mc_defs Let_def)+

lemma forgets_open: "forgets m (enter_open (disarm_subscribe_ack k m))"
  by (rule forgets_trans [OF forgets_disarm forgets_same]) (simp_all add: enter_open_def mc_defs Let_def)

lemma forgets_closed: "forgets m (enter_closed_or_reconnect r a m)"
  by (rule forgets_same) (simp_all add: enter_closed_or_reconnect_def reenter_connecting_def consult_shape mc_defs Let_def
    split: option.split sum.split)

lemma handle_event_forgets: "forgets m (handle_event ev m)"
proof -
  have idle: "forgets m (idle_event ev m)"
    by (rule forgets_same; cases ev) (simp_all add: idle_event_def consult_shape mc_defs Let_def split: sum.split)
  have failed: "forgets m (failed_event ev m)"
    by (rule forgets_same; cases ev) (simp_all add: failed_event_def consult_shape mc_defs Let_def split: sum.split)
  have backing: "forgets m (backing_off_event ev m)"
    by (rule forgets_same; cases ev)
      (simp_all add: backing_off_event_def consult_shape mc_defs Let_def split: sum.split option.split)
  have connecting: "forgets m (connecting_event ev m)"
    by (rule forgets_same; cases ev) (simp_all add: connecting_event_def mc_defs Let_def)
  have authenticating: "forgets m (authenticating_event ev m)"
    by (cases ev) (simp_all add: authenticating_event_def fg.subscribe_failure,
      ((intro conjI impI)?; rule forgets_either; simp add: token_stale_event_def auth_rejected_event_def enter_open_def mc_defs Let_def
        split: auth_error_kind.split)+)
  have resubscribing: "forgets m (resubscribing_event ev m)"
    by (cases ev) (simp_all add: resubscribing_event_def fg.subscribe_failure forgets_disarm forgets_open Let_def,
      ((intro conjI impI)?; rule forgets_either; simp add: mc_defs Let_def)+)
  have opened: "forgets m (open_event ev m)"
    by (cases ev) (simp_all add: open_event_def fg.subscribe_failure forgets_disarm Let_def,
      ((intro conjI impI)?; rule forgets_either; simp add: mc_defs Let_def)+)
  have closing: "forgets m (closing_event ev m)"
    by (cases ev) (simp_all add: closing_event_def forgets_closed,
      ((intro conjI impI)?; rule forgets_either; simp split: option.split)+)
  show ?thesis
    by (cases "mc_state m") (simp_all add: handle_event_def idle failed backing connecting authenticating
      resubscribing opened closing forgets_same)
qed

lemma next_id_room:
  assumes "Suc (unat (next_subscribe_req_id_field m)) < 2 ^ 64"
  shows "unat (saturating_add (next_subscribe_req_id_field m) 1) = Suc (unat (next_subscribe_req_id_field m))"
  using assms by (simp add: unat_saturating_add)

lemma sent_maps_ok:
  fixes k :: sub_key and due :: instant
  assumes ok: "req_maps_ok m" and room: "Suc (unat (next_subscribe_req_id_field m)) < 2 ^ 64"
  defines "m' \<equiv> mc_step (OpSubscribeSent k due) m"
  shows "req_maps_ok m'" and "unat (next_subscribe_req_id_field m') = Suc (unat (next_subscribe_req_id_field m))"
proof -
  let ?i = "next_subscribe_req_id_field m"
  have fields: "next_subscribe_req_id_field m' = saturating_add ?i 1"
    "hm_get (subscribe_req_id_by_key m') = (hm_get (subscribe_req_id_by_key m))(k \<mapsto> ?i)"
    "hm_get (pending_subscribe_req_ids m') = (case hm_get (subscribe_req_id_by_key m) k of
        None \<Rightarrow> hm_get (pending_subscribe_req_ids m)
      | Some p \<Rightarrow> (hm_get (pending_subscribe_req_ids m))(p := None))(?i \<mapsto> k)"
    by (simp_all add: m'_def next_subscribe_req_id_def record_subscribe_req_id_def arm_subscribe_ack_def Let_def
        set_timers_def hm_simps fun_eq_iff split: option.split)
  show n: "unat (next_subscribe_req_id_field m') = Suc (unat ?i)" unfolding fields(1) by (rule next_id_room [OF room])
  have "hm_get (pending_subscribe_req_ids m) ?i = None"
    using ok unfolding req_maps_ok_def by (metis domIff less_irrefl)
  then have inv: "inverse_maps (hm_get (pending_subscribe_req_ids m')) (hm_get (subscribe_req_id_by_key m'))"
    using ok unfolding fields(2,3) req_maps_ok_def by (intro inverse_insert) simp_all
  have grow: "j < next_subscribe_req_id_field m'" if "j \<le> ?i" for j
    using that n by (simp add: word_le_nat_alt word_less_nat_alt)
  have "j < next_subscribe_req_id_field m'" if "j \<in> dom (hm_get (pending_subscribe_req_ids m'))" for j
  proof (cases "j = ?i")
    case False
    with that have "j \<in> dom (hm_get (pending_subscribe_req_ids m))"
      unfolding fields(3) by (auto split: option.splits if_splits)
    with ok have "j < ?i" by (simp add: req_maps_ok_def)
    then show ?thesis using grow by simp
  qed (simp add: grow)
  with inv show "req_maps_ok m'" by (simp add: req_maps_ok_def)
qed

fun sends :: "mc_op list \<Rightarrow> nat" where
  "sends [] = 0"
| "sends (OpSubscribeSent k due # ops) = Suc (sends ops)"
| "sends (op # ops) = sends ops"

lemma mc_step_forgets: "(\<And>k due. op \<noteq> OpSubscribeSent k due) \<Longrightarrow> forgets m (mc_step op m)"
proof -
  assume not_sent: "\<And>k due. op \<noteq> OpSubscribeSent k due"
  have popped: "forgets m (pop_timer_for_event ev m)" for ev
    by (rule forgets_same) (simp_all add: pop_timer_for_event_def set_timers_def)
  show ?thesis
  proof (cases op)
    case (OpTimer ev)
    then show ?thesis using forgets_trans [OF popped handle_event_forgets] by simp
  next
    case (OpSubscribeSent k due)
    then show ?thesis using not_sent by blast
  qed (simp_all add: handle_event_forgets fg.subscribe_failure fg.complete fg.R_refl forgets_disarm,
       ((intro conjI impI)?; rule forgets_same;
          simp add: book_keeping_defs note_inbound_activity_def record_pending_request_def mc_defs
            Let_def split: option.split)+)
qed

lemma run_maps_ok:
  "req_maps_ok m \<Longrightarrow> unat (next_subscribe_req_id_field m) + sends ops < 2 ^ 64 \<Longrightarrow> req_maps_ok (mc_run ops m)"
proof (induction ops arbitrary: m)
  case Nil
  then show ?case by (simp add: mc_run_def)
next
  case (Cons op ops)
  have run: "mc_run (op # ops) m = mc_run ops (mc_step op m)" by (simp add: mc_run_def)
  show ?case
  proof (cases "\<exists>k due. op = OpSubscribeSent k due")
    case True
    then obtain k due where op: "op = OpSubscribeSent k due" by blast
    have "Suc (unat (next_subscribe_req_id_field m)) < 2 ^ 64" using Cons.prems op by simp
    note S = sent_maps_ok [OF Cons.prems(1) this, of k due]
    have "unat (next_subscribe_req_id_field (mc_step op m)) + sends ops < 2 ^ 64"
      using S(2) Cons.prems(2) op by simp
    with S(1) op show ?thesis unfolding run by (intro Cons.IH) simp_all
  next
    case False
    then have F: "forgets m (mc_step op m)" and "sends (op # ops) = sends ops"
      using mc_step_forgets by (blast, cases op) simp_all
    then show ?thesis unfolding run using Cons.prems by (intro Cons.IH) (simp_all add: forgets_def)
  qed
qed



section \<open>A connect caller lost by a forced reconnect\<close>

fun answers_connect :: "u64 \<Rightarrow> effect \<Rightarrow> bool" where
  "answers_connect r (Published e) = (env_request_id e = Some r \<and>
     (case env_payload e of ConnectionOpenEvent _ _ _ \<Rightarrow> True | ConnectionReopenedEvent _ _ _ \<Rightarrow> True
      | ConnectionFailedEvent _ _ _ _ _ \<Rightarrow> True | _ \<Rightarrow> False))"
| "answers_connect r _ = False"

definition connect_answers :: "u64 \<Rightarrow> effect list \<Rightarrow> nat" where
  "connect_answers r t = length (filter (answers_connect r) t)"

lemma connect_answers_simps [simp]:
  "connect_answers r (trace (tick m)) = connect_answers r (trace m)"
  "connect_answers r (trace (act e m)) = connect_answers r (trace m) + (if answers_connect r e then 1 else 0)"
  by (simp_all add: connect_answers_def tick_def act_def)

lemma connect_answers_helpers [simp]:
  "connect_answers r (trace (fold (\<lambda>rid. emit_lifecycle (ConnectionClosedEvent u t a b c) (Some rid)) rs m)) =
     connect_answers r (trace m)"
  "connect_answers r (trace (emit_lifecycle (ConnectionConnectingEvent u' n) rid' m)) = connect_answers r (trace m)"
  "connect_answers r (trace (emit_rate_throttled rid' e m)) = connect_answers r (trace m)"
  "connect_answers r (trace (drain cause m)) = connect_answers r (trace m)"
proof -
  show "connect_answers r (trace (fold (\<lambda>rid. emit_lifecycle (ConnectionClosedEvent u t a b c) (Some rid)) rs m)) =
      connect_answers r (trace m)"
    by (induction rs arbitrary: m) (simp_all add: emit_lifecycle_def publish_def)
  have "connect_answers r (trace (fold (drain_step cause) ps m)) = connect_answers r (trace m)" for ps m
    by (induction ps arbitrary: m) (simp_all add: drain_step_def split_beta Let_def publish_def)
  then show "connect_answers r (trace (drain cause m)) = connect_answers r (trace m)"
    by (simp add: drain_def)
qed (simp_all add: emit_rate_throttled_def emit_lifecycle_def publish_def)

text \<open>
  Property C39. A forced reconnect strands an earlier connect caller. When the connection is closing with a
  connect caller still latched and a reconnect requested, finishing the close overwrites the
  latched caller with the reconnect's: the earlier caller receives no answer in this
  step and is in neither the latch nor the cohort afterwards, so nothing will answer it.
\<close>

theorem reconnect_drops_connect_waiter:
  assumes "mc_state m = Closing" and "pending_connect_request_id m = Some r"
    and "pending_reconnect_request_id m = Some q" and "r \<noteq> q" and "r \<notin> set (additional_connect_request_ids m)"
    and "ev \<in> {WireCloseReceived code reason, WireAbnormalClose kind, TimerCloseTimeout}"
  shows "pending_connect_request_id (handle_event ev m) = Some q \<and>
    r \<notin> set (additional_connect_request_ids (handle_event ev m)) \<and>
    connect_answers r (trace (handle_event ev m)) = connect_answers r (trace m)"
proof -
  have "pending_connect_request_id (enter_closed_or_reconnect reason' ack m) = Some q \<and>
      additional_connect_request_ids (enter_closed_or_reconnect reason' ack m) = additional_connect_request_ids m \<and>
      connect_answers r (trace (enter_closed_or_reconnect reason' ack m)) = connect_answers r (trace m)" for reason' ack
    using assms(3)
    by (simp add: enter_closed_or_reconnect_def reenter_connecting_def consult_shape mc_defs Let_def split: sum.split)
  with assms show ?thesis by (auto simp: handle_event_def closing_event_def)
qed

definition stranding_ops :: "mc_op list" where
  "stranding_ops = [OpEvent (CallStartConnect 1), OpEvent (CallClose 2), OpEvent (CallForceReconnect 3)]"

theorem reconnect_drops_connect_waiter_witness:
  "pending_connect_request_id (handle_event TimerCloseTimeout
     (mc_run stranding_ops (mc_new Public knobs_defaults (with_knobs 2 10) (\<lambda>n. n) 0 0))) = Some 3"
proof -
  let ?m = "mc_run stranding_ops (mc_new Public knobs_defaults (with_knobs 2 10) (\<lambda>n. n) 0 0)"
  have "mc_state ?m = Closing" "pending_connect_request_id ?m = Some 1" "pending_reconnect_request_id ?m = Some 3"
    "additional_connect_request_ids ?m = []"
    by (simp_all add: stranding_ops_def mc_run_def mc_new_def handle_event_def idle_event_def consult_shape
        try_consume_def with_knobs_def prune_def mc_defs Let_def connecting_event_def closing_event_def)
  then show ?thesis
    using reconnect_drops_connect_waiter [of ?m 1 3 TimerCloseTimeout] by simp
qed

end
