(* ===== verification/Registry_Properties.thy ===== *)
theory Registry_Properties
  imports Subscription_Registry
begin

text \<open>
  What the subscription registry guarantees to its callers: the invariant and the mirror on every
  reachable registry, subscriber counting, guards of dead generations, the replay of
  subscriptions after a reconnect, bounded book recovery, sequence gaps and frame contents.
\<close>

section \<open>Reachable registries\<close>

text \<open>
  Every registry reachable from the empty one, by any sequence of registrations,
  releases, guard records and drops, acks, terminations, book frames, resyncs, timeouts,
  sequence numbers and forced teardowns, is well formed: every entry sits under its own
  channel and pair; a live entry has a subscriber and no countdown, a tombstone has no
  subscriber and somebody still to release it; generations never exceed the counter; every
  book builder is sorted, within its depth, deeper than the checksum window and below the
  gap budget.
\<close>

lemma registry_well_formed:
  "let r = reg_run H deser (dec :: string \<Rightarrow> 'd::linorder option) ops in
   \<forall>k. case reg_view r k of
         None \<Rightarrow> True
       | Some e \<Rightarrow> (e_channel e, e_pair e) = k \<and>
           0 < e_generation e \<and> e_generation e \<le> next_generation r \<and>
           (if is_tombstone e then e_count e = 0 \<and> 0 < tombstone_holders e
            else 0 < e_count e \<and> tombstone_holders e = 0) \<and>
           (case e_builder e of
              None \<Rightarrow> True
            | Some b \<Rightarrow> builder_inv b \<and> consecutive_gaps b < 5 \<and> 10 < maintained_depth b \<and>
                caller_depth b \<le> maintained_depth b)"
  unfolding Let_def
proof
  fix k
  show "case reg_view (reg_run H deser dec ops) k of
         None \<Rightarrow> True
       | Some e \<Rightarrow> (e_channel e, e_pair e) = k \<and>
           0 < e_generation e \<and> e_generation e \<le> next_generation (reg_run H deser dec ops) \<and>
           (if is_tombstone e then e_count e = 0 \<and> 0 < tombstone_holders e
            else 0 < e_count e \<and> tombstone_holders e = 0) \<and>
           (case e_builder e of
              None \<Rightarrow> True
            | Some b \<Rightarrow> builder_inv b \<and> consecutive_gaps b < 5 \<and> 10 < maintained_depth b \<and>
                caller_depth b \<le> maintained_depth b)"
    using reg_invD(4) [OF reg_run_inv, of H deser dec ops k]
    by (auto simp: entry_ok_def builder_ok_def CHECKSUM_DEPTH_def MAX_CONSECUTIVE_BOOK_GAPS_def
        split: option.split)
qed

lemma same_state_map: "rel_option same_state x y \<Longrightarrow> map_option row_state y = map_option e_state x"
  by (cases x; cases y) (simp_all add: same_state_def)

text \<open>
  Property C34. The shared mirror that \<open>subscription_state\<close> reads never disagrees with the
  registry: while its lock is not poisoned, it has a row for exactly the registered keys and
  each row holds the state of its entry.
\<close>

theorem mirror_agrees:
  fixes dec :: "string \<Rightarrow> 'd::linorder option"
  assumes "\<not> mirror_poisoned (reg_run H deser dec ops)"
  shows "map_option row_state (hm_get (mirror (reg_run H deser dec ops)) k) =
    map_option e_state (reg_view (reg_run H deser dec ops) k)"
proof (rule same_state_map)
  show "rel_option same_state (reg_view (reg_run H deser dec ops) k)
      (hm_get (mirror (reg_run H deser dec ops)) k)"
    using reg_invD(5) [OF reg_run_inv assms] unfolding mirrored_def by blast
qed

definition sample_ops :: "unit reg_op list" where
  "sample_ops = [OpRegister Public Trade (Some ''A/B'') (PTrade None) 5 False, OpAcked Trade (Some ''A/B'')]"

theorem mirror_agrees_witness:
  "map_option row_state (hm_get (mirror (reg_run crc32_ieee (\<lambda>_. None) (\<lambda>_. None :: rat option) sample_ops))
     (Trade, Some ''A/B'')) = Some Acked"
proof -
  let ?r = "reg_run crc32_ieee (\<lambda>_. None) (\<lambda>_. None :: rat option) sample_ops"
  have "\<not> mirror_poisoned ?r" "map_option e_state (reg_view ?r (Trade, Some ''A/B'')) = Some Acked"
    by code_simp+
  with mirror_agrees [of crc32_ieee "\<lambda>_. None" "\<lambda>_. None :: rat option" sample_ops "(Trade, Some ''A/B'')"]
  show ?thesis by simp
qed

lemma plain_count: "reg_inv r \<Longrightarrow> plain r k \<Longrightarrow> reg_view r k = Some e \<Longrightarrow> 0 < e_count e"
  using reg_invD(4) [of r k e]
  by (cases k) (simp add: entry_ok_def plain_def is_terminated_def reg_entry_view)

lemma register_counts:
  fixes r :: "'d::linorder subscription_registry"
  assumes "reg_inv r" and "plain r (ch, p)"
  shows "holders (fst (register (entry_new url ch p params) now g r)) (ch, p) = holders r (ch, p) + 1 \<and>
    snd (register (entry_new url ch p params) now g r) =
      holders (fst (register (entry_new url ch p params) now g r)) (ch, p)"
proof (cases "reg_view r (ch, p)")
  case None
  have "e_count (entry_new url ch p params :: 'd subscription_entry) = 1"
    by (simp add: entry_new_def)
  then show ?thesis
    using None register_new [of r "entry_new url ch p params" now g] by (simp add: holders_def)
next
  case (Some e)
  then show ?thesis
    using register_again [of r "entry_new url ch p params" e now g] plain_count [OF assms Some]
    by (simp add: holders_def)
qed

lemma release_counts:
  assumes "reg_inv r" and "plain r (ch, p)"
  shows "holders (fst (release ch p r)) (ch, p) = holders r (ch, p) - 1 \<and>
    snd (release ch p r) = holders (fst (release ch p r)) (ch, p) \<and>
    (reg_view (fst (release ch p r)) (ch, p) = None \<longleftrightarrow> holders r (ch, p) \<le> 1) \<and>
    (\<forall>k. k \<noteq> (ch, p) \<longrightarrow> reg_view (fst (release ch p r)) k = reg_view r k)"
proof (cases "reg_view r (ch, p)")
  case None
  then have "release ch p r = (r, 0)" by (simp add: release_def release_inner_def reg_entry_view)
  with None show ?thesis by (simp add: holders_def)
next
  case (Some e)
  show ?thesis
    using release_plain [OF assms(1) Some assms(2)] plain_count [OF assms Some] Some
    by (auto simp: holders_def)
qed



text \<open>
  A guard from a dead generation cannot evict a revived subscription. If a guard is
  recorded on a live entry, the entry is then terminated, and the key is registered again, dropping
  the old guard leaves every entry as it was.
\<close>

lemma stale_guard_is_inert:
  fixes r :: "'d::linorder subscription_registry"
  assumes "reg_inv r" and "reg_view r (ch, p) = Some e" and "\<not> is_tombstone e"
  shows "let r3 = fst (register (entry_new url ch p params) now g
                    (note_terminated ch p cause err (record_guard_ref h ch p r)))
         in reg_view (fst (release_guard_ref h ch p r3)) = reg_view r3 \<and>
            (\<exists>e'. reg_view r3 (ch, p) = Some e' \<and> e_count e' = 1 \<and> e_state e' = Pending)"
proof -
  define r1 where "r1 = record_guard_ref h ch p r"
  define r2 where "r2 = note_terminated ch p cause err r1"
  define r3 where "r3 = fst (register (entry_new url ch p params) now g r2)"
  have r1: "reg_view r1 = reg_view r" "next_generation r1 = next_generation r"
    "hm_get (guard_refs r1) (h, ch, p) = Some (e_generation e)"
    using assms(2) by (simp_all add: r1_def record_guard_ref_def entry_generation_def reg_entry_view hm_simps)
  let ?e = "e\<lparr>tombstone_holders := e_count e, e_count := 0, e_state := Terminated cause err\<rparr>"
  have r2: "reg_view r2 (ch, p) = Some ?e" "next_generation r2 = next_generation r1"
    "guard_refs r2 = guard_refs r1"
    using assms(2,3) r1(1) by (simp_all add: r2_def note_terminated_def reg_entry_view reg_view_put_entry)
  from register_revive [of r2 "entry_new url ch p params" ?e now g] r2(1)
  obtain e' where e': "reg_view r3 (ch, p) = Some e'" "e_generation e' = next_generation r + 1"
    "e_count e' = 1" "e_state e' = Pending"
    using r1(2) r2(2) by (auto simp: r3_def)
  have "e_generation e \<noteq> e_generation e'"
    using reg_invD(4) [OF assms(1,2)] e'(2) by (simp add: entry_ok_def)
  moreover have "hm_get (guard_refs r3) (h, ch, p) = Some (e_generation e)"
    using r1(3) r2(3) by (simp add: r3_def)
  ultimately have "reg_view (fst (release_guard_ref h ch p r3)) = reg_view r3"
    using e'(1) by (simp add: release_guard_ref_def Let_def reg_entry_view)
  with e' show ?thesis
    unfolding Let_def r3_def [symmetric] r2_def [symmetric] r1_def [symmetric] by blast
qed

text \<open>
  The replay list of a connection holds every live entry of its endpoint exactly
  once and nothing else (no tombstone, no entry of another endpoint), channel-wide entries
  before per-pair ones and each group in wire-name order; the list is empty exactly when
  \<open>has_url_entry\<close> says so.
\<close>

lemma replay_list_exact:
  assumes "reg_inv r"
  shows "let es = entries_for_resubscribe_sorted url r in
    set es = {e. (\<exists>k. reg_view r k = Some e) \<and> e_url e = url \<and> \<not> is_tombstone e} \<and>
    distinct (map entry_key es) \<and>
    sorted (map (\<lambda>e. (e_pair e \<noteq> None, channel_str (e_channel e), e_pair e)) es) \<and>
    (es \<noteq> [] \<longleftrightarrow> has_url_entry url r)"
proof -
  let ?es = "entries_for_resubscribe_sorted url r"
  have "sorted (map entry_order_key ?es)"
    unfolding entries_for_resubscribe_sorted_def by (rule sorted_sort_key)
  moreover have "?es = [] \<longleftrightarrow> set ?es = {}" by simp
  then have "?es \<noteq> [] \<longleftrightarrow> has_url_entry url r"
    unfolding entries_for_resubscribe_sorted_def set_sort has_url_entry_def list_ex_iff by auto
  ultimately show ?thesis
    using replay_set [OF reg_invD(1) [OF assms], of url] replay_distinct [OF assms, of url]
    by (simp add: Let_def subscription_order_key_def)
qed

text \<open>
  Signed replay loses and repeats nothing. On an authenticated connection the first
  subscribe frame followed by the remaining ones, composed after the first key is known, is the
  whole replay in order; there is a first frame exactly when the endpoint has a live entry.
\<close>

lemma signed_replay_complete:
  assumes "reg_inv r"
  shows "case compose_first_signed_subscribe_authed url token r of
      None \<Rightarrow> compose_subscribe_frames_for_url_authed url token r = []
    | Some (ch, p, payload) \<Rightarrow> compose_subscribe_frames_for_url_authed url token r =
        (ch, p, payload) # compose_remaining_signed_subscribes_authed url token (ch, p) r"
proof (cases "entries_for_resubscribe_sorted url r")
  case Nil
  then show ?thesis
    by (simp add: compose_first_signed_subscribe_authed_def compose_subscribe_frames_for_url_authed_def
        compose_subscribe_frames_for_url_def)
next
  case (Cons e es)
  have "\<not> (e_channel x = e_channel e \<and> e_pair x = e_pair e)" if "x \<in> set es" for x
    using replay_distinct [OF assms, of url] that unfolding Cons by (auto simp: image_iff)
  then have "filter (\<lambda>x. e_channel x = e_channel e \<longrightarrow> e_pair x \<noteq> e_pair e) es = es"
    by (simp add: filter_id_conv)
  then show ?thesis
    using Cons
    by (simp add: compose_first_signed_subscribe_authed_def compose_subscribe_frames_for_url_authed_def
        compose_subscribe_frames_for_url_def compose_remaining_signed_subscribes_authed_def
        filter_map comp_def)
qed

section \<open>Gap recovery is bounded\<close>

definition gap_budget :: "'d subscription_entry \<Rightarrow> nat" where
  "gap_budget e = (case e_builder e of None \<Rightarrow> 0 | Some b \<Rightarrow> 5 - unat (consecutive_gaps b))"

lemma gap_count_step:
  "consecutive_gaps b < MAX_CONSECUTIVE_BOOK_GAPS \<Longrightarrow>
   unat (saturating_add (consecutive_gaps b) 1) = Suc (unat (consecutive_gaps b)) \<and>
   unat (consecutive_gaps b) < 5"
  by (simp add: MAX_CONSECUTIVE_BOOK_GAPS_def word_sat word_less_nat_alt)

lemma applied_gap_count:
  assumes "(if snap then apply_snapshot H bs as c b else apply_delta H bs as c b) = (b', res)"
  shows "consecutive_gaps b' = (case res of Inr _ \<Rightarrow> 0 | Inl _ \<Rightarrow> saturating_add (consecutive_gaps b) 1)"
  using assms
  by (auto simp: apply_snapshot_def apply_delta_def dest!: validate_and_record_cases split: if_splits)

text \<open>What one frame does to the budget.\<close>

lemma drive_update_budget:
  assumes "builder_ok (e_builder e)" and "drive_update H deser dec snap data e = (e', out)"
  shows "case out of
      Gap _ _ \<Rightarrow> gap_budget e = Suc (gap_budget e') \<and> 0 < gap_budget e'
    | GapBudgetExhausted \<Rightarrow> gap_budget e = 1 \<and> e_builder e' = None
    | Maintained _ \<Rightarrow> gap_budget e' = 5
    | _ \<Rightarrow> e' = e"
proof (cases "\<exists>b p. e_builder e = Some b \<and> \<not> (resyncing b \<and> \<not> snap) \<and>
    parse_book_frame deser dec data = Some p \<and> pb_symbol p = b_symbol b")
  case True
  then obtain b p where b: "e_builder e = Some b" "\<not> (resyncing b \<and> \<not> snap)"
    "parse_book_frame deser dec data = Some p" "pb_symbol p = b_symbol b" by blast
  obtain b' res where ap: "(if snap then apply_snapshot H (pb_bids p) (pb_asks p) (pb_checksum p) b
      else apply_delta H (pb_bids p) (pb_asks p) (pb_checksum p) b) = (b', res)" by fastforce
  have step: "unat (saturating_add (consecutive_gaps b) 1) = Suc (unat (consecutive_gaps b))"
    "unat (consecutive_gaps b) < 5"
    using assms(1) b(1) gap_count_step [of b] by (simp_all add: builder_ok_def)
  show ?thesis
  proof (cases res)
    case (Inr u)
    with assms(2) b ap have "e' = e\<lparr>e_builder := Some b'\<rparr>" "\<exists>u. out = Maintained u"
      by (auto simp: drive_update_def Let_def)
    with applied_gap_count [OF ap] Inr show ?thesis by (auto simp: gap_budget_def)
  next
    case (Inl err)
    obtain ex co where err: "err = ChecksumMismatch ex co" by (cases err)
    have n: "unat (consecutive_gaps b') = Suc (unat (consecutive_gaps b))"
      using applied_gap_count [OF ap] Inl step by simp
    from assms(2) b ap Inl err have "(e', out) = (if consecutive_gaps b' \<ge> MAX_CONSECUTIVE_BOOK_GAPS
        then (e\<lparr>e_builder := None\<rparr>, GapBudgetExhausted) else (e\<lparr>e_builder := Some b'\<rparr>, Gap ex co))"
      by (auto simp: drive_update_def Let_def)
    then show ?thesis
      using n step b(1)
      by (auto simp: gap_budget_def word_le_nat_alt MAX_CONSECUTIVE_BOOK_GAPS_def split: if_splits)
  qed
next
  case False
  with assms(2) show ?thesis by (auto simp: drive_update_def split: option.splits if_splits)
qed

text \<open>Frames (and resyncs, \<open>None\<close>) driven into one entry, with the outcomes of the frames.\<close>

fun drive_all :: "'h hasher \<Rightarrow> ('j \<Rightarrow> raw_book_data option) \<Rightarrow> (string \<Rightarrow> 'd::linorder option) \<Rightarrow>
    (bool \<times> 'j) option list \<Rightarrow> 'd subscription_entry \<Rightarrow> 'd book_drive_outcome list" where
  "drive_all H deser dec [] e = []"
| "drive_all H deser dec (None # fs) e =
     drive_all H deser dec fs (e\<lparr>e_builder := map_option begin_resync (e_builder e)\<rparr>)"
| "drive_all H deser dec (Some (snap, data) # fs) e =
     (let (e', out) = drive_update H deser dec snap data e in out # drive_all H deser dec fs e')"

fun is_gap :: "'d book_drive_outcome \<Rightarrow> bool" where
  "is_gap (Gap _ _) = True"
| "is_gap _ = False"

fun is_maintained :: "'d book_drive_outcome \<Rightarrow> bool" where
  "is_maintained (Maintained _) = True"
| "is_maintained _ = False"

lemma resync_budget: "gap_budget (e\<lparr>e_builder := map_option begin_resync (e_builder e)\<rparr>) = gap_budget e"
  by (simp add: gap_budget_def begin_resync_def split: option.split)

lemma gaps_within_budget:
  assumes "builder_ok (e_builder e)" and "\<not> list_ex is_maintained (drive_all H deser dec fs e)"
  shows "length (filter is_gap (drive_all H deser dec fs e)) \<le> gap_budget e - 1"
  using assms
proof (induction H deser dec fs e rule: drive_all.induct)
  case (2 H deser dec fs e)
  have "builder_ok (map_option begin_resync (e_builder e))"
    using "2.prems"(1) begin_resync_ok by (cases "e_builder e") auto
  with 2 show ?case by (simp add: resync_budget)
next
  case (3 H deser dec snap data fs e)
  obtain e' out where d: "drive_update H deser dec snap data e = (e', out)" by fastforce
  from drive_update_builder [OF "3.prems"(1), of H deser dec snap data] d
  have "builder_ok (e_builder e')" by auto
  with 3 d have "length (filter is_gap (drive_all H deser dec fs e')) \<le> gap_budget e' - 1" by auto
  with drive_update_budget [OF "3.prems"(1) d] "3.prems"(2) d show ?case
    by (cases out) (auto simp: gap_budget_def)
qed simp

text \<open>
  A book that keeps failing its checksum stops recovering: between two accepted frames
  at most four gaps are reported, however many frames and resyncs arrive; the fifth failure
  reports an exhausted budget and drops the builder.
\<close>

lemma gap_recovery_bounded:
  assumes "builder_ok (e_builder e)" and "\<not> list_ex is_maintained (drive_all H deser dec fs e)"
  shows "length (filter is_gap (drive_all H deser dec fs e)) \<le> 4"
  using gaps_within_budget [OF assms] by (auto simp: gap_budget_def split: option.splits)

definition bad_raw :: raw_book_data where
  "bad_raw = \<lparr>raw_symbol = ''A/B'', raw_bids = [], raw_asks = [], raw_checksum = 1, raw_timestamp = ''t''\<rparr>"

lemma empty_crc: "compute_book_crc32 crc32_ieee [] [] = 0"
  by code_simp

lemma empty_book_checksum:
  "b_asks b = [] \<Longrightarrow> b_bids b = [] \<Longrightarrow> compute_checksum crc32_ieee b = 0"
  by (simp add: compute_checksum_def empty_crc)

section \<open>Dropped sequence numbers\<close>

fun observe_all :: "u64 list \<Rightarrow> sequence_tracker \<Rightarrow> u32 option list" where
  "observe_all [] t = []"
| "observe_all (n # ns) t = (let (t', d) = observe n False t in d # observe_all ns t')"

definition dropped :: "u32 option \<Rightarrow> nat" where
  "dropped d = (case d of None \<Rightarrow> 0 | Some n \<Rightarrow> unat n)"

lemma observe_dropped:
  assumes "m < n" and "unat n - unat m \<le> 2 ^ 32"
  shows "fst (observe n False (Some m)) = Some n \<and>
    dropped (snd (observe n False (Some m))) = unat n - unat m - 1"
proof -
  have lt: "unat m < unat n" using assms(1) by (simp add: word_less_nat_alt)
  have d: "unat (n - m) = unat n - unat m" using assms(1) by (simp add: unat_sub less_imp_le)
  obtain k where k: "unat (n - m - 1) = k" by simp
  have kn: "unat n - unat m = k + 1"
    using k d lt by (subst (asm) unat_sub) (simp_all add: word_le_nat_alt)
  have "unat (word_of_nat k :: u32) = k"
    using kn assms(2) by (simp add: unsigned_of_nat take_bit_nat_eq_self)
  moreover have "n - m > 1 \<longleftrightarrow> 0 < k" using d kn by (simp add: word_less_nat_alt)
  ultimately show ?thesis
    using assms kn
    by (simp add: observe_def checked_sub_def dropped_def k less_imp_le del: of_nat_unat)
qed

text \<open>
  No loss on a channel goes unreported: over any run of strictly increasing sequence
  numbers, the reported drops add up to exactly the numbers that were skipped.
\<close>

lemma sequence_gaps_add_up:
  assumes "sorted_wrt (<) (n # ns)" and "unat (last (n # ns)) - unat n \<le> 2 ^ 32"
  shows "sum_list (map dropped (observe_all ns (Some n))) + length ns = unat (last (n # ns)) - unat n"
  using assms
proof (induction ns arbitrary: n)
  case (Cons m ns)
  have lt: "unat n < unat m" and le: "unat m \<le> unat (last (m # ns))"
    using Cons.prems(1) by (auto simp: word_less_nat_alt less_imp_le)
  obtain t d where o: "observe m False (Some n) = (t, d)" by fastforce
  have "t = Some m" "dropped d = unat m - unat n - 1"
    using observe_dropped [of n m] Cons.prems lt le o by (auto simp: word_less_nat_alt)
  moreover have "sum_list (map dropped (observe_all ns (Some m))) + length ns = unat (last (m # ns)) - unat m"
    using Cons.prems lt le by (intro Cons.IH) auto
  ultimately show ?case using o lt le by simp
qed simp

section \<open>Subscribe and unsubscribe frames\<close>

text \<open>
  An unsubscribe frame names the same feed as the subscribe frame of the same
  subscription: its parameters are those of the subscribe frame without the snapshot request and
  the ticker trigger; both carry the channel, the symbols when there are any, the method
  and the request id; and injecting a token adds that one parameter and changes nothing else.
\<close>

lemma frames_name_the_same_feed:
  "let sub = build_subscribe_frame ''subscribe'' ch pairs params req_id;
       uns = build_subscribe_frame ''unsubscribe'' ch pairs params req_id;
       tok = inject_token token sub
   in \<exists>ps pu pt. json_get sub ''params'' = Some (JObj ps) \<and> json_get uns ''params'' = Some (JObj pu) \<and>
      map_of pu = (map_of ps)(''snapshot'' := None, ''event_trigger'' := None) \<and>
      map_of ps ''channel'' = Some (JStr (channel_str ch)) \<and>
      map_of ps ''symbol'' = (if pairs = [] then None else Some (JArr (map JStr pairs))) \<and>
      json_get sub ''method'' = Some (JStr ''subscribe'') \<and>
      json_get uns ''method'' = Some (JStr ''unsubscribe'') \<and>
      json_get sub ''req_id'' = Some (JNum req_id) \<and> json_get uns ''req_id'' = Some (JNum req_id) \<and>
      json_get tok ''params'' = Some (JObj pt) \<and> map_of pt = (map_of ps)(''token'' \<mapsto> JStr token) \<and>
      json_get tok ''method'' = Some (JStr ''subscribe'') \<and> json_get tok ''req_id'' = Some (JNum req_id)"
  by (cases params)
    (auto simp: build_subscribe_frame_def inject_token_def Let_def fun_eq_iff split: option.split)

end
