(* ===== verification/F64_Duration.thy ===== *)
theory F64_Duration
  imports F64
begin

text \<open>
  Durations as binary64 seconds: \<open>Duration::as_secs_f64\<close>, \<open>Duration::try_from_secs_f64\<close> of the standard
  library, with the facts on rounding the rate limiters need: rounding is idempotent, so the
  values a counter stores are values of the format, and whole seconds are compared exactly.
\<close>

section \<open>Values of the format\<close>

definition in_format :: "rat \<Rightarrow> bool" where
  "in_format r \<longleftrightarrow> round64 r = r"

lemma binade_p2_le: "binade (p2 f) \<le> f"
proof -
  have "p2 (binade (p2 f)) \<le> p2 f" using binade_bounds [of "p2 f"] by simp
  then show ?thesis using power_int_strict_increasing [of f "binade (p2 f)" "2 :: rat"] by force
qed

lemma binade_less: "0 < x \<Longrightarrow> x < p2 f \<Longrightarrow> binade x < f"
  using binade_bounds [of x] p2_mono [of f "binade x"] by linarith

lemma round64_idem_pos:
  assumes "0 < x"
  shows "round64 (round64 x) = round64 x"
proof -
  let ?r = "round64 x" and ?f = "max (binade x + 1) (ulp_exp x)" and ?k = "round_half_even (x / p2 (ulp_exp x))"
  have r: "?r = of_int ?k * p2 (ulp_exp x)" using assms by (rule round64_pos)
  have "x \<le> p2 (binade x + 1)" using binade_bounds [OF assms] by simp
  also have "\<dots> \<le> p2 ?f" by (rule p2_mono) simp
  finally have le: "?r \<le> p2 ?f" using assms by (intro round64_bound_above) simp_all
  have nonneg: "0 \<le> ?r" using assms by (intro round64_nonneg) simp
  consider (zero) "?r = 0" | (top) "?r = p2 ?f" | (inside) "0 < ?r" "?r < p2 ?f" using le nonneg by linarith
  then show ?thesis
  proof cases
    case top
    have "- 1074 \<le> ?f" by (simp add: ulp_exp_def)
    then have "ulp_exp (p2 ?f) \<le> ?f" using binade_p2_le [of ?f] by (simp add: ulp_exp_def)
    then show ?thesis unfolding top by (intro round64_exact [where k = 1 and e = ?f]) simp_all
  next
    case inside
    have "?f = binade x + 1"
    proof (rule ccontr)
      assume "?f \<noteq> binade x + 1"
      then have "?f = ulp_exp x" by linarith
      then have "of_int ?k * p2 (ulp_exp x) < 1 * p2 (ulp_exp x)" using inside(2) r by simp
      then have "(of_int ?k :: rat) < 1" by (rule mult_right_less_imp_less) simp
      moreover have "(0 :: rat) < of_int ?k"
        using inside(1) r by (simp only: zero_less_mult_iff) (simp add: less_le_not_le)
      ultimately show False by simp
    qed
    then have "binade ?r \<le> binade x" using binade_less [OF inside] by simp
    then have "ulp_exp \<bar>?r\<bar> \<le> ulp_exp x" using inside by (simp add: ulp_exp_def)
    then show ?thesis by (intro round64_exact [OF r])
  qed simp
qed

lemma round64_idem: "round64 (round64 x) = round64 x"
proof -
  consider "x = 0" | "0 < x" | "0 < - x" by linarith
  then show ?thesis
    using round64_idem_pos [of x] round64_idem_pos [of "- x"] by cases (simp_all add: round64_minus)
qed

lemma in_format_round [simp]: "in_format (round64 x)"
  by (simp add: in_format_def round64_idem)

lemma in_format_int: "\<bar>n\<bar> < 2 ^ 53 \<Longrightarrow> in_format (of_int n)"
  by (simp add: in_format_def round64_int)

lemma round_le_format: "x \<le> y \<Longrightarrow> in_format y \<Longrightarrow> round64 x \<le> y"
  using round64_mono [of x y] by (simp add: in_format_def)

lemma format_le_round: "in_format x \<Longrightarrow> x \<le> y \<Longrightarrow> x \<le> round64 y"
  using round64_mono [of x y] by (simp add: in_format_def)

section \<open>Durations\<close>

definition as_secs_f64 :: "duration \<Rightarrow> f64" where
  "as_secs_f64 d =
     f_add (f64_of (of_nat (d div 1000000000))) (f_div (Fin (of_nat (d mod 1000000000))) (Fin 1000000000))"

text \<open>\<open>None\<close> for a negative, infinite or not-a-number argument and beyond \<open>2 ^ 64\<close> seconds; the nanoseconds
  are rounded to nearest, ties to even.\<close>

definition try_from_secs_f64 :: "f64 \<Rightarrow> duration option" where
  "try_from_secs_f64 x =
     (case x of
        Fin r \<Rightarrow> if r < 0 \<or> 2 ^ 64 \<le> r then None else Some (nat (round_half_even (r * 1000000000)))
      | _ \<Rightarrow> None)"

lemma f64_of_nonneg_cases:
  assumes "0 \<le> x"
  obtains "f64_of x = Fin (round64 x)" "0 \<le> round64 x" | "f64_of x = PInf" "2 ^ 1024 \<le> round64 x"
proof -
  have nonneg: "0 \<le> round64 x" using assms by (rule round64_nonneg)
  have "(0 :: rat) < 2 ^ 1024" by (rule zero_less_power) simp
  then have "\<not> round64 x \<le> - (2 ^ 1024)" using nonneg by linarith
  then show ?thesis
    using that nonneg by (cases "2 ^ 1024 \<le> round64 x") (simp_all add: f64_of_def Let_def)
qed

lemma in_format_scaled:
  assumes "\<bar>k\<bar> < 2 ^ 53" and "- 1074 \<le> e"
  shows "in_format (of_int k * p2 e)"
  unfolding in_format_def
proof (rule round64_exact [OF refl])
  let ?x = "of_int k * p2 e"
  assume "?x \<noteq> 0"
  then have pos: "0 < \<bar>?x\<bar>" by simp
  have "\<bar>of_int k :: rat\<bar> < of_int (2 ^ 53)" using assms(1) by (simp only: of_int_abs [symmetric] of_int_less_iff)
  then have "\<bar>?x\<bar> < p2 53 * p2 e" by (simp add: abs_mult)
  also have "\<dots> = p2 (53 + e)" by (simp add: power_int_add)
  finally have "binade \<bar>?x\<bar> < 53 + e" using pos by (rule binade_less [rotated])
  then show "ulp_exp \<bar>?x\<bar> \<le> e" using assms(2) by (simp add: ulp_exp_def)
qed

lemma below_int_format: "n \<le> 1024 \<Longrightarrow> in_format (of_nat n - p2 (- 30))"
proof -
  assume "n \<le> 1024"
  then have "\<bar>int n * 2 ^ 30 - 1\<bar> < 2 ^ 53" by simp
  then have "in_format (of_int (int n * 2 ^ 30 - 1) * p2 (- 30))" by (rule in_format_scaled) simp
  moreover have "of_int (int n * 2 ^ 30 - 1) * p2 (- 30) = of_nat n - p2 (- 30)"
    by (simp add: power_int_minus field_simps)
  ultimately show ?thesis by (simp only:)
qed

lemma nanos_part:
  assumes "m < 1000000000"
  obtains q where "f_div (Fin (of_nat m)) (Fin 1000000000) = Fin q" "0 \<le> q" "q \<le> 1 - p2 (- 30)"
proof -
  let ?x = "of_nat m / 1000000000 :: rat"
  have "of_nat m \<le> (of_nat 999999999 :: rat)" using assms by (simp only: of_nat_le_iff)
  then have lim: "?x \<le> of_nat 1 - p2 (- 30)" by (simp add: power_int_minus field_simps)
  then have "round64 ?x \<le> 1 - p2 (- 30)" using round_le_format [OF lim below_int_format] by simp
  moreover have "?x \<le> of_int 1" using lim by (simp add: power_int_minus)
  then have "f64_of ?x = Fin (round64 ?x)" "0 \<le> round64 ?x" using f64_of_range [of 0 ?x 1] by simp_all
  ultimately show ?thesis by (intro that [of "round64 ?x"]) (simp_all add: f_div_def)
qed

lemma as_secs_cases:
  obtains r where "as_secs_f64 d = Fin r" "in_format r" "0 \<le> r" | "as_secs_f64 d = PInf"
proof -
  obtain q where q: "f_div (Fin (of_nat (d mod 1000000000))) (Fin 1000000000) = Fin q" "0 \<le> q"
    using nanos_part [of "d mod 1000000000"] by (metis mod_less_divisor zero_less_numeral)
  have "0 \<le> (of_nat (d div 1000000000) :: rat)" by simp
  then show ?thesis
  proof (cases rule: f64_of_nonneg_cases)
    case 1
    then have "0 \<le> round64 (of_nat (d div 1000000000)) + q" using q by simp
    then show ?thesis
      by (cases rule: f64_of_nonneg_cases) (use 1 q that in \<open>simp_all add: as_secs_f64_def\<close>)
  next
    case 2
    then show ?thesis using q that by (simp add: as_secs_f64_def)
  qed
qed

text \<open>Comparing a duration with a small number of whole seconds is exact.\<close>

lemma as_secs_less:
  assumes "n \<le> 1024"
  shows "f_lt (as_secs_f64 d) (Fin (of_nat n)) \<longleftrightarrow> d < n * 1000000000"
proof -
  let ?s = "d div 1000000000" and ?m = "d mod 1000000000"
  obtain q where q: "f_div (Fin (of_nat ?m)) (Fin 1000000000) = Fin q" "0 \<le> q" "q \<le> 1 - p2 (- 30)"
    using nanos_part [of ?m] by (metis mod_less_divisor zero_less_numeral)
  have ints: "in_format (of_nat k)" if "k \<le> 1024" for k
    using in_format_int [of "int k"] that by simp
  show ?thesis
  proof (cases "d < n * 1000000000")
    case True
    then have s: "Suc ?s \<le> n" by (simp add: less_mult_imp_div_less Suc_leI)
    then have "of_nat ?s + 1 \<le> (of_nat n :: rat)" by (metis of_nat_Suc of_nat_le_iff add.commute)
    then have lim: "of_nat ?s + q \<le> of_nat n - p2 (- 30)" using q(3) by linarith
    have "f64_of (of_nat ?s) = Fin (of_nat ?s)"
      using ints [of ?s] s assms f64_of_range [of 0 "of_nat ?s" "int ?s"] by (simp add: in_format_def)
    moreover have "f64_of (of_nat ?s + q) = Fin (round64 (of_nat ?s + q))"
    proof -
      have "of_nat ?s + q \<le> of_int 1024" using lim assms by (simp add: power_int_minus)
      then show ?thesis using f64_of_range [of 0 "of_nat ?s + q" 1024] q(2) by simp
    qed
    moreover have "round64 (of_nat ?s + q) \<le> of_nat n - p2 (- 30)"
      by (rule round_le_format [OF lim below_int_format [OF assms]])
    ultimately show ?thesis using True q(1) by (simp add: as_secs_f64_def f_lt_def power_int_minus)
  next
    case False
    then have "n \<le> ?s" by (simp add: div_greater_zero_iff less_eq_div_iff_mult_less_eq)
    then have "of_nat n \<le> round64 (of_nat ?s)" by (intro format_le_round [OF ints [OF assms]]) simp
    then have le: "of_nat n \<le> round64 (round64 (of_nat ?s) + q)"
      using q(2) by (intro format_le_round [OF ints [OF assms]]) simp
    have "\<not> f_lt (as_secs_f64 d) (Fin (of_nat n))"
    proof (cases rule: f64_of_nonneg_cases [of "of_nat ?s"])
      case 2
      then have "0 \<le> round64 (of_nat ?s) + q" using q by simp
      then show ?thesis
        by (cases rule: f64_of_nonneg_cases) (use 2 q le in \<open>simp_all add: as_secs_f64_def f_lt_def\<close>)
    qed (use q in \<open>simp_all add: as_secs_f64_def f_lt_def\<close>)
    with False show ?thesis by simp
  qed
qed

end
