(* ===== verification/Rate_Limit.thy ===== *)
theory Rate_Limit
  imports Knobs F64_Duration
begin

text \<open>
  Rate-limit accounting, \<open>src/rust/src/rate_limit\<close>: the decaying counter, the account tiers, the cost of
  amending and cancelling by order age, the classification of wire errors, and the two trackers.
  \<^item> A tracker's mutex makes each call atomic, so a call is a function on the record; the events it
    publishes after releasing the lock are appended to \<open>tr_events\<close> with the clock reading of their
    envelope, and \<open>tr_clock\<close> gives the readings in order.
  \<^item> The fingerprint of an API key is computed by a third-party hash and is the parameter \<open>fp\<close>.
  \<^item> \<open>Duration::from_secs_f64\<close> panics outside its domain; the retry instant is then \<open>None\<close>.
\<close>

section \<open>The decaying counter\<close>

datatype charge_outcome = Charged | Exceeded

definition WARNING_DEBOUNCE :: duration where
  "WARNING_DEBOUNCE = secs 1"

record rate_limit_counter =
  c_current :: f64
  c_cap :: f64
  c_decay_per_sec :: f64
  c_last_updated :: instant
  c_last_warning_at :: "instant option"

definition counter_new :: "f64 \<Rightarrow> f64 \<Rightarrow> instant \<Rightarrow> rate_limit_counter" where
  "counter_new cap decay now =
     \<lparr>c_current = Fin 0, c_cap = cap, c_decay_per_sec = decay, c_last_updated = now, c_last_warning_at = None\<rparr>"

definition should_emit_warning :: "instant \<Rightarrow> f64 \<Rightarrow> rate_limit_counter \<Rightarrow> rate_limit_counter \<times> bool" where
  "should_emit_warning now warning_pct c =
     (let pct = f_div (c_current c) (c_cap c) in
      if f_lt pct warning_pct then (c\<lparr>c_last_warning_at := None\<rparr>, False)
      else (case c_last_warning_at c of
              Some prev \<Rightarrow> if now - prev < WARNING_DEBOUNCE then (c, False)
                           else (c\<lparr>c_last_warning_at := Some now\<rparr>, True)
            | None \<Rightarrow> (c\<lparr>c_last_warning_at := Some now\<rparr>, True)))"

definition peek_current :: "instant \<Rightarrow> rate_limit_counter \<Rightarrow> f64" where
  "peek_current now c =
     (let elapsed = as_secs_f64 (now - c_last_updated c)
      in f_max (f_sub (c_current c) (f_mul (c_decay_per_sec c) elapsed)) (Fin 0))"

definition charge :: "f64 \<Rightarrow> instant \<Rightarrow> rate_limit_counter \<Rightarrow> rate_limit_counter \<times> charge_outcome" where
  "charge cost now c =
     (let decayed = peek_current now c in
      if f_lt (c_cap c) (f_add decayed cost)
      then (c\<lparr>c_current := decayed, c_last_updated := max now (c_last_updated c)\<rparr>, Exceeded)
      else (c\<lparr>c_current := f_add decayed cost, c_last_updated := max now (c_last_updated c)\<rparr>, Charged))"

definition counter_credit :: "f64 \<Rightarrow> instant \<Rightarrow> rate_limit_counter \<Rightarrow> rate_limit_counter" where
  "counter_credit cost now c =
     c\<lparr>c_current := f_max (f_sub (peek_current now c) cost) (Fin 0), c_last_updated := max now (c_last_updated c)\<rparr>"

definition charge_saturating :: "f64 \<Rightarrow> instant \<Rightarrow> rate_limit_counter \<Rightarrow> rate_limit_counter" where
  "charge_saturating cost now c =
     c\<lparr>c_current := f_min (f_add (peek_current now c) cost) (c_cap c), c_last_updated := max now (c_last_updated c)\<rparr>"

definition counter_snap :: "instant \<Rightarrow> rate_limit_counter \<Rightarrow> rate_limit_counter" where
  "counter_snap now c = c\<lparr>c_current := c_cap c, c_last_updated := max now (c_last_updated c)\<rparr>"

section \<open>Tiers, order age, wire errors\<close>

datatype tier = Starter | Intermediate | Pro

fun api_cap :: "tier \<Rightarrow> f64" where
  "api_cap Starter = Fin 15"
| "api_cap Intermediate = Fin 20"
| "api_cap Pro = Fin 20"

fun api_decay_per_sec :: "tier \<Rightarrow> f64" where
  "api_decay_per_sec Starter = f64_of (33 / 100)"
| "api_decay_per_sec Intermediate = Fin (1 / 2)"
| "api_decay_per_sec Pro = Fin 1"

fun trading_cap :: "tier \<Rightarrow> f64" where
  "trading_cap Starter = Fin 60"
| "trading_cap Intermediate = Fin 125"
| "trading_cap Pro = Fin 180"

fun trading_decay_per_sec :: "tier \<Rightarrow> f64" where
  "trading_decay_per_sec Starter = Fin 1"
| "trading_decay_per_sec Intermediate = f64_of (234 / 100)"
| "trading_decay_per_sec Pro = Fin (15 / 4)"

datatype dynamic_cost_op = DynAmendOrder | DynCancelOrder

definition order_age_cost :: "dynamic_cost_op \<Rightarrow> duration \<Rightarrow> f64" where
  "order_age_cost op age =
     (let s = as_secs_f64 age in
      case op of
        DynAmendOrder \<Rightarrow>
          f_add (Fin 1)
            (if f_lt s (Fin 5) then Fin 3 else if f_lt s (Fin 10) then Fin 2
             else if f_lt s (Fin 15) then Fin 1 else Fin 0)
      | DynCancelOrder \<Rightarrow>
          if f_lt s (Fin 5) then Fin 8 else if f_lt s (Fin 10) then Fin 6
          else if f_lt s (Fin 15) then Fin 5 else if f_lt s (Fin 45) then Fin 4
          else if f_lt s (Fin 90) then Fin 2 else if f_lt s (Fin 300) then Fin 1 else Fin 0)"

datatype snap_target = TradingPair | TradingDomain | SnapApi

definition starts_with :: "string \<Rightarrow> string \<Rightarrow> bool" where
  "starts_with p s \<longleftrightarrow> take (length p) s = p"

definition classify_rate_limit_snap :: "string \<Rightarrow> snap_target option" where
  "classify_rate_limit_snap code =
     (if code = ''EOrder:Rate limit exceeded'' then Some TradingPair
      else if code = ''EOrder:Domain rate limit exceeded'' then Some TradingDomain
      else if starts_with ''EAPI:Rate limit exceeded'' code \<or> starts_with ''EAuth:Rate limit exceeded'' code \<or>
              starts_with ''EGeneral:Too many requests'' code \<or> starts_with ''EService:Throttled'' code
      then Some SnapApi else None)"

section \<open>Scopes, errors and events\<close>

type_synonym api_key = string
type_synonym symbol = string

datatype rl_scope = ScopeApiKey api_key | ScopePair api_key symbol

definition redacted_id :: "(api_key \<Rightarrow> string) \<Rightarrow> rl_scope \<Rightarrow> string \<times> symbol option" where
  "redacted_id fp s = (case s of ScopeApiKey k \<Rightarrow> (fp k, None) | ScopePair k p \<Rightarrow> (fp k, Some p))"

datatype tracker_name = TrackerApi | TrackerTrading

record rate_limit_exceeded =
  x_tracker :: tracker_name
  x_scope :: rl_scope
  x_current :: f64
  x_cap :: f64
  x_retry_at :: "instant option"

definition MAX_RETRY_PROJECTION_SECS :: f64 where
  "MAX_RETRY_PROJECTION_SECS = Fin 86400"

definition compute_retry_at :: "f64 \<Rightarrow> f64 \<Rightarrow> f64 \<Rightarrow> instant \<Rightarrow> instant option" where
  "compute_retry_at current cap decay now =
     (if decay = NaN \<or> f_le decay (Fin 0) then Some now
      else (let needed = f_max (f_sub current (f_sub cap (Fin 1))) (Fin 0);
                s = f_clamp (f_div needed decay) (Fin 0) MAX_RETRY_PROJECTION_SECS
            in map_option (\<lambda>d. now + d) (try_from_secs_f64 s)))"

datatype rl_event =
    RateLimitWarning tracker_name string "symbol option" f64 f64 f64 f64 f64
  | RateLimitExceededEvent tracker_name string "symbol option" string instant
  | RateLimitCacheEvictionEvent string "symbol option" instant

record rl_log =
  tr_clock :: "nat \<Rightarrow> instant"
  tr_reads :: nat
  tr_events :: "(instant \<times> rl_event) list"

definition log_now :: "'a rl_log_scheme \<Rightarrow> instant" where
  "log_now l = tr_clock l (tr_reads l)"

definition log_event :: "(instant \<Rightarrow> rl_event) \<Rightarrow> 'a rl_log_scheme \<Rightarrow> 'a rl_log_scheme" where
  "log_event f l = l\<lparr>tr_reads := Suc (tr_reads l), tr_events := tr_events l @ [(log_now l, f (log_now l))]\<rparr>"

section \<open>What a charge reports\<close>

text \<open>The tail both trackers share: the charged counter, the result, and the warning to publish.\<close>

record warning =
  w_used :: f64
  w_pct :: f64
  w_decay :: f64
  w_drain :: f64

definition seconds_to_drain :: "rate_limit_counter \<Rightarrow> f64" where
  "seconds_to_drain c =
     (if is_finite (c_decay_per_sec c) \<and> f_lt (Fin 0) (c_decay_per_sec c)
      then f_div (c_current c) (c_decay_per_sec c) else PInf)"

definition charge_counter :: "tracker_name \<Rightarrow> rl_scope \<Rightarrow> f64 \<Rightarrow> f64 \<Rightarrow> f64 \<Rightarrow> instant \<Rightarrow> rate_limit_counter \<Rightarrow>
    rate_limit_counter \<times> (rate_limit_exceeded + unit) \<times> warning option" where
  "charge_counter tracker scope cap warning_pct cost now c =
     (case charge cost now c of
        (c1, Charged) \<Rightarrow>
          (let new_pct = f_div (c_current c1) cap; (c2, emit) = should_emit_warning now warning_pct c1
           in (c2, Inr (),
               if emit then Some \<lparr>w_used = c_current c2, w_pct = new_pct, w_decay = c_decay_per_sec c2,
                                  w_drain = seconds_to_drain c2\<rparr> else None))
      | (c1, Exceeded) \<Rightarrow>
          (c1, Inl \<lparr>x_tracker = tracker, x_scope = scope, x_current = c_current c1, x_cap = c_cap c1,
                    x_retry_at = compute_retry_at (c_current c1) (c_cap c1) (c_decay_per_sec c1) now\<rparr>, None))"

definition publish_rate_limit_warning :: "(api_key \<Rightarrow> string) \<Rightarrow> tracker_name \<Rightarrow> rl_scope \<Rightarrow> f64 \<Rightarrow> warning \<Rightarrow>
    'a rl_log_scheme \<Rightarrow> 'a rl_log_scheme" where
  "publish_rate_limit_warning fp tracker scope cap w =
     (let (k, p) = redacted_id fp scope
      in log_event (\<lambda>_. RateLimitWarning tracker k p (w_used w) cap (w_pct w) (w_decay w) (w_drain w)))"

definition publish_rate_limit_exceeded :: "(api_key \<Rightarrow> string) \<Rightarrow> tracker_name \<Rightarrow> rl_scope \<Rightarrow> string \<Rightarrow> instant \<Rightarrow>
    'a rl_log_scheme \<Rightarrow> 'a rl_log_scheme" where
  "publish_rate_limit_exceeded fp tracker scope kraken_error now =
     (let (k, p) = redacted_id fp scope
      in log_event (\<lambda>_. RateLimitExceededEvent tracker k p kraken_error now))"

definition misrouted :: "tracker_name \<Rightarrow> rl_scope \<Rightarrow> instant \<Rightarrow> rate_limit_exceeded" where
  "misrouted tracker scope now =
     \<lparr>x_tracker = tracker, x_scope = scope, x_current = Fin 0, x_cap = Fin 0, x_retry_at = Some now\<rparr>"

section \<open>The tracker of the non-trading endpoints\<close>

record api_tracker = rl_log +
  a_tier :: tier
  a_counter :: "(api_key, rate_limit_counter) hashmap"

definition api_tracker_new :: "tier \<Rightarrow> (nat \<Rightarrow> instant) \<Rightarrow> api_tracker" where
  "api_tracker_new t clock =
     \<lparr>tr_clock = clock, tr_reads = 0, tr_events = [], a_tier = t, a_counter = []\<rparr>"

definition or_insert_counter :: "'k \<Rightarrow> rate_limit_counter \<Rightarrow> ('k, rate_limit_counter) hashmap \<Rightarrow> rate_limit_counter" where
  "or_insert_counter k fresh m = (case hm_get m k of Some c \<Rightarrow> c | None \<Rightarrow> fresh)"

definition api_consume :: "(api_key \<Rightarrow> string) \<Rightarrow> knobs \<Rightarrow> rl_scope \<Rightarrow> f64 \<Rightarrow> instant \<Rightarrow> api_tracker \<Rightarrow>
    api_tracker \<times> (rate_limit_exceeded + unit)" where
  "api_consume fp k scope cost now tr =
     (case scope of
        ScopePair _ _ \<Rightarrow> (tr, Inl (misrouted TrackerApi scope now))
      | ScopeApiKey key \<Rightarrow>
          (let cap = api_cap (a_tier tr); decay = api_decay_per_sec (a_tier tr);
               c = or_insert_counter key (counter_new cap decay now) (a_counter tr);
               (c', result, emit) =
                 charge_counter TrackerApi scope cap (k_rate_limit_api_warning_pct k) cost now c;
               tr1 = tr\<lparr>a_counter := hm_insert key c' (a_counter tr)\<rparr>
           in (case emit of None \<Rightarrow> tr1 | Some w \<Rightarrow> publish_rate_limit_warning fp TrackerApi scope cap w tr1,
               result)))"

definition api_headroom :: "rl_scope \<Rightarrow> instant \<Rightarrow> api_tracker \<Rightarrow> f64 option" where
  "api_headroom scope now tr =
     (case scope of
        ScopePair _ _ \<Rightarrow> None
      | ScopeApiKey key \<Rightarrow>
          Some (case hm_get (a_counter tr) key of
                  Some c \<Rightarrow> f_max (f_sub (api_cap (a_tier tr)) (peek_current now c)) (Fin 0)
                | None \<Rightarrow> api_cap (a_tier tr)))"

definition time_until_headroom :: "rl_scope \<Rightarrow> f64 \<Rightarrow> instant \<Rightarrow> api_tracker \<Rightarrow> duration option" where
  "time_until_headroom scope cost now tr =
     (case api_headroom scope now tr of
        None \<Rightarrow> None
      | Some h \<Rightarrow>
          if f_le cost h then Some 0
          else (let decay = api_decay_per_sec (a_tier tr) in
                if \<not> is_finite decay \<or> f_le decay (Fin 0) then None
                else Some (case try_from_secs_f64 (f_div (f_sub cost h) decay) of Some d \<Rightarrow> d | None \<Rightarrow> 0)))"

definition api_snap_to_cap :: "(api_key \<Rightarrow> string) \<Rightarrow> rl_scope \<Rightarrow> string \<Rightarrow> instant \<Rightarrow> api_tracker \<Rightarrow> api_tracker" where
  "api_snap_to_cap fp scope kraken_error now tr =
     (case scope of
        ScopePair _ _ \<Rightarrow> tr
      | ScopeApiKey key \<Rightarrow>
          (let c = or_insert_counter key (counter_new (api_cap (a_tier tr)) (api_decay_per_sec (a_tier tr)) now)
                     (a_counter tr)
           in publish_rate_limit_exceeded fp TrackerApi scope kraken_error now
                (tr\<lparr>a_counter := hm_insert key (counter_snap now c) (a_counter tr)\<rparr>)))"

section \<open>The tracker of the trading endpoints\<close>

type_synonym pair_key = "api_key \<times> symbol"

record trading_tracker = rl_log +
  tt_tier :: tier
  tt_counter :: "(pair_key, rate_limit_counter) hashmap"
  tt_access_order :: "pair_key list"
  tt_lru_cap :: nat

definition with_lru_cap :: "tier \<Rightarrow> (nat \<Rightarrow> instant) \<Rightarrow> nat \<Rightarrow> trading_tracker" where
  "with_lru_cap t clock lru_cap =
     \<lparr>tr_clock = clock, tr_reads = 0, tr_events = [], tt_tier = t, tt_counter = [], tt_access_order = [],
      tt_lru_cap = max lru_cap 1\<rparr>"

definition trading_tracker_new :: "tier \<Rightarrow> (nat \<Rightarrow> instant) \<Rightarrow> knobs \<Rightarrow> trading_tracker" where
  "trading_tracker_new t clock k = with_lru_cap t clock (k_rate_limit_trading_scope_cap k)"

text \<open>Move a key to the most-recently-used end.\<close>

definition promote :: "pair_key \<Rightarrow> pair_key list \<Rightarrow> pair_key list" where
  "promote key order = remove1 key order @ [key]"

definition touch_lru :: "pair_key \<Rightarrow> f64 \<Rightarrow> f64 \<Rightarrow> instant \<Rightarrow> trading_tracker \<Rightarrow> trading_tracker \<times> rl_scope option" where
  "touch_lru key cap decay now tr =
     (let tr1 = tr\<lparr>tt_access_order := promote key (tt_access_order tr)\<rparr> in
      if hm_get (tt_counter tr1) key \<noteq> None then (tr1, None)
      else (let (tr2, evicted) =
                  (if length (tt_counter tr1) \<ge> tt_lru_cap tr1
                   then (case List.find (\<lambda>k. k \<noteq> key) (tt_access_order tr1) of
                           Some oldest \<Rightarrow>
                             (tr1\<lparr>tt_access_order := remove1 oldest (tt_access_order tr1),
                                  tt_counter := hm_remove oldest (tt_counter tr1)\<rparr>,
                              Some (ScopePair (fst oldest) (snd oldest)))
                         | None \<Rightarrow> (tr1, None))
                   else (tr1, None))
            in (tr2\<lparr>tt_counter := hm_insert key (counter_new cap decay now) (tt_counter tr2)\<rparr>, evicted)))"

definition publish_eviction :: "(api_key \<Rightarrow> string) \<Rightarrow> rl_scope \<Rightarrow> 'a rl_log_scheme \<Rightarrow> 'a rl_log_scheme" where
  "publish_eviction fp scope =
     (let (k, p) = redacted_id fp scope in log_event (\<lambda>evicted_at. RateLimitCacheEvictionEvent k p evicted_at))"

definition trading_consume :: "(api_key \<Rightarrow> string) \<Rightarrow> knobs \<Rightarrow> rl_scope \<Rightarrow> f64 \<Rightarrow> instant \<Rightarrow> trading_tracker \<Rightarrow>
    trading_tracker \<times> (rate_limit_exceeded + unit)" where
  "trading_consume fp k scope cost now tr =
     (case scope of
        ScopeApiKey _ \<Rightarrow> (tr, Inl (misrouted TrackerTrading scope now))
      | ScopePair a p \<Rightarrow>
          (let key = (a, p); cap = trading_cap (tt_tier tr); decay = trading_decay_per_sec (tt_tier tr);
               (tr1, evicted) = touch_lru key cap decay now tr;
               c = or_insert_counter key (counter_new cap decay now) (tt_counter tr1);
               (c', result, emit) =
                 charge_counter TrackerTrading scope cap (k_rate_limit_trading_warning_pct k) cost now c;
               tr2 = tr1\<lparr>tt_counter := hm_insert key c' (tt_counter tr1)\<rparr>;
               tr3 = (case evicted of None \<Rightarrow> tr2 | Some s \<Rightarrow> publish_eviction fp s tr2);
               tr4 = (case emit of None \<Rightarrow> tr3 | Some w \<Rightarrow> publish_rate_limit_warning fp TrackerTrading scope cap w tr3)
           in (tr4, result)))"

definition trading_headroom :: "rl_scope \<Rightarrow> instant \<Rightarrow> trading_tracker \<Rightarrow> f64 option" where
  "trading_headroom scope now tr =
     (case scope of
        ScopeApiKey _ \<Rightarrow> None
      | ScopePair a p \<Rightarrow>
          Some (case hm_get (tt_counter tr) (a, p) of
                  Some c \<Rightarrow> f_max (f_sub (trading_cap (tt_tier tr)) (peek_current now c)) (Fin 0)
                | None \<Rightarrow> trading_cap (tt_tier tr)))"

definition trading_credit :: "rl_scope \<Rightarrow> f64 \<Rightarrow> instant \<Rightarrow> trading_tracker \<Rightarrow> trading_tracker" where
  "trading_credit scope cost now tr =
     (case scope of
        ScopeApiKey _ \<Rightarrow> tr
      | ScopePair a p \<Rightarrow>
          (case hm_get (tt_counter tr) (a, p) of
             None \<Rightarrow> tr
           | Some c \<Rightarrow> tr\<lparr>tt_counter := hm_insert (a, p) (counter_credit cost now c) (tt_counter tr)\<rparr>))"

text \<open>The loop over the counters of one API key.\<close>

definition update_account :: "api_key \<Rightarrow> (rate_limit_counter \<Rightarrow> rate_limit_counter) \<Rightarrow>
    (pair_key, rate_limit_counter) hashmap \<Rightarrow> (pair_key, rate_limit_counter) hashmap" where
  "update_account a f m = map (\<lambda>((a', p), c). ((a', p), if a' = a then f c else c)) m"

definition charge_account_wide :: "rl_scope \<Rightarrow> f64 \<Rightarrow> instant \<Rightarrow> trading_tracker \<Rightarrow> trading_tracker" where
  "charge_account_wide scope cost now tr =
     (case scope of
        ScopePair _ _ \<Rightarrow> tr
      | ScopeApiKey a \<Rightarrow> tr\<lparr>tt_counter := update_account a (charge_saturating cost now) (tt_counter tr)\<rparr>)"

definition trading_snap_to_cap :: "(api_key \<Rightarrow> string) \<Rightarrow> rl_scope \<Rightarrow> string \<Rightarrow> instant \<Rightarrow> trading_tracker \<Rightarrow>
    trading_tracker" where
  "trading_snap_to_cap fp scope kraken_error now tr =
     (let cap = trading_cap (tt_tier tr); decay = trading_decay_per_sec (tt_tier tr);
          tr1 = (case scope of
                   ScopePair a p \<Rightarrow>
                     (let c = or_insert_counter (a, p) (counter_new cap decay now) (tt_counter tr)
                      in tr\<lparr>tt_counter := hm_insert (a, p) (counter_snap now c) (tt_counter tr),
                            tt_access_order := promote (a, p) (tt_access_order tr)\<rparr>)
                 | ScopeApiKey a \<Rightarrow>
                     (let m = update_account a (counter_snap now) (tt_counter tr);
                          keys = filter (\<lambda>(a', _). a' = a) (map fst m)
                      in tr\<lparr>tt_counter := m, tt_access_order := fold promote keys (tt_access_order tr)\<rparr>))
      in publish_rate_limit_exceeded fp TrackerTrading scope kraken_error now tr1)"

end
