(* ===== verification/Rate_Limit_Properties.thy ===== *)
theory Rate_Limit_Properties
  imports Rate_Limit
begin

text \<open>
  What the trading tracker guarantees: counters stay between zero and the tier's cap through every
  rounding, the scope cache is a faithful least-recently-used cache, a consult charges one scope, a
  rejection names a retry instant, and the age brackets are exact.
\<close>

section \<open>The counter stays in its range\<close>

definition counter_ok :: "f64 \<Rightarrow> rate_limit_counter \<Rightarrow> bool" where
  "counter_ok cap c \<longleftrightarrow>
     (\<exists>x cp d. c_current c = Fin x \<and> in_format x \<and> 0 \<le> x \<and> x \<le> cp \<and> cap = Fin cp \<and> c_cap c = Fin cp \<and>
        in_format cp \<and> cp \<le> 1000 \<and> c_decay_per_sec c = Fin d \<and> 0 < d)"

definition cost_ok :: "f64 \<Rightarrow> bool" where
  "cost_ok cost \<longleftrightarrow> (case cost of Fin k \<Rightarrow> 0 \<le> k | _ \<Rightarrow> False)"

lemma round64_below_1000:
  assumes "x \<le> 1000"
  shows "f64_of x = Fin (round64 x) \<or> f64_of x = NInf" and "f64_of x = Fin r \<Longrightarrow> r = round64 x"
proof -
  have "round64 x \<le> 1000" using round64_mono [OF assms] round64_int [of 1000] by simp
  moreover have "(1000 :: rat) < 2 ^ 1024"
  proof -
    have "(1000 :: rat) < 2 ^ 10" by simp
    also have "\<dots> \<le> 2 ^ 1024" by (rule power_increasing) simp_all
    finally show ?thesis .
  qed
  ultimately show "f64_of x = Fin (round64 x) \<or> f64_of x = NInf"
    by (simp add: f64_of_def Let_def)
  show "f64_of x = Fin r \<Longrightarrow> r = round64 x" by (simp add: f64_of_def Let_def split: if_splits)
qed

text \<open>Subtracting a non-negative amount, floored at zero.\<close>

lemma floor_sub:
  assumes "in_format x" and "0 \<le> x" and "x \<le> 1000" and "y = PInf \<or> (\<exists>z. y = Fin z \<and> 0 \<le> z)"
  obtains u where "f_max (f_sub (Fin x) y) (Fin 0) = Fin u" "in_format u" "0 \<le> u" "u \<le> x"
proof -
  have zero: "in_format 0" by (simp add: in_format_def)
  from assms(4) show ?thesis
  proof
    assume "y = PInf"
    then show ?thesis using that [of 0] assms(2) zero by (simp add: f_sub_def f_max_def)
  next
    assume "\<exists>z. y = Fin z \<and> 0 \<le> z"
    then obtain z where z: "y = Fin z" "0 \<le> z" by blast
    have le: "x - z \<le> x" "x - z \<le> 1000" using z assms(3) by simp_all
    have sub: "f_sub (Fin x) y = f64_of (x - z)" by (simp add: f_sub_def z)
    show ?thesis
    proof (cases "f64_of (x - z) = Fin (round64 (x - z))")
      case True
      have "round64 (x - z) \<le> x" by (rule round_le_format [OF le(1) assms(1)])
      then show ?thesis
        using that [of "max (round64 (x - z)) 0"] True sub zero assms(2) by (auto simp: f_max_def max_def)
    next
      case False
      then have "f64_of (x - z) = NInf" using round64_below_1000(1) [OF le(2)] by blast
      then show ?thesis using that [of 0] sub zero assms(2) by (simp add: f_max_def)
    qed
  qed
qed

lemma peek_ok:
  assumes "counter_ok cap c"
  obtains x u where "c_current c = Fin x" "peek_current now c = Fin u" "in_format u" "0 \<le> u" "u \<le> x"
proof -
  obtain x cp d where c: "c_current c = Fin x" "in_format x" "0 \<le> x" "x \<le> cp" "cp \<le> 1000"
    "c_decay_per_sec c = Fin d" "0 < d"
    using assms by (auto simp: counter_ok_def)
  let ?y = "f_mul (Fin d) (as_secs_f64 (now - c_last_updated c))"
  have y: "?y = PInf \<or> (\<exists>z. ?y = Fin z \<and> 0 \<le> z)"
  proof (cases rule: as_secs_cases [of "now - c_last_updated c"])
    case (1 r)
    then have "0 \<le> d * r" using c(7) by simp
    then show ?thesis by (cases rule: f64_of_nonneg_cases) (use 1 in \<open>simp_all add: f_mul_def\<close>)
  next
    case 2
    then show ?thesis using c(7) by (simp add: f_mul_def f_sign_def f_inf_def)
  qed
  have "x \<le> 1000" using c by simp
  from floor_sub [OF c(2,3) this y] obtain u where
    "f_max (f_sub (Fin x) ?y) (Fin 0) = Fin u" "in_format u" "0 \<le> u" "u \<le> x" .
  then show ?thesis using that c(1,6) by (simp add: peek_current_def Let_def)
qed

lemma counter_okI:
  assumes "counter_ok cap c" and "cap = Fin cp \<Longrightarrow> c_current c' = Fin x \<and> in_format x \<and> 0 \<le> x \<and> x \<le> cp"
    and "c_cap c' = c_cap c" and "c_decay_per_sec c' = c_decay_per_sec c" and "cap = Fin cp"
  shows "counter_ok cap c'"
  using assms unfolding counter_ok_def by auto

lemma charge_ok:
  assumes ok: "counter_ok cap c" and cost: "cost_ok cost"
  shows "counter_ok cap (fst (charge cost now c))"
    and "c_current (fst (charge cost now c)) =
      (if snd (charge cost now c) = Charged then f_add (peek_current now c) cost else peek_current now c)"
    and "snd (charge cost now c) = Charged \<longleftrightarrow> f_le (f_add (peek_current now c) cost) cap"
proof -
  obtain x u where u: "c_current c = Fin x" "peek_current now c = Fin u" "in_format u" "0 \<le> u" "u \<le> x"
    using peek_ok [OF ok] .
  obtain cp where cp: "cap = Fin cp" "c_cap c = Fin cp" "x \<le> cp" using ok u(1) by (auto simp: counter_ok_def)
  obtain k where k: "cost = Fin k" "0 \<le> k" using cost by (auto simp: cost_ok_def split: f64.splits)
  have "0 \<le> u + k" using u k by simp
  then have sum: "f64_of (u + k) = PInf \<or> f64_of (u + k) = Fin (round64 (u + k)) \<and> 0 \<le> round64 (u + k)"
    by (cases rule: f64_of_nonneg_cases) auto
  show "counter_ok cap (fst (charge cost now c))"
  proof (cases "f_lt (Fin cp) (f64_of (u + k))")
    case True
    then show ?thesis
      using u cp k by (intro counter_okI [OF ok, of cp _ u]) (simp_all add: charge_def Let_def)
  next
    case False
    then have s: "f64_of (u + k) = Fin (round64 (u + k))" "0 \<le> round64 (u + k)" "round64 (u + k) \<le> cp"
      using sum by (auto simp: f_lt_def)
    show ?thesis
      using u cp k s
      by (intro counter_okI [OF ok, of cp _ "round64 (u + k)"]) (simp_all add: charge_def Let_def f_lt_def)
  qed
  show "c_current (fst (charge cost now c)) =
      (if snd (charge cost now c) = Charged then f_add (peek_current now c) cost else peek_current now c)"
    by (simp add: charge_def Let_def)
  show "snd (charge cost now c) = Charged \<longleftrightarrow> f_le (f_add (peek_current now c) cost) cap"
    using sum by (auto simp: charge_def Let_def u cp k f_lt_def)
qed

lemma credit_ok:
  assumes ok: "counter_ok cap c" and cost: "cost_ok cost"
  shows "counter_ok cap (counter_credit cost now c)"
proof -
  obtain x u where u: "c_current c = Fin x" "peek_current now c = Fin u" "in_format u" "0 \<le> u" "u \<le> x"
    using peek_ok [OF ok] .
  obtain cp where cp: "cap = Fin cp" "x \<le> cp" "cp \<le> 1000" using ok u(1) by (auto simp: counter_ok_def)
  obtain k where k: "cost = Fin k" "0 \<le> k" using cost by (auto simp: cost_ok_def split: f64.splits)
  have "u \<le> 1000" using u cp by simp
  from floor_sub [OF u(3,4) this, of cost] k obtain v where
    "f_max (f_sub (Fin u) cost) (Fin 0) = Fin v" "in_format v" "0 \<le> v" "v \<le> u" by auto
  then show ?thesis
    using u cp by (intro counter_okI [OF ok, of cp _ v]) (simp_all add: counter_credit_def)
qed

lemma saturating_ok:
  assumes ok: "counter_ok cap c" and cost: "cost_ok cost"
  shows "counter_ok cap (charge_saturating cost now c)"
proof -
  obtain x u where u: "c_current c = Fin x" "peek_current now c = Fin u" "in_format u" "0 \<le> u" "u \<le> x"
    using peek_ok [OF ok] .
  obtain cp where cp: "cap = Fin cp" "c_cap c = Fin cp" "x \<le> cp" "in_format cp"
    using ok u(1) by (auto simp: counter_ok_def)
  obtain k where k: "cost = Fin k" "0 \<le> k" using cost by (auto simp: cost_ok_def split: f64.splits)
  have "0 \<le> u + k" using u k by simp
  then have "\<exists>v. f_min (f64_of (u + k)) (Fin cp) = Fin v \<and> in_format v \<and> 0 \<le> v \<and> v \<le> cp"
    using cp u by (cases rule: f64_of_nonneg_cases) (auto simp: f_min_def)
  then obtain v where "f_min (f64_of (u + k)) (Fin cp) = Fin v" "in_format v" "0 \<le> v" "v \<le> cp" by blast
  then show ?thesis
    using u cp k by (intro counter_okI [OF ok, of cp _ v]) (simp_all add: charge_saturating_def)
qed

lemma snap_ok: "counter_ok cap c \<Longrightarrow> counter_ok cap (counter_snap now c)"
  by (auto simp: counter_ok_def counter_snap_def)

lemma warning_ok: "counter_ok cap c \<Longrightarrow> counter_ok cap (fst (should_emit_warning now pct c))"
  by (auto simp: counter_ok_def should_emit_warning_def Let_def split: option.split)
section \<open>The trackers keep their counters in range\<close>

definition counters_ok :: "f64 \<Rightarrow> ('k, rate_limit_counter) hashmap \<Rightarrow> bool" where
  "counters_ok cap m \<longleftrightarrow> (\<forall>k c. hm_get m k = Some c \<longrightarrow> counter_ok cap c)"

lemma tier_rates:
  "\<exists>cp d. trading_cap t = Fin cp \<and> in_format cp \<and> 0 \<le> cp \<and> cp \<le> 1000 \<and> trading_decay_per_sec t = Fin d \<and> 0 < d"
  "\<exists>cp d. api_cap t = Fin cp \<and> in_format cp \<and> 0 \<le> cp \<and> cp \<le> 1000 \<and> api_decay_per_sec t = Fin d \<and> 0 < d"
proof -
  have n: "in_format 15" "in_format 20" "in_format 60" "in_format 125" "in_format 180"
    using in_format_int [of 15] in_format_int [of 20] in_format_int [of 60] in_format_int [of 125]
      in_format_int [of 180] by simp_all
  have "f64_of (234 / 100) = Fin (round64 (234 / 100))" "0 < round64 (234 / 100)"
    using f64_of_range [of 2 "234 / 100" 3] by auto
  then show "\<exists>cp d. trading_cap t = Fin cp \<and> in_format cp \<and> 0 \<le> cp \<and> cp \<le> 1000 \<and>
      trading_decay_per_sec t = Fin d \<and> 0 < d"
  proof (cases t)
    case Pro
    then show ?thesis using n by (intro exI [of _ 180] exI [of _ "15 / 4"]) simp
  qed (use n in auto)
  have "f64_of (33 / 100) = Fin (round64 (33 / 100))" using f64_of_range [of 0 "33 / 100" 1] by auto
  moreover have "0 < round64 (33 / 100)"
  proof -
    have "in_format (1 / 4)" using in_format_scaled [of 1 "- 2"] by (simp add: power_int_minus)
    then show ?thesis using format_le_round [of "1 / 4" "33 / 100"] by auto
  qed
  ultimately show "\<exists>cp d. api_cap t = Fin cp \<and> in_format cp \<and> 0 \<le> cp \<and> cp \<le> 1000 \<and>
      api_decay_per_sec t = Fin d \<and> 0 < d"
  proof (cases t)
    case Intermediate
    then show ?thesis using n by (intro exI [of _ 20] exI [of _ "1 / 2"]) simp
  qed (use n in auto)
qed

lemma new_ok:
  "counter_ok (trading_cap t) (counter_new (trading_cap t) (trading_decay_per_sec t) now)"
  "counter_ok (api_cap t) (counter_new (api_cap t) (api_decay_per_sec t) now)"
  using tier_rates [of t] by (auto simp: counter_ok_def counter_new_def in_format_def)

lemma counters_ok_update:
  "counters_ok cap m \<Longrightarrow> counter_ok cap c \<Longrightarrow> counters_ok cap (hm_insert k c m)"
  "counters_ok cap m \<Longrightarrow> counters_ok cap (hm_remove k m)"
  by (auto simp: counters_ok_def hm_simps)

lemma or_insert_ok: "counters_ok cap m \<Longrightarrow> counter_ok cap c \<Longrightarrow> counter_ok cap (or_insert_counter k c m)"
  by (auto simp: counters_ok_def or_insert_counter_def split: option.split)

lemma charge_counter_shape:
  "fst (charge_counter t s cap pct cost now c) =
     (if snd (charge cost now c) = Charged then fst (should_emit_warning now pct (fst (charge cost now c)))
      else fst (charge cost now c))"
  "fst (snd (charge_counter t s cap pct cost now c)) = Inr () \<longleftrightarrow> snd (charge cost now c) = Charged"
  by (cases "snd (charge cost now c)"; simp add: charge_counter_def split_beta Let_def split: prod.split charge_outcome.split)+

lemma charge_counter_ok:
  "counter_ok cap c \<Longrightarrow> cost_ok cost \<Longrightarrow> counter_ok cap (fst (charge_counter t s cap pct cost now c))"
  by (simp add: charge_counter_shape charge_ok warning_ok)

lemma update_account_get:
  "hm_get (update_account a f m) (a', p) = map_option (if a' = a then f else id) (hm_get m (a', p))"
  by (induction m) (auto simp: update_account_def)

lemma update_account_keys [simp]: "map fst (update_account a f m) = map fst m" "length (update_account a f m) = length m"
  by (simp_all add: update_account_def split_beta comp_def)

lemma counters_ok_account:
  "counters_ok cap m \<Longrightarrow> (\<And>c. counter_ok cap c \<Longrightarrow> counter_ok cap (f c)) \<Longrightarrow> counters_ok cap (update_account a f m)"
  by (auto simp: counters_ok_def update_account_get)

section \<open>Runs of the trading tracker\<close>

datatype rl_op =
    RlConsume rl_scope f64 instant
  | RlCredit rl_scope f64 instant
  | RlAccountWide rl_scope f64 instant
  | RlSnap rl_scope string instant

fun rl_step :: "(api_key \<Rightarrow> string) \<Rightarrow> knobs \<Rightarrow> rl_op \<Rightarrow> trading_tracker \<Rightarrow> trading_tracker" where
  "rl_step fp k (RlConsume s cost now) tr = fst (trading_consume fp k s cost now tr)"
| "rl_step fp k (RlCredit s cost now) tr = trading_credit s cost now tr"
| "rl_step fp k (RlAccountWide s cost now) tr = charge_account_wide s cost now tr"
| "rl_step fp k (RlSnap s err now) tr = trading_snap_to_cap fp s err now tr"

fun op_cost_ok :: "rl_op \<Rightarrow> bool" where
  "op_cost_ok (RlConsume s cost now) = cost_ok cost"
| "op_cost_ok (RlCredit s cost now) = cost_ok cost"
| "op_cost_ok (RlAccountWide s cost now) = cost_ok cost"
| "op_cost_ok (RlSnap s err now) = True"

lemma log_fields [simp]:
  "tt_counter (log_event f tr) = tt_counter tr" "tt_access_order (log_event f tr) = tt_access_order tr"
  "tt_tier (log_event f tr) = tt_tier tr" "tt_lru_cap (log_event f tr) = tt_lru_cap tr"
  by (simp_all add: log_event_def)

lemma publish_fields [simp]:
  "tt_counter (publish_rate_limit_warning fp t s c w tr) = tt_counter tr"
  "tt_access_order (publish_rate_limit_warning fp t s c w tr) = tt_access_order tr"
  "tt_tier (publish_rate_limit_warning fp t s c w tr) = tt_tier tr"
  "tt_lru_cap (publish_rate_limit_warning fp t s c w tr) = tt_lru_cap tr"
  "tt_counter (publish_rate_limit_exceeded fp t s e now tr) = tt_counter tr"
  "tt_access_order (publish_rate_limit_exceeded fp t s e now tr) = tt_access_order tr"
  "tt_tier (publish_rate_limit_exceeded fp t s e now tr) = tt_tier tr"
  "tt_lru_cap (publish_rate_limit_exceeded fp t s e now tr) = tt_lru_cap tr"
  "tt_counter (publish_eviction fp s tr) = tt_counter tr"
  "tt_access_order (publish_eviction fp s tr) = tt_access_order tr"
  "tt_tier (publish_eviction fp s tr) = tt_tier tr" "tt_lru_cap (publish_eviction fp s tr) = tt_lru_cap tr"
  by (simp_all add: publish_rate_limit_warning_def publish_rate_limit_exceeded_def publish_eviction_def split_beta Let_def)

text \<open>A consult seen through the counters: the scope is touched, then its counter is charged.\<close>

lemma consume_shape:
  fixes a p tr now cost k fp
  defines "key \<equiv> (a, p)"
  defines "cap \<equiv> trading_cap (tt_tier tr)" and "decay \<equiv> trading_decay_per_sec (tt_tier tr)"
  defines "tr1 \<equiv> fst (touch_lru key cap decay now tr)"
  defines "r \<equiv> charge_counter TrackerTrading (ScopePair a p) cap (k_rate_limit_trading_warning_pct k) cost now
      (or_insert_counter key (counter_new cap decay now) (tt_counter tr1))"
  shows "tt_counter (fst (trading_consume fp k (ScopePair a p) cost now tr)) = hm_insert key (fst r) (tt_counter tr1)"
    "tt_access_order (fst (trading_consume fp k (ScopePair a p) cost now tr)) = tt_access_order tr1"
    "tt_tier (fst (trading_consume fp k (ScopePair a p) cost now tr)) = tt_tier tr1"
    "tt_lru_cap (fst (trading_consume fp k (ScopePair a p) cost now tr)) = tt_lru_cap tr1"
    "snd (trading_consume fp k (ScopePair a p) cost now tr) = fst (snd r)"
  unfolding r_def tr1_def cap_def decay_def key_def
  by (simp_all add: trading_consume_def Let_def split_beta split: option.split)

lemma touch_fields:
  "tt_tier (fst (touch_lru key cap decay now tr)) = tt_tier tr"
  "tt_lru_cap (fst (touch_lru key cap decay now tr)) = tt_lru_cap tr"
  by (simp_all add: touch_lru_def Let_def split: option.split)

lemma touch_counters_ok:
  "counters_ok cap (tt_counter tr) \<Longrightarrow> counter_ok cap (counter_new cap decay now) \<Longrightarrow>
   counters_ok cap (tt_counter (fst (touch_lru key cap decay now tr)))"
  by (simp add: touch_lru_def Let_def counters_ok_update split: option.split)

lemma rl_step_ok:
  assumes "counters_ok (trading_cap (tt_tier tr)) (tt_counter tr)" and "op_cost_ok op"
  shows "counters_ok (trading_cap (tt_tier tr)) (tt_counter (rl_step fp k op tr))"
    and "tt_tier (rl_step fp k op tr) = tt_tier tr" and "tt_lru_cap (rl_step fp k op tr) = tt_lru_cap tr"
proof -
  show "tt_tier (rl_step fp k op tr) = tt_tier tr" "tt_lru_cap (rl_step fp k op tr) = tt_lru_cap tr"
    by (cases op; simp add: trading_consume_def trading_credit_def charge_account_wide_def trading_snap_to_cap_def
        touch_fields Let_def split_beta split: rl_scope.split option.split)+
  have new: "counter_ok (trading_cap (tt_tier tr)) (counter_new (trading_cap (tt_tier tr))
      (trading_decay_per_sec (tt_tier tr)) now)" for now
    by (rule new_ok)
  show "counters_ok (trading_cap (tt_tier tr)) (tt_counter (rl_step fp k op tr))"
  proof (cases op)
    case (RlConsume s cost now)
    show ?thesis
    proof (cases s)
      case (ScopeApiKey a)
      then show ?thesis using RlConsume assms by (simp add: trading_consume_def)
    next
      case (ScopePair a p)
      show ?thesis
        using RlConsume ScopePair assms
        by (simp add: consume_shape counters_ok_update touch_counters_ok new charge_counter_ok or_insert_ok)
    qed
  next
    case (RlCredit s cost now)
    then show ?thesis
      using assms
      by (auto simp: trading_credit_def counters_ok_update counters_ok_def credit_ok hm_simps
          split: rl_scope.split option.split)
  next
    case (RlAccountWide s cost now)
    then show ?thesis
      using assms by (simp add: charge_account_wide_def counters_ok_account saturating_ok split: rl_scope.split)
  next
    case (RlSnap s err now)
    then show ?thesis
      using assms
      by (simp add: trading_snap_to_cap_def Let_def counters_ok_account snap_ok counters_ok_update or_insert_ok new
          split: rl_scope.split)
  qed
qed

definition rl_run :: "(api_key \<Rightarrow> string) \<Rightarrow> knobs \<Rightarrow> rl_op list \<Rightarrow> trading_tracker \<Rightarrow> trading_tracker" where
  "rl_run fp k ops tr = fold (rl_step fp k) ops tr"

lemma rl_run_ok:
  "counters_ok (trading_cap (tt_tier tr)) (tt_counter tr) \<Longrightarrow> list_all op_cost_ok ops \<Longrightarrow>
   counters_ok (trading_cap (tt_tier tr)) (tt_counter (rl_run fp k ops tr)) \<and>
   tt_tier (rl_run fp k ops tr) = tt_tier tr \<and> tt_lru_cap (rl_run fp k ops tr) = tt_lru_cap tr"
proof (induction ops arbitrary: tr)
  case (Cons op ops)
  have "op_cost_ok op" using Cons.prems by simp
  note S = rl_step_ok [OF Cons.prems(1) this, of fp k]
  show ?case using Cons.IH [of "rl_step fp k op tr"] S Cons.prems by (simp add: rl_run_def)
qed (simp add: rl_run_def)

text \<open>
  The local accounting never leaves its range. Whatever sequence of charges, refunds, account-wide
  charges and reconciliations with non-negative finite costs reaches the trading tracker, and however
  the clock readings are ordered, every counter is a number between zero and the tier's cap.
\<close>

lemma counters_within_cap:
  assumes "list_all op_cost_ok ops"
    and "hm_get (tt_counter (rl_run fp k ops (with_lru_cap t clock n))) key = Some c"
  shows "f_le (Fin 0) (c_current c) \<and> f_le (c_current c) (trading_cap t) \<and> c_cap c = trading_cap t"
proof -
  have "counters_ok (trading_cap t) (tt_counter (with_lru_cap t clock n))" "tt_tier (with_lru_cap t clock n) = t"
    by (simp_all add: counters_ok_def with_lru_cap_def)
  then have "counter_ok (trading_cap t) c"
    using rl_run_ok [of "with_lru_cap t clock n" ops fp k] assms
    by (cases key) (auto simp: counters_ok_def)
  then show ?thesis by (auto simp: counter_ok_def)
qed
definition charge_twice :: "rl_op list" where
  "charge_twice = [RlConsume (ScopePair ''k'' ''A/B'') (Fin 59) 7, RlConsume (ScopePair ''k'' ''A/B'') (Fin 2) 7]"

section \<open>The scope cache\<close>

definition lru_ok :: "trading_tracker \<Rightarrow> bool" where
  "lru_ok tr \<longleftrightarrow> hm_inv (tt_counter tr) \<and> distinct (tt_access_order tr) \<and>
     set (tt_access_order tr) = dom (hm_get (tt_counter tr))"

lemma hm_length: "hm_inv m \<Longrightarrow> length m = card (dom (hm_get m))"
  by (metis dom_map_of_conv_image_fst distinct_card hm_inv_def length_map set_map)

lemma promote_set [simp]: "set (promote k xs) = insert k (set xs)"
  by (induction xs) (auto simp: promote_def)

lemma promote_distinct: "distinct xs \<Longrightarrow> distinct (promote k xs)"
  by (simp add: promote_def)

lemma oldest_found:
  assumes "k \<notin> set xs" and "xs \<noteq> []"
  shows "List.find (\<lambda>x. x \<noteq> k) (promote k xs) = Some (hd xs)"
  using assms by (cases xs) (auto simp: promote_def remove1_idem)

text \<open>Touching a scope: it is tracked afterwards; when it is new and the cache is full, exactly the
  least recently used scope is dropped.\<close>

lemma touch_effect:
  fixes key c d now
  assumes ok: "lru_ok tr" and cap: "1 \<le> tt_lru_cap tr"
  defines "tr' \<equiv> fst (touch_lru key c d now tr)"
  defines "full \<equiv> hm_get (tt_counter tr) key = None \<and> tt_lru_cap tr \<le> length (tt_counter tr)"
  shows "lru_ok tr'"
    and "hm_get (tt_counter tr') = (if full then (hm_get (tt_counter tr))(hd (tt_access_order tr) := None)
           else hm_get (tt_counter tr))
         (key \<mapsto> or_insert_counter key (counter_new c d now) (tt_counter tr))"
    and "full \<Longrightarrow> hd (tt_access_order tr) \<in> dom (hm_get (tt_counter tr)) \<and> hd (tt_access_order tr) \<noteq> key"
proof -
  let ?m = "tt_counter tr" and ?o = "tt_access_order tr"
  have inv: "hm_inv ?m" "distinct ?o" "set ?o = dom (hm_get ?m)" using ok by (simp_all add: lru_ok_def)
  have head: "hd ?o \<in> dom (hm_get ?m) \<and> hd ?o \<noteq> key \<and> List.find (\<lambda>x. x \<noteq> key) (promote key ?o) = Some (hd ?o)" if full
  proof -
    have "key \<notin> set ?o" using that inv(3) by (auto simp: full_def)
    moreover have "?m \<noteq> []" using that cap by (auto simp: full_def)
    then have "?o \<noteq> []" using inv(3) by (cases ?m) auto
    ultimately show ?thesis using oldest_found inv(3) by (metis hd_in_set)
  qed
  then show "full \<Longrightarrow> hd ?o \<in> dom (hm_get ?m) \<and> hd ?o \<noteq> key" by blast
  show "hm_get (tt_counter tr') = (if full then (hm_get ?m)(hd ?o := None) else hm_get ?m)
         (key \<mapsto> or_insert_counter key (counter_new c d now) ?m)"
    using head by (auto simp: tr'_def touch_lru_def full_def Let_def or_insert_counter_def hm_simps fun_eq_iff
        split: option.split)
  show "lru_ok tr'"
    using head inv
    by (auto simp: tr'_def touch_lru_def full_def Let_def lru_ok_def hm_simps promote_distinct
        split: option.split if_splits)
qed
lemma consume_lru:
  assumes "lru_ok tr" and "1 \<le> tt_lru_cap tr"
  shows "lru_ok (fst (trading_consume fp k s cost now tr))"
proof (cases s)
  case (ScopePair a p)
  note T = touch_effect(1,2) [OF assms, of "(a, p)" "trading_cap (tt_tier tr)" "trading_decay_per_sec (tt_tier tr)" now]
  have "(a, p) \<in> dom (hm_get (tt_counter (fst (touch_lru (a, p) (trading_cap (tt_tier tr))
      (trading_decay_per_sec (tt_tier tr)) now tr))))" using T(2) by auto
  with T(1) show ?thesis by (auto simp: ScopePair lru_ok_def consume_shape hm_simps split: if_splits)
qed (use assms in \<open>simp add: trading_consume_def\<close>)

lemma consume_size:
  assumes "lru_ok tr" and "1 \<le> tt_lru_cap tr" and "length (tt_counter tr) \<le> tt_lru_cap tr"
  shows "length (tt_counter (fst (trading_consume fp k s cost now tr))) \<le> tt_lru_cap tr"
proof (cases s)
  case (ScopePair a p)
  let ?tr' = "fst (trading_consume fp k s cost now tr)" and ?o = "hd (tt_access_order tr)"
  note T = touch_effect(1,2) [OF assms(1,2), of "(a, p)" "trading_cap (tt_tier tr)" "trading_decay_per_sec (tt_tier tr)" now]
    and oldest = touch_effect(3) [OF assms(1,2), of "(a, p)"]
  let ?D = "dom (hm_get (tt_counter tr))"
  have inv: "hm_inv (tt_counter tr)" "hm_inv (tt_counter ?tr')"
    using assms(1) consume_lru [OF assms(1,2)] by (simp_all add: lru_ok_def)
  have card: "card ?D \<le> tt_lru_cap tr" "finite ?D" using hm_length [OF inv(1)] assms(3) by (simp_all add: finite_dom_map_of)
  have dom': "dom (hm_get (tt_counter ?tr')) =
      insert (a, p) (if (a, p) \<notin> ?D \<and> tt_lru_cap tr \<le> length (tt_counter tr) then ?D - {?o} else ?D)"
    using T(2) by (auto simp: ScopePair consume_shape hm_simps split: if_splits)
  have "card (dom (hm_get (tt_counter ?tr'))) \<le> tt_lru_cap tr"
  proof (cases "(a, p) \<notin> ?D \<and> tt_lru_cap tr \<le> length (tt_counter tr)")
    case True
    then have "?o \<in> ?D" using oldest by auto
    then have "card (?D - {?o}) = card ?D - 1" "0 < card ?D" using card(2) by (auto simp: card_gt_0_iff)
    moreover have "card (insert (a, p) (?D - {?o})) \<le> Suc (card (?D - {?o}))" by (rule card_insert_le_m1) simp_all
    ultimately show ?thesis using True card(1) unfolding dom' by simp
  next
    case False
    then show ?thesis
      unfolding dom' using card hm_length [OF inv(1)]
      by (cases "(a, p) \<in> ?D") (simp_all add: insert_absorb)
  qed
  then show ?thesis using hm_length [OF inv(2)] by simp
qed (use assms in \<open>simp add: trading_consume_def\<close>)

lemma account_lru: "lru_ok tr \<Longrightarrow> lru_ok (tr\<lparr>tt_counter := update_account a f (tt_counter tr)\<rparr>)"
proof -
  assume "lru_ok tr"
  moreover have "dom (hm_get (update_account a f m)) = dom (hm_get m)" for m
    by (simp add: dom_map_of_conv_image_fst flip: set_map)
  ultimately show ?thesis by (simp add: lru_ok_def hm_inv_def)
qed

lemma promote_all:
  assumes "distinct xs" and "set ks \<subseteq> set xs"
  shows "distinct (fold promote ks xs) \<and> set (fold promote ks xs) = set xs"
  using assms
proof (induction ks arbitrary: xs)
  case (Cons k ks)
  then show ?case using Cons.IH [of "promote k xs"] by (simp add: promote_distinct insert_absorb)
qed simp

lemma rl_step_lru:
  assumes "lru_ok tr" and "1 \<le> tt_lru_cap tr"
  shows "lru_ok (rl_step fp k op tr)"
proof (cases op)
  case (RlConsume s cost now)
  then show ?thesis using consume_lru [OF assms] by simp
next
  case (RlCredit s cost now)
  then show ?thesis
    using assms(1) by (auto simp: trading_credit_def lru_ok_def hm_simps split: rl_scope.split option.split)
next
  case (RlAccountWide s cost now)
  then show ?thesis using assms(1) by (simp add: charge_account_wide_def account_lru split: rl_scope.split)
next
  case (RlSnap s err now)
  show ?thesis
  proof (cases s)
    case (ScopeApiKey a)
    let ?m = "update_account a (counter_snap now) (tt_counter tr)"
    have "lru_ok (tr\<lparr>tt_counter := ?m\<rparr>)" using account_lru [OF assms(1)] .
    moreover have "set (filter (\<lambda>(a', _). a' = a) (map fst ?m)) \<subseteq> set (tt_access_order tr)"
      using assms(1) by (auto simp: lru_ok_def dom_map_of_conv_image_fst)
    moreover have "distinct (tt_access_order tr)" using assms(1) by (simp add: lru_ok_def)
    ultimately show ?thesis
      using RlSnap ScopeApiKey promote_all [of "tt_access_order tr"]
      by (simp add: trading_snap_to_cap_def lru_ok_def Let_def)
  next
    case (ScopePair a p)
    then show ?thesis
      using RlSnap assms(1) by (auto simp: trading_snap_to_cap_def lru_ok_def Let_def hm_simps promote_distinct)
  qed
qed

fun pair_snap :: "rl_op \<Rightarrow> bool" where
  "pair_snap (RlSnap (ScopePair a p) err now) = True"
| "pair_snap _ = False"

lemma rl_step_size:
  assumes "lru_ok tr" and "1 \<le> tt_lru_cap tr" and "length (tt_counter tr) \<le> tt_lru_cap tr" and "\<not> pair_snap op"
  shows "length (tt_counter (rl_step fp k op tr)) \<le> tt_lru_cap tr"
proof (cases op)
  case (RlConsume s cost now)
  then show ?thesis using consume_size [OF assms(1-3)] by simp
next
  case (RlCredit s cost now)
  have "length (hm_insert q c m) = length m" if "hm_inv m" "hm_get m q = Some c0" for q c c0 and m :: "(pair_key, rate_limit_counter) hashmap"
  proof -
    have "dom (hm_get (hm_insert q c m)) = dom (hm_get m)" using that(2) by (auto simp: hm_simps split: if_splits)
    then show ?thesis using hm_length [OF that(1)] hm_length [OF hm_inv_insert [OF that(1)], of q c] by simp
  qed
  then show ?thesis
    using RlCredit assms by (auto simp: trading_credit_def lru_ok_def split: rl_scope.split option.split)
next
  case (RlAccountWide s cost now)
  then show ?thesis using assms by (simp add: charge_account_wide_def split: rl_scope.split)
next
  case (RlSnap s err now)
  then show ?thesis using assms by (cases s) (simp_all add: trading_snap_to_cap_def Let_def)
qed

lemma rl_step_cap: "tt_lru_cap (rl_step fp k op tr) = tt_lru_cap tr"
  by (cases op; simp add: trading_consume_def trading_credit_def charge_account_wide_def trading_snap_to_cap_def
      touch_fields Let_def split_beta split: rl_scope.split option.split)

lemma rl_run_lru:
  "lru_ok tr \<Longrightarrow> 1 \<le> tt_lru_cap tr \<Longrightarrow> length (tt_counter tr) \<le> tt_lru_cap tr \<Longrightarrow>
   lru_ok (rl_run fp k ops tr) \<and>
   (list_ex pair_snap ops \<or> length (tt_counter (rl_run fp k ops tr)) \<le> tt_lru_cap tr)"
proof -
  assume *: "lru_ok tr" "1 \<le> tt_lru_cap tr" "length (tt_counter tr) \<le> tt_lru_cap tr"
  have "lru_ok (rl_run fp k ops tr)"
    using *(1,2) by (induction ops arbitrary: tr) (simp_all add: rl_run_def rl_step_lru rl_step_cap)
  moreover have "length (tt_counter (rl_run fp k ops tr)) \<le> tt_lru_cap tr" if "\<not> list_ex pair_snap ops"
    using * that
  proof (induction ops arbitrary: tr)
    case (Cons op ops)
    then show ?case
      using Cons.IH [of "rl_step fp k op tr"] rl_step_lru [of tr fp k op] rl_step_size [of tr op fp k]
      by (simp add: rl_run_def rl_step_cap)
  qed (simp add: rl_run_def)
  ultimately show ?thesis by blast
qed

text \<open>
  The scope cache of the trading tracker is bounded and its recency order is exact. After any
  run the access order lists every tracked scope once and nothing else, and unless a per-pair
  reconciliation happened, at most the configured number of scopes is tracked.
\<close>

lemma scope_cache_bounded:
  "let tr = rl_run fp k ops (with_lru_cap t clock n) in
     distinct (tt_access_order tr) \<and> set (tt_access_order tr) = dom (hm_get (tt_counter tr)) \<and>
     (list_ex pair_snap ops \<or> length (tt_counter tr) \<le> max n 1)"
proof -
  have "lru_ok (with_lru_cap t clock n)" by (simp add: lru_ok_def with_lru_cap_def)
  then show ?thesis
    using rl_run_lru [of "with_lru_cap t clock n" fp k ops] by (simp add: with_lru_cap_def lru_ok_def Let_def)
qed

text \<open>
  A per-pair reconciliation ignores the cache bound: on a full cache, snapping an untracked pair
  to its cap adds a scope without evicting one, so the cache grows past the configured number by
  one for every such pair.
\<close>

lemma snap_overflows_scope_cache:
  assumes "lru_ok tr" and "hm_get (tt_counter tr) (a, p) = None"
  shows "length (tt_counter (trading_snap_to_cap fp (ScopePair a p) err now tr)) = Suc (length (tt_counter tr))"
proof -
  let ?tr' = "trading_snap_to_cap fp (ScopePair a p) err now tr"
  have inv: "hm_inv (tt_counter tr)" using assms(1) by (simp add: lru_ok_def)
  have c: "tt_counter ?tr' = hm_insert (a, p) x (tt_counter tr)"
    if "x = counter_snap now (or_insert_counter (a, p)
        (counter_new (trading_cap (tt_tier tr)) (trading_decay_per_sec (tt_tier tr)) now) (tt_counter tr))" for x
    using that by (simp add: trading_snap_to_cap_def Let_def)
  have "dom (hm_get (tt_counter ?tr')) = insert (a, p) (dom (hm_get (tt_counter tr)))"
    by (auto simp: c hm_simps)
  moreover have "(a, p) \<notin> dom (hm_get (tt_counter tr))" using assms(2) by auto
  moreover have "hm_inv (tt_counter ?tr')" using inv by (simp add: c hm_simps)
  ultimately show ?thesis using hm_length [OF inv] hm_length [of "tt_counter ?tr'"] by (simp add: finite_dom_map_of)
qed

section \<open>One consult\<close>

definition tracker_inv :: "trading_tracker \<Rightarrow> bool" where
  "tracker_inv tr \<longleftrightarrow> lru_ok tr \<and> 1 \<le> tt_lru_cap tr \<and> counters_ok (trading_cap (tt_tier tr)) (tt_counter tr)"

lemma fresh_peek:
  "peek_current now (counter_new (trading_cap t) (trading_decay_per_sec t) now) = Fin 0"
  using tier_rates(1) [of t] by (auto simp: peek_current_def counter_new_def as_secs_f64_def f_div_def f_mul_def f_sub_def
      f_max_def f64_of_def Let_def)

definition used_at :: "instant \<Rightarrow> pair_key \<Rightarrow> trading_tracker \<Rightarrow> f64" where
  "used_at now key tr = (case hm_get (tt_counter tr) key of Some c \<Rightarrow> peek_current now c | None \<Rightarrow> Fin 0)"

lemma consume_unfolds:
  assumes "tracker_inv tr" and "trading_consume fp k (ScopePair a p) cost now tr = (tr', res)"
  defines "cap \<equiv> trading_cap (tt_tier tr)"
  obtains c r m where "counter_ok cap c" and "peek_current now c = used_at now (a, p) tr"
    and "r = charge_counter TrackerTrading (ScopePair a p) cap (k_rate_limit_trading_warning_pct k) cost now c"
    and "tt_counter tr' = hm_insert (a, p) (fst r) m" and "res = fst (snd r)"
    and "m = tt_counter (fst (touch_lru (a, p) cap (trading_decay_per_sec (tt_tier tr)) now tr))"
proof -
  let ?decay = "trading_decay_per_sec (tt_tier tr)"
  let ?new = "counter_new cap ?decay now" and ?tr1 = "fst (touch_lru (a, p) cap ?decay now tr)"
  have inv: "lru_ok tr" "1 \<le> tt_lru_cap tr" "counters_ok cap (tt_counter tr)"
    using assms(1) by (simp_all add: tracker_inv_def cap_def)
  define c where "c = or_insert_counter (a, p) ?new (tt_counter tr)"
  have c1: "or_insert_counter (a, p) ?new (tt_counter ?tr1) = c"
    unfolding c_def using touch_effect(2) [OF inv(1,2), of "(a, p)" cap ?decay now]
    by (simp add: or_insert_counter_def)
  show ?thesis
  proof (rule that [of c _ "tt_counter ?tr1", OF _ _ refl])
    show "counter_ok cap c" unfolding c_def cap_def by (rule or_insert_ok [OF inv(3) [unfolded cap_def] new_ok(1)])
    show "peek_current now c = used_at now (a, p) tr"
      by (simp add: c_def or_insert_counter_def used_at_def fresh_peek cap_def split: option.split)
  qed (use consume_shape(1,5) [of fp k a p cost now tr] assms(2) c1 in \<open>simp_all add: cap_def\<close>)
qed

text \<open>
  Property C29. A consult charges exactly one scope, and only when it fits. With the amount used so far decayed to
  now, the consult is granted exactly when that amount plus the cost is within the tier's cap; the
  scope's counter then holds the sum, otherwise just the decayed amount; every other scope keeps its
  counter, except that on a full cache the least recently used scope makes room for a new one.
\<close>

theorem consult_charges_one_scope:
  assumes "tracker_inv tr" and "cost_ok cost"
    and "trading_consume fp k (ScopePair a p) cost now tr = (tr', res)"
  shows "(res = Inr () \<longleftrightarrow> f_le (f_add (used_at now (a, p) tr) cost) (trading_cap (tt_tier tr))) \<and>
    map_option c_current (hm_get (tt_counter tr') (a, p)) =
      Some (if res = Inr () then f_add (used_at now (a, p) tr) cost else used_at now (a, p) tr) \<and>
    (\<forall>q. q = (a, p) \<or> hm_get (tt_counter tr') q = hm_get (tt_counter tr) q \<or>
       (q = hd (tt_access_order tr) \<and> hm_get (tt_counter tr') q = None \<and>
        hm_get (tt_counter tr) (a, p) = None \<and> tt_lru_cap tr \<le> length (tt_counter tr)))"
proof -
  let ?cap = "trading_cap (tt_tier tr)" and ?u = "used_at now (a, p) tr"
  obtain c r m where c: "counter_ok ?cap c" and peek: "peek_current now c = ?u"
    and r: "r = charge_counter TrackerTrading (ScopePair a p) ?cap (k_rate_limit_trading_warning_pct k) cost now c"
    and tr': "tt_counter tr' = hm_insert (a, p) (fst r) m" "res = fst (snd r)"
    and m: "m = tt_counter (fst (touch_lru (a, p) ?cap (trading_decay_per_sec (tt_tier tr)) now tr))"
    by (rule consume_unfolds [OF assms(1,3)])
  have emit: "c_current (fst (should_emit_warning n w x)) = c_current x" for n w x
    by (simp add: should_emit_warning_def Let_def split: option.split)
  have res: "res = Inr () \<longleftrightarrow> snd (charge cost now c) = Charged" unfolding tr' r by (rule charge_counter_shape)
  have current: "c_current (fst r) = (if res = Inr () then f_add ?u cost else ?u)"
    unfolding res using charge_ok(2) [OF c assms(2), of now] peek by (simp add: r charge_counter_shape(1) emit)
  have "res = Inr () \<longleftrightarrow> f_le (f_add ?u cost) ?cap"
    unfolding res using charge_ok(3) [OF c assms(2), of now] peek by simp
  moreover have "map_option c_current (hm_get (tt_counter tr') (a, p)) = Some (if res = Inr () then f_add ?u cost else ?u)"
    using current by (simp add: tr' hm_simps)
  moreover have "lru_ok tr" "1 \<le> tt_lru_cap tr" using assms(1) by (simp_all add: tracker_inv_def)
  then have "q = (a, p) \<or> hm_get (tt_counter tr') q = hm_get (tt_counter tr) q \<or>
       (q = hd (tt_access_order tr) \<and> hm_get (tt_counter tr') q = None \<and>
        hm_get (tt_counter tr) (a, p) = None \<and> tt_lru_cap tr \<le> length (tt_counter tr))" for q
    unfolding tr'(1) hm_get_insert m touch_effect(2) [OF \<open>lru_ok tr\<close> \<open>1 \<le> tt_lru_cap tr\<close>] by auto
  ultimately show ?thesis by blast
qed

lemma new_tracker_inv: "tracker_inv (with_lru_cap t clock n)"
  by (simp add: tracker_inv_def lru_ok_def counters_ok_def with_lru_cap_def)

theorem consult_charges_one_scope_witness:
  "snd (trading_consume id knobs_defaults (ScopePair ''k'' ''A/B'') (Fin 61) 7 (with_lru_cap Starter id 8)) \<noteq> Inr ()"
proof -
  obtain tr' res where r: "trading_consume id knobs_defaults (ScopePair ''k'' ''A/B'') (Fin 61) 7
      (with_lru_cap Starter id 8) = (tr', res)" by fastforce
  have "f64_of 61 = Fin 61" using f64_of_range [of 61 61 61] round64_int [of 61] by simp
  moreover have "used_at 7 (''k'', ''A/B'') (with_lru_cap Starter id 8) = Fin 0" "tt_tier (with_lru_cap Starter id 8) = Starter"
    by (simp_all add: used_at_def with_lru_cap_def)
  ultimately show ?thesis
    using consult_charges_one_scope [OF new_tracker_inv _ r] r by (auto simp: cost_ok_def)
qed

lemma retry_in_range:
  assumes "counter_ok cap c"
  shows "\<exists>t. compute_retry_at (c_current c) (c_cap c) (c_decay_per_sec c) now = Some t \<and> now \<le> t \<and> t \<le> now + secs 86400"
proof -
  obtain x cp d where c: "c_current c = Fin x" "0 \<le> x" "x \<le> cp" "c_cap c = Fin cp" "cp \<le> 1000"
    "c_decay_per_sec c = Fin d" "0 < d"
    using assms by (auto simp: counter_ok_def)
  have nonneg: "\<exists>n. f_max y (Fin 0) = Fin n \<and> 0 \<le> n" if "y \<noteq> PInf" for y
    using that by (cases y) (auto simp: f_max_def)
  have "f_sub (Fin cp) (Fin 1) = f64_of (cp - 1)" by (simp add: f_sub_def)
  moreover have cp1: "of_int (- 1) \<le> cp - 1" "cp - 1 \<le> of_int 1000" using c by simp_all
  then have "f64_of (cp - 1) = Fin (round64 (cp - 1))" "- 1 \<le> round64 (cp - 1)" using f64_of_range [OF cp1] by simp_all
  ultimately have sub: "f_sub (Fin x) (f_sub (Fin cp) (Fin 1)) = f64_of (x - round64 (cp - 1))" "x - round64 (cp - 1) \<le> 1001"
    using c by (simp_all add: f_sub_def)
  have "f_sub (Fin x) (f_sub (Fin cp) (Fin 1)) \<noteq> PInf"
  proof
    assume "f_sub (Fin x) (f_sub (Fin cp) (Fin 1)) = PInf"
    then have "2 ^ 1024 \<le> round64 (x - round64 (cp - 1))"
      using sub by (simp add: f64_of_def Let_def split: if_splits)
    moreover have "round64 (x - round64 (cp - 1)) \<le> of_int 1001"
      using r64.rnd_le_int [of "x - round64 (cp - 1)" 1001] sub(2) by simp
    moreover have "(of_int 1001 :: rat) < of_int (2 ^ 1024)" by (simp only: of_int_less_iff) simp
    ultimately show False by simp
  qed
  then obtain n where n: "f_max (f_sub (Fin x) (f_sub (Fin cp) (Fin 1))) (Fin 0) = Fin n" "0 \<le> n" using nonneg by blast
  have "0 \<le> n / d" using n c by simp
  then have "\<exists>s. f_clamp (f_div (Fin n) (Fin d)) (Fin 0) (Fin 86400) = Fin s \<and> 0 \<le> s \<and> s \<le> 86400"
    using c(7) by (cases rule: f64_of_nonneg_cases) (auto simp: f_div_def f_clamp_def f_lt_def)
  then obtain s where s: "f_clamp (f_div (Fin n) (Fin d)) (Fin 0) (Fin 86400) = Fin s" "0 \<le> s" "s \<le> 86400" by blast
  have "(2 :: rat) ^ 64 > 86400" by simp
  then have dom: "\<not> (s < 0 \<or> 2 ^ 64 \<le> s)" using s by linarith
  have "round_half_even (s * 1000000000) \<le> round_half_even (of_int (86400 * 1000000000))"
    using s by (intro rhe_mono) simp
  then have "nat (round_half_even (s * 1000000000)) \<le> 86400 * 1000000000" by (simp only: rhe_of_int)
  then show ?thesis
    using n s dom c by (simp add: compute_retry_at_def Let_def MAX_RETRY_PROJECTION_SECS_def try_from_secs_f64_def)
qed

text \<open>
  A rejected consult never panics and names a usable retry instant: the error reports the
  tracker, the scope, the decayed amount and the cap, and its retry instant exists, is not in the past
  and lies at most a day ahead.
\<close>

lemma rejection_names_retry:
  assumes "tracker_inv tr" and "cost_ok cost"
    and "trading_consume fp k (ScopePair a p) cost now tr = (tr', Inl e)"
  shows "x_tracker e = TrackerTrading \<and> x_scope e = ScopePair a p \<and> x_cap e = trading_cap (tt_tier tr) \<and>
    x_current e = used_at now (a, p) tr \<and>
    (\<exists>t. x_retry_at e = Some t \<and> now \<le> t \<and> t \<le> now + secs 86400)"
proof -
  let ?cap = "trading_cap (tt_tier tr)"
  obtain c r where c: "counter_ok ?cap c" and peek: "peek_current now c = used_at now (a, p) tr"
    and r: "r = charge_counter TrackerTrading (ScopePair a p) ?cap (k_rate_limit_trading_warning_pct k) cost now c"
    and e: "Inl e = fst (snd r)"
    by (rule consume_unfolds [OF assms(1,3)])
  let ?c1 = "fst (charge cost now c)"
  have exceeded: "snd (charge cost now c) = Exceeded"
    using e charge_counter_shape(2) [of TrackerTrading "ScopePair a p" ?cap "k_rate_limit_trading_warning_pct k" cost now c]
    by (cases "snd (charge cost now c)") (simp_all add: r flip: e)
  then have "charge cost now c = (?c1, Exceeded)" by (metis prod.collapse)
  then have E: "e = \<lparr>x_tracker = TrackerTrading, x_scope = ScopePair a p, x_current = c_current ?c1, x_cap = c_cap ?c1,
      x_retry_at = compute_retry_at (c_current ?c1) (c_cap ?c1) (c_decay_per_sec ?c1) now\<rparr>"
    using e by (simp add: r charge_counter_def split: prod.splits)
  have ok: "counter_ok ?cap ?c1" by (rule charge_ok(1) [OF c assms(2)])
  then have "c_cap ?c1 = ?cap" by (auto simp: counter_ok_def)
  moreover have "c_current ?c1 = used_at now (a, p) tr" using charge_ok(2) [OF c assms(2), of now] exceeded peek by simp
  ultimately show ?thesis using E retry_in_range [OF ok, of now] by simp
qed

section \<open>Costs by order age\<close>

text \<open>The brackets in whole nanoseconds.\<close>

definition age_cost_spec :: "dynamic_cost_op \<Rightarrow> duration \<Rightarrow> nat" where
  "age_cost_spec op age =
     (case op of
        DynAmendOrder \<Rightarrow> if age < secs 5 then 4 else if age < secs 10 then 3 else if age < secs 15 then 2 else 1
      | DynCancelOrder \<Rightarrow>
          if age < secs 5 then 8 else if age < secs 10 then 6 else if age < secs 15 then 5
          else if age < secs 45 then 4 else if age < secs 90 then 2 else if age < secs 300 then 1 else 0)"

text \<open>
  The age brackets are exact. Although the age is converted to binary64 seconds, the cost of amending
  or cancelling is decided as if the age were compared in whole nanoseconds, one bracket per threshold, so an older order
  never costs more.
\<close>

lemma age_brackets_exact: "order_age_cost op age = Fin (of_nat (age_cost_spec op age))"
proof -
  have lt: "f_lt (as_secs_f64 age) (Fin 5) \<longleftrightarrow> age < secs 5" "f_lt (as_secs_f64 age) (Fin 10) \<longleftrightarrow> age < secs 10"
    "f_lt (as_secs_f64 age) (Fin 15) \<longleftrightarrow> age < secs 15" "f_lt (as_secs_f64 age) (Fin 45) \<longleftrightarrow> age < secs 45"
    "f_lt (as_secs_f64 age) (Fin 90) \<longleftrightarrow> age < secs 90" "f_lt (as_secs_f64 age) (Fin 300) \<longleftrightarrow> age < secs 300"
    using as_secs_less [of 5 age] as_secs_less [of 10 age] as_secs_less [of 15 age] as_secs_less [of 45 age]
      as_secs_less [of 90 age] as_secs_less [of 300 age] by simp_all
  have add: "f_add (Fin 1) (Fin (of_nat n)) = Fin (of_nat (Suc n))" if "n \<le> 3" for n
    using that f64_of_range [of "int (Suc n)" "of_nat (Suc n)" "int (Suc n)"] round64_int [of "int (Suc n)"] by simp
  show ?thesis
    using add [of 3] add [of 2] add [of 1] add [of 0]
    by (simp add: order_age_cost_def age_cost_spec_def Let_def lt split: dynamic_cost_op.split)
qed

end
