(* ===== verification/Request_Signing.thy ===== *)
theory Request_Signing
  imports Managed_Connection Rust_Text
begin

text \<open>
  Signing a private REST request: \<open>src/rust/src/auth/nonce.rs\<close>, \<open>signer.rs\<close> and the form
  encoder and \<open>AuthStack::sign_form\<close> of \<open>mod.rs\<close>.
  \<^item> The wall clock is read in nanoseconds after the Unix epoch, \<open>None\<close> before it.
  \<^item> The atomic loop of \<open>next_nonce\<close> is a step relation over any number of threads: a call samples
    its candidate, loads the counter, and its weak compare-exchange succeeds or, also spuriously, fails.
    \<open>next_nonce\<close> is its outcome when no other thread interferes.
  \<^item> SHA-256, HMAC-SHA512 and base64 are parameters, the flds of \<open>crypto\<close>; texts are byte lists.
\<close>

section \<open>The nonce source\<close>

definition wall_candidate :: "nat option \<Rightarrow> u64" where
  "wall_candidate wall = (case wall of None \<Rightarrow> 0 | Some nanos \<Rightarrow> word_of_nat (min nanos (2 ^ 64 - 1)))"

definition bump_nonce :: "u64 \<Rightarrow> u64 \<Rightarrow> u64" where
  "bump_nonce current candidate = max (saturating_add current 1) candidate"

definition next_nonce :: "nat option \<Rightarrow> u64 \<Rightarrow> u64 \<times> u64" where
  "next_nonce wall counter = (let n = bump_nonce counter (wall_candidate wall) in (n, n))"

datatype nonce_pc = NonceIdle | NonceCalled u64 | NonceLoaded u64 u64

record nonce_state =
  ns_counter :: u64
  ns_threads :: "nat \<Rightarrow> nonce_pc"
  ns_issued :: "u64 list"

definition nonce_init :: nonce_state where
  "nonce_init = \<lparr>ns_counter = 0, ns_threads = (\<lambda>_. NonceIdle), ns_issued = []\<rparr>"

inductive nonce_step :: "nonce_state \<Rightarrow> nonce_state \<Rightarrow> bool" where
  nonce_call: "ns_threads s t = NonceIdle \<Longrightarrow>
    nonce_step s (s\<lparr>ns_threads := (ns_threads s)(t := NonceCalled (wall_candidate wall))\<rparr>)"
| nonce_load: "ns_threads s t = NonceCalled c \<Longrightarrow>
    nonce_step s (s\<lparr>ns_threads := (ns_threads s)(t := NonceLoaded c (ns_counter s))\<rparr>)"
| nonce_won: "ns_threads s t = NonceLoaded c current \<Longrightarrow> ns_counter s = current \<Longrightarrow>
    nonce_step s (s\<lparr>ns_counter := bump_nonce current c, ns_threads := (ns_threads s)(t := NonceIdle),
                    ns_issued := ns_issued s @ [bump_nonce current c]\<rparr>)"
| nonce_lost: "ns_threads s t = NonceLoaded c current \<Longrightarrow>
    nonce_step s (s\<lparr>ns_threads := (ns_threads s)(t := NonceCalled c)\<rparr>)"

inductive_cases nonce_stepE: "nonce_step s s'"

section \<open>The form encoder\<close>

definition is_unreserved :: "char \<Rightarrow> bool" where
  "is_unreserved b \<longleftrightarrow> is_ascii_alphanumeric b \<or> b \<in> set ''-_.~''"

definition HEX_UPPER :: string where
  "HEX_UPPER = ''0123456789ABCDEF''"

definition escape_byte :: "char \<Rightarrow> string" where
  "escape_byte b =
     (if is_unreserved b then [b]
      else [CHR ''%'', HEX_UPPER ! (of_char b div 16), HEX_UPPER ! (of_char b mod 16)])"

fun encode_into :: "string \<Rightarrow> string \<Rightarrow> string" where
  "encode_into out [] = out"
| "encode_into out (b # s) = encode_into (out @ escape_byte b) s"

definition encoded_len :: "string \<Rightarrow> nat" where
  "encoded_len s = sum_list (map (\<lambda>b. if is_unreserved b then 1 else 3) s)"

definition form_capacity :: "(string \<times> string) list \<Rightarrow> nat" where
  "form_capacity flds = sum_list (map (\<lambda>(k, v). encoded_len k + encoded_len v + 2) flds)"

fun encode_fields :: "nat \<Rightarrow> string \<Rightarrow> (string \<times> string) list \<Rightarrow> string" where
  "encode_fields i out [] = out"
| "encode_fields i out ((k, v) # flds) =
     encode_fields (Suc i)
       (encode_into (encode_into (if i > 0 then out @ ''&'' else out) k @ ''='') v) flds"

definition encode_form :: "(string \<times> string) list \<Rightarrow> string" where
  "encode_form flds = encode_fields 0 [] flds"

section \<open>Signing\<close>

record crypto =
  sha256 :: "string \<Rightarrow> string"
  hmac_sha512 :: "string \<Rightarrow> string \<Rightarrow> string option"
  base64 :: "string \<Rightarrow> string"

definition compute_api_sign :: "crypto \<Rightarrow> string \<Rightarrow> u64 \<Rightarrow> string \<Rightarrow> string \<Rightarrow> string option" where
  "compute_api_sign cr secret nonce path body =
     (let payload = sha256 cr (dec_string (unat nonce) @ body)
      in map_option (base64 cr) (hmac_sha512 cr secret (path @ payload)))"

record signer =
  s_api_key :: string
  s_secret :: string

record signed_request =
  q_api_key_header :: string
  q_api_sign_header :: string
  q_nonce :: u64

definition sign :: "crypto \<Rightarrow> signer \<Rightarrow> u64 \<Rightarrow> string \<Rightarrow> string \<Rightarrow> signed_request option" where
  "sign cr s nonce path body =
     map_option (\<lambda>api_sign. \<lparr>q_api_key_header = s_api_key s, q_api_sign_header = api_sign, q_nonce = nonce\<rparr>)
       (compute_api_sign cr (s_secret s) nonce path body)"

datatype auth_profile = PublicProfile | SpotV1 | SpotWsV2 | L3WsV2 | FuturesV3

fun profile_debug :: "auth_profile \<Rightarrow> string" where
  "profile_debug PublicProfile = ''Public''"
| "profile_debug SpotV1 = ''SpotV1''"
| "profile_debug SpotWsV2 = ''SpotWsV2''"
| "profile_debug L3WsV2 = ''L3WsV2''"
| "profile_debug FuturesV3 = ''FuturesV3''"

record auth_stack =
  au_api_key :: "string option"
  au_otp :: "string option"
  au_signers :: "(auth_profile, signer) hashmap"
  au_nonce :: u64

record signed_form =
  sf_body :: string
  sf_api_key_header :: string
  sf_api_sign_header :: string

abbreviation auth_internal :: "string \<Rightarrow> auth_error" where
  "auth_internal msg \<equiv> AuthUnknown ''INTERNAL'' msg"

definition signed_fields :: "string option \<Rightarrow> u64 \<Rightarrow> (string \<times> string) list \<Rightarrow> (string \<times> string) list" where
  "signed_fields otp nonce flds =
     (let all_fields = flds @ [(''nonce'', dec_string (unat nonce))]
      in if list_ex (\<lambda>(k, _). k = ''otp'') all_fields then all_fields
         else (case otp of Some p \<Rightarrow> all_fields @ [(''otp'', p)] | None \<Rightarrow> all_fields))"

text \<open>Whether signing gets as far as drawing a nonce, which reads the wall clock.\<close>

definition draws_nonce :: "auth_profile \<Rightarrow> auth_stack \<Rightarrow> bool" where
  "draws_nonce profile au \<longleftrightarrow> au_api_key au \<noteq> None \<and> hm_get (au_signers au) profile \<noteq> None"

definition sign_form :: "crypto \<Rightarrow> nat option \<Rightarrow> auth_profile \<Rightarrow> string \<Rightarrow> (string \<times> string) list \<Rightarrow> auth_stack \<Rightarrow>
    auth_stack \<times> (auth_error + signed_form)" where
  "sign_form cr wall profile path flds au =
     (case au_api_key au of
        None \<Rightarrow> (au, Inl (auth_internal ''sign attempted without configured credentials''))
      | Some _ \<Rightarrow>
          (case hm_get (au_signers au) profile of
             None \<Rightarrow> (au, Inl (auth_internal (''no signer registered for '' @ profile_debug profile)))
           | Some sg \<Rightarrow>
               (let (nonce, counter) = next_nonce wall (au_nonce au);
                    au' = au\<lparr>au_nonce := counter\<rparr>;
                    body = encode_form (signed_fields (au_otp au) nonce flds)
                in case sign cr sg nonce path body of
                     None \<Rightarrow> (au', Inl (auth_internal ''signing failed: Invalid HMAC key length.''))
                   | Some q \<Rightarrow>
                       (au', Inr \<lparr>sf_body = body, sf_api_key_header = q_api_key_header q,
                                  sf_api_sign_header = q_api_sign_header q\<rparr>))))"

section \<open>Nonces of concurrent callers\<close>

text \<open>
  The invariant: the counter is the latest nonce issued, which every later one exceeds unless
  the counter has saturated, and no thread has read a value above it.
\<close>

definition nonce_inv :: "nonce_state \<Rightarrow> bool" where
  "nonce_inv s \<longleftrightarrow>
     sorted_wrt (\<lambda>a b. a < b \<or> b = - 1) (ns_issued s) \<and>
     list_all (\<lambda>n. n \<le> ns_counter s) (ns_issued s) \<and>
     ns_counter s \<in> insert 0 (set (ns_issued s)) \<and>
     (\<forall>t c current. ns_threads s t = NonceLoaded c current \<longrightarrow> current \<le> ns_counter s)"

lemma bump_nonce_above: "current < bump_nonce current c \<or> bump_nonce current c = - 1"
proof -
  have "current < saturating_add current 1 \<or> saturating_add current 1 = - 1"
  proof (cases "unat current + 1 < 2 ^ 64")
    case True
    then show ?thesis by (simp add: word_less_nat_alt unat_saturating_add)
  next
    case False
    then show ?thesis by (simp add: saturating_add_def)
  qed
  moreover have "x = - 1" if "- 1 \<le> x" for x :: u64 using that by (simp add: word_order.extremum_unique)
  ultimately show ?thesis unfolding bump_nonce_def max_def by (auto dest: less_le_trans)
qed

lemma bump_nonce_ge: "current \<le> bump_nonce current c"
  using bump_nonce_above [of current c] by auto

lemma nonce_init_inv: "nonce_inv nonce_init"
  by (simp add: nonce_inv_def nonce_init_def)

lemma nonce_step_inv: "nonce_step s s' \<Longrightarrow> nonce_inv s \<Longrightarrow> nonce_inv s'"
proof (induction rule: nonce_step.induct)
  case (nonce_won s t c current)
  let ?n = "bump_nonce current c"
  have le: "x \<le> ?n" if "x \<le> ns_counter s" for x
    using that bump_nonce_ge [of current c] nonce_won(2) by (simp add: order_trans)
  have lt: "x < ?n \<or> ?n = - 1" if "x \<le> ns_counter s" for x
    using that bump_nonce_above [of current c] nonce_won(2) by auto
  show ?case
    using nonce_won le lt
    by (fastforce simp: nonce_inv_def sorted_wrt_append list_all_iff)
qed (auto simp: nonce_inv_def)

lemma nonce_run_inv: "nonce_step\<^sup>*\<^sup>* nonce_init s \<Longrightarrow> nonce_inv s"
  by (induction rule: rtranclp_induct) (auto intro: nonce_init_inv nonce_step_inv)

text \<open>
  Property C20. Nonces are unique and arrive in increasing order under any interleaving. However many threads
  allocate nonces, whatever the wall clock says and however often a compare-exchange fails, the nonces
  are issued in strictly increasing order until the counter saturates at the largest 64-bit
  number; and a thread loses its compare-exchange to a changed counter only when another call completed
  with a larger nonce since its load, so some caller always makes progress.
\<close>

theorem nonces_strictly_increase:
  assumes "nonce_step\<^sup>*\<^sup>* nonce_init s"
  shows "sorted_wrt (<) (filter (\<lambda>n. n \<noteq> - 1) (ns_issued s)) \<and>
    (ns_threads s t = NonceLoaded c current \<longrightarrow> ns_counter s \<noteq> current \<longrightarrow>
       (\<exists>n \<in> set (ns_issued s). current < n))"
proof -
  have inv: "nonce_inv s" using assms by (rule nonce_run_inv)
  have "sorted_wrt (<) (filter (\<lambda>n. n \<noteq> - 1) xs)" if "sorted_wrt (\<lambda>a b. a < b \<or> b = - 1) xs" for xs :: "u64 list"
    using that by (induction xs) auto
  then have sorted: "sorted_wrt (<) (filter (\<lambda>n. n \<noteq> - 1) (ns_issued s))"
    using inv by (simp add: nonce_inv_def)
  have "\<exists>n \<in> set (ns_issued s). current < n"
    if "ns_threads s t = NonceLoaded c current" "ns_counter s \<noteq> current"
  proof -
    have "current \<le> ns_counter s" using that(1) inv unfolding nonce_inv_def by blast
    then have "current < ns_counter s" using that(2) by simp
    then show ?thesis using inv by (auto simp: nonce_inv_def)
  qed
  with sorted show ?thesis by blast
qed

theorem nonces_strictly_increase_witness:
  "\<exists>s. nonce_step\<^sup>*\<^sup>* nonce_init s \<and> ns_threads s 0 = NonceLoaded 5 0 \<and> ns_counter s = 7 \<and>
     ns_issued s = [7] \<and> (\<exists>n \<in> set (ns_issued s). 0 < n)"
proof -
  define a where "a = nonce_init\<lparr>ns_threads := (\<lambda>_. NonceIdle)(0 := NonceCalled 5)\<rparr>"
  define b where "b = a\<lparr>ns_threads := (ns_threads a)(1 := NonceCalled 7)\<rparr>"
  define c where "c = b\<lparr>ns_threads := (ns_threads b)(0 := NonceLoaded 5 0)\<rparr>"
  define d where "d = c\<lparr>ns_threads := (ns_threads c)(1 := NonceLoaded 7 0)\<rparr>"
  define e where "e = d\<lparr>ns_counter := 7, ns_threads := (ns_threads d)(1 := NonceIdle), ns_issued := [7]\<rparr>"
  note defs = a_def b_def c_def d_def e_def nonce_init_def
  have call: "nonce_step nonce_init a" "nonce_step a b"
    using nonce_call [of nonce_init 0 "Some 5"] nonce_call [of a 1 "Some 7"] by (simp_all add: defs wall_candidate_def)
  have race: "nonce_step b c" "nonce_step c d" "nonce_step d e"
    using nonce_load [of b 0 5] nonce_load [of c 1 7] nonce_won [of d 1 7 0]
    by (simp_all add: defs bump_nonce_def saturating_add_def max_def)
  note step = converse_rtranclp_into_rtranclp [of nonce_step]
  have reach: "nonce_step\<^sup>*\<^sup>* nonce_init e"
    by (intro step [OF call(1)] step [OF call(2)] step [OF race(1)] step [OF race(2)] step [OF race(3)]
        rtranclp.rtrancl_refl)
  show ?thesis
    using reach nonces_strictly_increase [OF reach, of 0 5 0] by (intro exI [of _ e]) (simp add: defs)
qed

section \<open>The encoded form\<close>

definition hex_digit :: "char \<Rightarrow> nat option" where
  "hex_digit c = List.find (\<lambda>n. HEX_UPPER ! n = c) [0..<16]"

fun decode_text :: "string \<Rightarrow> string option" where
  "decode_text [] = Some []"
| "decode_text (c # s) =
     (if c = CHR ''%''
      then (case s of
              h # l # r \<Rightarrow>
                (case (hex_digit h, hex_digit l) of
                   (Some a, Some b) \<Rightarrow> map_option ((#) (char_of (16 * a + b))) (decode_text r)
                 | _ \<Rightarrow> None)
            | _ \<Rightarrow> None)
      else map_option ((#) c) (decode_text s))"

fun split_on :: "char \<Rightarrow> string \<Rightarrow> string list" where
  "split_on d [] = [[]]"
| "split_on d (c # s) =
     (if c = d then [] # split_on d s
      else (case split_on d s of w # ws \<Rightarrow> (c # w) # ws | [] \<Rightarrow> [[c]]))"

definition decode_field :: "string \<Rightarrow> (string \<times> string) option" where
  "decode_field f =
     (case split_once (CHR ''='') f of
        None \<Rightarrow> None
      | Some (k, v) \<Rightarrow>
          (case (decode_text k, decode_text v) of (Some k', Some v') \<Rightarrow> Some (k', v') | _ \<Rightarrow> None))"

definition decode_form :: "string \<Rightarrow> (string \<times> string) list option" where
  "decode_form body = (if body = [] then Some [] else those (map decode_field (split_on (CHR ''&'') body)))"

lemma encode_into_text: "encode_into out s = out @ concat (map escape_byte s)"
  by (induction s arbitrary: out) simp_all

definition field_text :: "string \<times> string \<Rightarrow> string" where
  "field_text = (\<lambda>(k, v). concat (map escape_byte k) @ ''='' @ concat (map escape_byte v))"

lemma encode_fields_tail:
  "i > 0 \<Longrightarrow> encode_fields i out flds = out @ concat (map (\<lambda>f. CHR ''&'' # field_text f) flds)"
  by (induction i out flds rule: encode_fields.induct) (simp_all add: encode_into_text field_text_def)

lemma encode_form_text:
  "encode_form [] = []"
  "encode_form (f # flds) = field_text f @ concat (map (\<lambda>f. CHR ''&'' # field_text f) flds)"
  by (simp_all add: encode_form_def encode_fields_tail encode_into_text field_text_def split: prod.split)

lemma length_escaped: "length (concat (map escape_byte s)) = encoded_len s"
  by (induction s) (simp_all add: encoded_len_def escape_byte_def)

lemma length_field_text: "length (field_text (k, v)) = Suc (encoded_len k + encoded_len v)"
  by (simp add: field_text_def length_escaped)

lemma hex_char_plain:
  assumes "n < 16"
  shows "hex_digit (HEX_UPPER ! n) = Some n \<and> is_ascii_alphanumeric (HEX_UPPER ! n)"
proof -
  have "\<forall>n \<in> set [0..<16]. hex_digit (HEX_UPPER ! n) = Some n \<and> is_ascii_alphanumeric (HEX_UPPER ! n)" by code_simp
  then show ?thesis using assms by simp
qed

lemma hex_nibbles:
  "hex_digit (HEX_UPPER ! (of_char b div 16)) = Some (of_char b div 16)"
  "hex_digit (HEX_UPPER ! (of_char b mod 16)) = Some (of_char b mod 16)"
  "is_ascii_alphanumeric (HEX_UPPER ! (of_char b div 16))"
  "is_ascii_alphanumeric (HEX_UPPER ! (of_char b mod 16))"
proof -
  have "of_char b div 16 < (16 :: nat)" using of_char_less_256 [of b] by (intro less_mult_imp_div_less) simp
  then show "hex_digit (HEX_UPPER ! (of_char b div 16)) = Some (of_char b div 16)"
    "is_ascii_alphanumeric (HEX_UPPER ! (of_char b div 16))" using hex_char_plain by blast+
  show "hex_digit (HEX_UPPER ! (of_char b mod 16)) = Some (of_char b mod 16)"
    "is_ascii_alphanumeric (HEX_UPPER ! (of_char b mod 16))" using hex_char_plain [of "of_char b mod 16"] by simp_all
qed

lemma escape_byte_chars: "c \<in> set (escape_byte b) \<Longrightarrow> is_unreserved c \<or> c = CHR ''%''"
  using hex_nibbles [of b] by (auto simp: escape_byte_def is_unreserved_def split: if_splits)

lemma separators_reserved: "\<not> is_unreserved (CHR ''&'') \<and> \<not> is_unreserved (CHR ''='') \<and> \<not> is_unreserved (CHR ''%'')"
  by code_simp

lemma escaped_plain: "CHR ''&'' \<notin> set (concat (map escape_byte s)) \<and> CHR ''='' \<notin> set (concat (map escape_byte s))"
  using escape_byte_chars separators_reserved by fastforce

lemma decode_escaped: "decode_text (concat (map escape_byte s)) = Some s"
proof (induction s)
  case (Cons b s)
  have "b \<noteq> CHR ''%''" if "is_unreserved b" using that separators_reserved by auto
  then show ?case using Cons hex_nibbles [of b] by (simp add: escape_byte_def)
qed simp

lemma decode_field_text: "decode_field (field_text f) = Some f"
proof (cases f)
  case (Pair k v)
  have "split_once (CHR ''='') (field_text f) = Some (concat (map escape_byte k), concat (map escape_byte v))"
    unfolding split_once_Some using Pair escaped_plain [of k] by (simp add: field_text_def)
  then show ?thesis using Pair by (simp add: decode_field_def decode_escaped)
qed

lemma field_text_plain: "CHR ''&'' \<notin> set (field_text f)"
  using escaped_plain [of "fst f"] escaped_plain [of "snd f"] by (cases f) (simp add: field_text_def)

lemma split_on_plain: "d \<notin> set s \<Longrightarrow> split_on d s = [s]"
  by (induction s) auto

lemma split_on_append: "d \<notin> set s \<Longrightarrow> split_on d (s @ d # t) = s # split_on d t"
  by (induction s) auto

lemma split_form:
  "split_on (CHR ''&'') (field_text f @ concat (map (\<lambda>f. CHR ''&'' # field_text f) flds)) = map field_text (f # flds)"
  by (induction flds arbitrary: f) (simp_all add: split_on_plain split_on_append field_text_plain)

lemma those_decoded: "those (map (decode_field \<circ> field_text) flds) = Some flds"
  by (induction flds) (simp_all add: decode_field_text)

lemma decode_encoded: "decode_form (encode_form flds) = Some flds"
proof (cases flds)
  case (Cons f fs)
  have "encode_form flds \<noteq> []" by (cases f) (simp add: Cons encode_form_text field_text_def)
  then show ?thesis
    using those_decoded [of "f # fs"] by (simp add: Cons encode_form_text decode_form_def split_form decode_field_text)
qed (simp add: decode_form_def encode_form_text)

text \<open>
  Property C38. The request body is an unambiguous encoding written into one allocation. For every list of
  fields, whatever bytes they contain, decoding the percent-encoded body gives back exactly those fields in
  order, so no field value can smuggle in another field; and the body never outgrows the
  capacity reserved for it, so no copy of a one-time password is left behind by a reallocation.
\<close>

theorem form_round_trip:
  "decode_form (encode_form flds) = Some flds \<and> length (encode_form flds) \<le> form_capacity flds"
proof
  show "decode_form (encode_form flds) = Some flds" by (rule decode_encoded)
  have "length (concat (map (\<lambda>f. CHR ''&'' # field_text f) fs)) = form_capacity fs" for fs
    by (induction fs) (auto simp: form_capacity_def length_field_text)
  then show "length (encode_form flds) \<le> form_capacity flds"
    by (cases flds) (auto simp: encode_form_text form_capacity_def length_field_text)
qed

section \<open>The signed request\<close>

lemma next_nonce_above: "next_nonce wall counter = (n, counter') \<Longrightarrow> counter' = n \<and> (counter < n \<or> n = - 1)"
  using bump_nonce_above by (auto simp: next_nonce_def Let_def)

text \<open>
  A signed form is exactly the request the caller made. When signing succeeds, the body decodes
  to the caller's fields followed by the fresh nonce in decimal and, unless the caller supplied one, the
  configured one-time password; the signature is the keyed hash over the path and the digest of
  that nonce and that body; and the nonce is larger than every earlier one, or the largest 64-bit number.
\<close>

lemma signed_form_covers_request:
  assumes "sign_form cr wall profile path flds au = (au', Inr sf)"
  shows "let n = au_nonce au' in
    decode_form (sf_body sf) = Some (flds @ [(''nonce'', dec_string (unat n))] @
      (if list_ex (\<lambda>(k, _). k = ''otp'') flds then [] else map (Pair ''otp'') (case au_otp au of None \<Rightarrow> [] | Some p \<Rightarrow> [p]))) \<and>
    parse_u64 (dec_string (unat n)) = Some (unat n) \<and>
    (\<exists>sg tag. hm_get (au_signers au) profile = Some sg \<and> sf_api_key_header sf = s_api_key sg \<and>
      hmac_sha512 cr (s_secret sg) (path @ sha256 cr (dec_string (unat n) @ sf_body sf)) = Some tag \<and>
      sf_api_sign_header sf = base64 cr tag) \<and>
    (au_nonce au < n \<or> n = - 1)"
proof -
  obtain sg where sg: "hm_get (au_signers au) profile = Some sg"
    using assms by (auto simp: sign_form_def split: option.splits)
  obtain n c where n: "next_nonce wall (au_nonce au) = (n, c)" by fastforce
  let ?body = "encode_form (signed_fields (au_otp au) n flds)"
  obtain q where q: "sign cr sg n path ?body = Some q" and au': "au' = au\<lparr>au_nonce := c\<rparr>"
    and sf: "sf_body sf = ?body" "sf_api_key_header sf = q_api_key_header q" "sf_api_sign_header sf = q_api_sign_header q"
    using assms sg n by (auto simp: sign_form_def Let_def split: option.splits)
  have "unat n < 2 ^ 64" using unsigned_less [of n] by simp
  then have "parse_u64 (dec_string (unat n)) = Some (unat n)" by (rule parse_dec_string)
  then show ?thesis
    using sg q sf au' next_nonce_above [OF n]
    by (auto simp: decode_encoded signed_fields_def sign_def compute_api_sign_def Let_def split: option.splits)
qed

end
