(* ===== verification/Rest_Retry.thy ===== *)
theory Rest_Retry
  imports Request_Signing Rate_Limit
begin

text \<open>
  The retry engine of the REST surface, \<open>src/rust/src/rest/retry.rs\<close>, with the errors it classifies
  (\<open>RestError\<close> of \<open>surface.rs\<close>) and the readers of Kraken's error texts of \<open>error.rs\<close>. The jitter source is
  the SplitMix64 generator of theory Knobs; its state is a field of the engine.
\<close>

section \<open>Errors\<close>

text \<open>The texts of \<open>UnexpectedShape\<close>, kept as the values they format.\<close>

datatype shape_text = NoStringElements "json list" | MissingResult

datatype rest_error =
    RestTransport transport_error_kind bool
  | RestAuth auth_error
  | RestKraken "string list"
  | UnexpectedShape shape_text
  | RestRateLimit rate_limit_exceeded

definition kraken_eclass_code :: "string \<Rightarrow> string" where
  "kraken_eclass_code msg = (case split_once (CHR '':'') msg of None \<Rightarrow> msg | Some (eclass, _) \<Rightarrow> eclass)"

definition parse_throttle_code :: "string \<Rightarrow> nat option" where
  "parse_throttle_code code =
     (case strip_prefix ''EService:Throttled:'' code of None \<Rightarrow> None | Some digits \<Rightarrow> parse_u64 (trim digits))"

definition is_kraken_rate_limit :: "string \<Rightarrow> bool" where
  "is_kraken_rate_limit msg \<longleftrightarrow>
     str_contains ''Rate limit'' msg \<or> str_contains ''Throttled'' msg \<or> str_contains ''Too many requests'' msg"

section \<open>Policies\<close>

datatype retry_reason =
    TransportError | HttpServerError | RateLimitBreached | ServiceThrottled | ServiceUnavailable | RetryInvalidNonce

datatype backoff_class = Exponential | NoBackoff

record retry_policy =
  rp_max_attempts :: "u32 option"
  rp_transient :: bool
  rp_backoff_class :: backoff_class
  rp_nonce_heal :: bool

definition idempotent :: retry_policy where
  "idempotent = \<lparr>rp_max_attempts = None, rp_transient = True, rp_backoff_class = Exponential, rp_nonce_heal = True\<rparr>"

definition never_retry :: retry_policy where
  "never_retry = \<lparr>rp_max_attempts = Some 1, rp_transient = False, rp_backoff_class = NoBackoff, rp_nonce_heal = False\<rparr>"

definition never_retry_except_nonce :: retry_policy where
  "never_retry_except_nonce =
     \<lparr>rp_max_attempts = Some 1, rp_transient = False, rp_backoff_class = NoBackoff, rp_nonce_heal = True\<rparr>"

datatype retry_decision = Retry retry_reason | NonTransient | AmbiguousOrderPlacement

section \<open>Classification\<close>

definition classify_kraken :: "string option \<Rightarrow> retry_decision" where
  "classify_kraken first =
     (case first of
        None \<Rightarrow> NonTransient
      | Some code \<Rightarrow>
          if starts_with ''EAPI:Rate limit exceeded'' code \<or> starts_with ''EAuth:Rate limit exceeded'' code
          then Retry RateLimitBreached
          else if starts_with ''EOrder:Rate limit exceeded'' code \<or>
            starts_with ''EOrder:Domain rate limit exceeded'' code
          then Retry RateLimitBreached
          else if starts_with ''EGeneral:Too many requests'' code then Retry RateLimitBreached
          else if starts_with ''EService:Throttled'' code then Retry ServiceThrottled
          else if starts_with ''EService:Unavailable'' code \<or> starts_with ''EService:Busy'' code
          then Retry ServiceUnavailable
          else if starts_with ''EAPI:Invalid nonce'' code then Retry RetryInvalidNonce
          else NonTransient)"

fun is_http_status_kind :: "transport_error_kind \<Rightarrow> bool" where
  "is_http_status_kind (HttpStatus _) = True"
| "is_http_status_kind _ = False"

abbreviation first_code :: "string list \<Rightarrow> string option" where
  "first_code codes \<equiv> (case codes of [] \<Rightarrow> None | c # _ \<Rightarrow> Some c)"

definition classify :: "rest_error \<Rightarrow> retry_policy \<Rightarrow> retry_decision" where
  "classify err policy =
     (if \<not> rp_transient policy
      then (case err of
              RestKraken codes \<Rightarrow>
                if rp_nonce_heal policy \<and> classify_kraken (first_code codes) = Retry RetryInvalidNonce
                then Retry RetryInvalidNonce else NonTransient
            | _ \<Rightarrow> NonTransient)
      else (case err of
              RestTransport kind transient \<Rightarrow>
                if \<not> transient then NonTransient
                else if is_http_status_kind kind then Retry HttpServerError else Retry TransportError
            | RestKraken codes \<Rightarrow> classify_kraken (first_code codes)
            | RestRateLimit _ \<Rightarrow> NonTransient
            | RestAuth _ \<Rightarrow> NonTransient
            | UnexpectedShape _ \<Rightarrow> NonTransient))"

section \<open>Backoff\<close>

record retry_engine =
  re_backoff_base_ms :: u32
  re_backoff_max_ms :: u32
  re_backoff_factor :: f64
  re_max_attempts :: u32
  re_jitter :: u64
  re_nonce_recovery :: bool

definition from_knobs :: "knobs \<Rightarrow> u64 \<Rightarrow> retry_engine" where
  "from_knobs k seed =
     \<lparr>re_backoff_base_ms = k_rest_retry_base_ms k, re_backoff_max_ms = k_rest_retry_max_ms k,
      re_backoff_factor = k_rest_retry_factor k, re_max_attempts = k_rest_retry_max_attempts k,
      re_jitter = seed, re_nonce_recovery = k_nonce_recovery k\<rparr>"

definition rest_delay_ms :: "retry_engine \<Rightarrow> u32 \<Rightarrow> f64 \<Rightarrow> f64" where
  "rest_delay_ms e attempt unit =
     (let base_ms = f_of_u32 (re_backoff_base_ms e);
          max_ms = f_of_u32 (re_backoff_max_ms e);
          factor = (if is_finite (re_backoff_factor e) then f_max (re_backoff_factor e) (Fin 1) else Fin 2);
          n = (if unat attempt < 2 ^ 31 then unat attempt else 2 ^ 31 - 1);
          scaled = f_mul base_ms (f_powi factor n);
          computed = (if is_finite scaled then f_min scaled max_ms else max_ms)
      in f_mul computed unit)"

definition rest_next_backoff :: "u32 \<Rightarrow> retry_engine \<Rightarrow> retry_engine \<times> duration" where
  "rest_next_backoff attempt e =
     (let (unit, j) = next_unit (re_jitter e)
      in (e\<lparr>re_jitter := j\<rparr>, millis (f_as_u64 (rest_delay_ms e attempt unit))))"

definition backoff_ceiling :: "retry_engine \<Rightarrow> duration" where
  "backoff_ceiling e = millis (unat (re_backoff_max_ms e))"

section \<open>Lemmas\<close>

lemma scaled_unit_range:
  assumes "0 \<le> c" and "c \<le> of_nat m" and "m < 2 ^ 53" and "0 \<le> u" and "u \<le> 1"
  shows "\<exists>d. f_mul (Fin c) (Fin u) = Fin d \<and> 0 \<le> d \<and> d \<le> of_nat m"
proof -
  have "0 \<le> c * u" "c * u \<le> of_int (int m)"
    using assms mult_left_le [of u c] by simp_all
  then show ?thesis
    using f64_of_range [of 0 "c * u" "int m"] assms(3) by (simp add: f_mul_def)
qed

lemma rest_backoff_bound: "rest_next_backoff attempt e = (e', d) \<Longrightarrow> d \<le> backoff_ceiling e"
proof -
  assume b: "rest_next_backoff attempt e = (e', d)"
  obtain u where u: "fst (next_unit (re_jitter e)) = Fin u" "0 \<le> u" "u < 1" using next_unit_range by blast
  define n where "n = (if unat attempt < 2 ^ 31 then unat attempt else 2 ^ 31 - 1)"
  define scaled where "scaled = f_mul (f_of_u32 (re_backoff_base_ms e))
    (f_powi (if is_finite (re_backoff_factor e) then f_max (re_backoff_factor e) (Fin 1) else Fin 2) n)"
  obtain c where c: "0 \<le> c" "c \<le> of_nat (unat (re_backoff_max_ms e))"
    "(if is_finite scaled then f_min scaled (f_of_u32 (re_backoff_max_ms e)) else f_of_u32 (re_backoff_max_ms e)) = Fin c"
    using capped_range [OF scaled_backoff_nonneg] unfolding scaled_def by blast
  have "unat (re_backoff_max_ms e) < 2 ^ 53"
    using unsigned_less [of "re_backoff_max_ms e", where 'a = nat] by simp
  from scaled_unit_range [OF c(1,2) this u(2)] u(3) obtain r where
    r: "f_mul (Fin c) (Fin u) = Fin r" "0 \<le> r" "r \<le> of_nat (unat (re_backoff_max_ms e))" by (auto simp: less_imp_le)
  have "rest_delay_ms e attempt (Fin u) = Fin r"
    using c(3) r(1) unfolding rest_delay_ms_def Let_def scaled_def n_def by simp
  moreover have "nat \<lfloor>r\<rfloor> \<le> unat (re_backoff_max_ms e)" using r(2,3) by (simp add: nat_le_iff floor_le_iff)
  ultimately show ?thesis
    using b u(1) by (auto simp: rest_next_backoff_def backoff_ceiling_def f_as_u64_def min.coboundedI1 split: prod.splits)
qed

lemma rest_backoff_engine: "rest_next_backoff attempt e = (e', d) \<Longrightarrow> backoff_ceiling e' = backoff_ceiling e"
  by (auto simp: rest_next_backoff_def backoff_ceiling_def split: prod.splits)

lemma classify_never_retry: "classify err never_retry = NonTransient"
  by (cases err) (simp_all add: classify_def never_retry_def)

lemma classify_never_retry_except_nonce:
  "classify err never_retry_except_nonce \<in> {NonTransient, Retry RetryInvalidNonce}"
  by (cases err) (simp_all add: classify_def never_retry_except_nonce_def)

lemma classify_local_rejection: "classify (RestRateLimit x) policy = NonTransient"
  by (simp add: classify_def)

end
