(* ===== verification/Rest_Surface.thy ===== *)
theory Rest_Surface
  imports Rest_Retry
begin

text \<open>
  The REST pipeline of \<open>src/rust/src/rest/surface.rs\<close>: rate limit, sign, send, parse, classify, retry, and
  the reconciliation walk built on it.
  \<^item> What the network answers is a function from the number of requests made so far: for a signed
    post the parsed response, a transport error, or nothing within the backstop (\<open>None\<close>).
  \<^item> The injected clock, the wall clock and the request ids minted from \<open>uuid\<close> are functions of the number of readings
    taken; the trackers read the same clock through their own counters.
  \<^item> What the pipeline does to the outside (requests sent, sleeps, events published) is appended to
    \<open>rs_trace\<close>. The gate that serialises sign and send has no effect on one caller at a time.
  \<^item> A response object is a \<open>BTreeMap\<close>: its first entry is the one with the least key.
\<close>

section \<open>Costs, outcomes and effects\<close>

datatype rate_limit_cost =
    CostApi f64
  | CostTrading f64 symbol
  | CostTradingAccountWide f64
  | CostNone

datatype order_status = OrderPending | OrderOpen | OrderClosed | OrderCanceled | OrderExpired | OrderUnknown

datatype lifecycle_position = LifecycleOpen | LifecycleClosed

datatype reconciliation_outcome = Found string order_status lifecycle_position | NotPlaced | ReconcileUnknown

datatype order_op =
    OpAddOrder | OpAmendOrder | OpCancelOrder | OpCancelAll | OpCancelAllOrdersAfter | OpOrderBatch

datatype order_submit_status = WireSent string | WireAccepted | WireError string

datatype rest_payload =
    RestRetryAttempt string "string option" u32 u64 retry_reason
  | NoncePoisonedEvent string string
  | OrderReconciliationEvent string reconciliation_outcome
  | OrderSubmittedEvent string "string option" order_op order_submit_status "string option"
  | OrderPlacementAmbiguousEvent string "string option" order_op instant "string option"

datatype rest_effect =
    GetSent string "(string \<times> string) list"
  | PostSent string string string string duration
  | Slept duration
  | RestEvent instant rest_payload

record rest_surface =
  rs_clock :: "nat \<Rightarrow> instant"
  rs_reads :: nat
  rs_wall :: "nat \<Rightarrow> nat option"
  rs_wall_reads :: nat
  rs_mint :: "nat \<Rightarrow> string"
  rs_minted :: nat
  rs_get :: "nat \<Rightarrow> (transport_error_kind \<times> bool) + json"
  rs_post :: "nat \<Rightarrow> ((transport_error_kind \<times> bool) + json) option"
  rs_sent :: nat
  rs_auth :: auth_stack
  rs_api :: api_tracker
  rs_trading :: trading_tracker
  rs_knobs :: knobs
  rs_engine :: retry_engine
  rs_request_timeout :: duration
  rs_bus :: bool
  rs_trace :: "rest_effect list"

type_synonym rest_result = "rest_surface \<times> (rest_error + json)"

text \<open>The code outside the repository: the cryptographic primitives and the fingerprint of an API key.\<close>

record rest_env =
  env_crypto :: crypto
  env_fingerprint :: "string \<Rightarrow> string"

definition rs_now :: "rest_surface \<Rightarrow> instant" where
  "rs_now rs = rs_clock rs (rs_reads rs)"

definition rs_tick :: "rest_surface \<Rightarrow> rest_surface" where
  "rs_tick rs = rs\<lparr>rs_reads := Suc (rs_reads rs)\<rparr>"

definition rs_log :: "rest_effect \<Rightarrow> rest_surface \<Rightarrow> rest_surface" where
  "rs_log e rs = rs\<lparr>rs_trace := rs_trace rs @ [e]\<rparr>"

section \<open>Reading responses\<close>

fun as_str :: "json \<Rightarrow> string option" where
  "as_str (JStr s) = Some s"
| "as_str _ = None"

fun as_array :: "json \<Rightarrow> json list option" where
  "as_array (JArr xs) = Some xs"
| "as_array _ = None"

fun as_object :: "json \<Rightarrow> (string \<times> json) list option" where
  "as_object (JObj kvs) = Some kvs"
| "as_object _ = None"

definition parse_kraken_envelope :: "json \<Rightarrow> rest_error + json" where
  "parse_kraken_envelope j =
     (let result = (case json_get j ''result'' of Some v \<Rightarrow> Inr v | None \<Rightarrow> Inl (UnexpectedShape MissingResult))
      in case Option.bind (json_get j ''error'') as_array of
           None \<Rightarrow> result
         | Some errors \<Rightarrow>
             if errors = [] then result
             else (let strs = List.map_filter as_str errors
                   in if strs = [] then Inl (UnexpectedShape (NoStringElements errors))
                      else Inl (RestKraken strs)))"

definition parse_order_status :: "string \<Rightarrow> order_status" where
  "parse_order_status s =
     (if s = ''pending'' then OrderPending else if s = ''open'' then OrderOpen
      else if s = ''closed'' then OrderClosed else if s = ''canceled'' then OrderCanceled
      else if s = ''expired'' then OrderExpired else OrderUnknown)"

definition first_order_in_map :: "json \<Rightarrow> string \<Rightarrow> (string \<times> order_status) option" where
  "first_order_in_map result wrapper =
     (case Option.bind (json_get result wrapper) as_object of
        None \<Rightarrow> None
      | Some m \<Rightarrow>
          (case sort_key fst m of
             [] \<Rightarrow> None
           | (txid, row) # _ \<Rightarrow>
               if txid = [] then None
               else Some (txid, case Option.bind (json_get row ''status'') as_str of
                                  Some s \<Rightarrow> parse_order_status s
                                | None \<Rightarrow> OrderUnknown)))"

definition parse_throttle_until :: "string list \<Rightarrow> nat option" where
  "parse_throttle_until codes = Option.bind (List.find (\<lambda>c. parse_throttle_code c \<noteq> None) codes) parse_throttle_code"

definition wall_seconds_until :: "nat option \<Rightarrow> nat \<Rightarrow> duration" where
  "wall_seconds_until wall ts = (case wall of Some nanos \<Rightarrow> secs (ts - nanos div 1000000000) | None \<Rightarrow> 0)"

section \<open>Events\<close>

definition publish_event :: "rest_payload \<Rightarrow> rest_surface \<Rightarrow> rest_surface" where
  "publish_event p rs = (if rs_bus rs then rs_log (RestEvent (rs_now rs) p) (rs_tick rs) else rs)"

definition emit_rest_retry_attempt :: "string \<Rightarrow> string \<Rightarrow> u32 \<Rightarrow> duration \<Rightarrow> retry_reason \<Rightarrow> rest_surface \<Rightarrow> rest_surface" where
  "emit_rest_retry_attempt endpoint request_id attempt backoff reason =
     publish_event (RestRetryAttempt endpoint (Some request_id) attempt (word_of_nat (backoff div 1000000)) reason)"

definition emit_nonce_poisoned :: "rest_env \<Rightarrow> string \<Rightarrow> rest_surface \<Rightarrow> rest_surface" where
  "emit_nonce_poisoned env endpoint rs =
     (case au_api_key (rs_auth rs) of
        None \<Rightarrow> rs
      | Some key \<Rightarrow> publish_event (NoncePoisonedEvent (env_fingerprint env key) endpoint) rs)"

definition emit_reconciliation :: "string \<Rightarrow> reconciliation_outcome \<Rightarrow> rest_surface \<Rightarrow> rest_surface" where
  "emit_reconciliation cl_ord_id outcome = publish_event (OrderReconciliationEvent cl_ord_id outcome)"

definition emit_order_submitted :: "string \<Rightarrow> string option \<Rightarrow> order_op \<Rightarrow> order_submit_status \<Rightarrow> string option \<Rightarrow>
    rest_surface \<Rightarrow> rest_surface" where
  "emit_order_submitted cl_ord_id amend_id op status request_id =
     publish_event (OrderSubmittedEvent cl_ord_id amend_id op status request_id)"

definition emit_placement_ambiguous :: "string \<Rightarrow> string option \<Rightarrow> order_op \<Rightarrow> instant \<Rightarrow> string option \<Rightarrow>
    rest_surface \<Rightarrow> rest_surface" where
  "emit_placement_ambiguous cl_ord_id amend_id op sent_at request_id =
     publish_event (OrderPlacementAmbiguousEvent cl_ord_id amend_id op sent_at request_id)"

section \<open>One attempt\<close>

definition GATE_BACKSTOP_GRACE :: duration where
  "GATE_BACKSTOP_GRACE = secs 1"

definition public_get_once :: "string \<Rightarrow> (string \<times> string) list \<Rightarrow> rest_surface \<Rightarrow> rest_result" where
  "public_get_once path query rs =
     (let rs1 = rs_log (GetSent path query) (rs\<lparr>rs_sent := Suc (rs_sent rs)\<rparr>)
      in case rs_get rs (rs_sent rs) of
           Inl (kind, transient) \<Rightarrow> (rs1, Inl (RestTransport kind transient))
         | Inr response \<Rightarrow> (rs1, parse_kraken_envelope response))"

text \<open>Stage 1: the trackers are consulted before a nonce is drawn.\<close>

definition apply_rate_limit :: "rest_env \<Rightarrow> rate_limit_cost \<Rightarrow> rest_surface \<Rightarrow> rest_surface \<times> (rate_limit_exceeded + unit)" where
  "apply_rate_limit env cost rs =
     (case au_api_key (rs_auth rs) of
        None \<Rightarrow> (rs, Inr ())
      | Some key \<Rightarrow>
          (let now = rs_now rs; rs1 = rs_tick rs
           in case cost of
                CostApi c \<Rightarrow>
                  (let (a, r) = api_consume (env_fingerprint env) (rs_knobs rs) (ScopeApiKey key) c now (rs_api rs)
                   in (rs1\<lparr>rs_api := a\<rparr>, r))
              | CostTrading c pair \<Rightarrow>
                  (let (t, r) = trading_consume (env_fingerprint env) (rs_knobs rs) (ScopePair key pair) c now (rs_trading rs)
                   in (rs1\<lparr>rs_trading := t\<rparr>, r))
              | CostTradingAccountWide c \<Rightarrow>
                  (rs1\<lparr>rs_trading := charge_account_wide (ScopeApiKey key) c now (rs_trading rs)\<rparr>, Inr ())
              | CostNone \<Rightarrow> (rs1, Inr ())))"

text \<open>Stages 2 and 3: sign, then send within the backstop.\<close>

definition sign_and_send :: "rest_env \<Rightarrow> string \<Rightarrow> (string \<times> string) list \<Rightarrow> auth_profile \<Rightarrow> rest_surface \<Rightarrow> rest_result" where
  "sign_and_send env path form profile rs =
     (let (au, signed) = sign_form (env_crypto env) (rs_wall rs (rs_wall_reads rs)) profile path form (rs_auth rs);
          drawn = (if draws_nonce profile (rs_auth rs) then 1 else 0);
          rs1 = rs\<lparr>rs_auth := au, rs_wall_reads := rs_wall_reads rs + drawn\<rparr>
      in case signed of
           Inl e \<Rightarrow> (rs1, Inl (RestAuth e))
         | Inr sf \<Rightarrow>
             (let rs2 = rs_log (PostSent path (sf_body sf) (sf_api_key_header sf) (sf_api_sign_header sf)
                                  (rs_request_timeout rs + GATE_BACKSTOP_GRACE))
                          (rs1\<lparr>rs_sent := Suc (rs_sent rs1)\<rparr>)
              in case rs_post rs (rs_sent rs) of
                   None \<Rightarrow> (rs2, Inl (RestTransport RequestSentNoResponse True))
                 | Some (Inl (kind, transient)) \<Rightarrow> (rs2, Inl (RestTransport kind transient))
                 | Some (Inr response) \<Rightarrow> (rs2, parse_kraken_envelope response)))"

text \<open>Stage 5b: the first rate-limit code of an error response snaps the API counter to its cap.\<close>

definition snap_api_counter :: "rest_env \<Rightarrow> rest_error + json \<Rightarrow> rest_surface \<Rightarrow> rest_surface" where
  "snap_api_counter env result rs =
     (case (result, au_api_key (rs_auth rs)) of
        (Inl (RestKraken codes), Some key) \<Rightarrow>
          (let now = rs_now rs; rs1 = rs_tick rs
           in case List.find (\<lambda>code. classify_rate_limit_snap code = Some SnapApi) codes of
                None \<Rightarrow> rs1
              | Some code \<Rightarrow>
                  rs1\<lparr>rs_api := api_snap_to_cap (env_fingerprint env) (ScopeApiKey key) code now (rs_api rs1)\<rparr>)
      | _ \<Rightarrow> rs)"

definition signed_post_costed_once :: "rest_env \<Rightarrow> string \<Rightarrow> (string \<times> string) list \<Rightarrow> auth_profile \<Rightarrow> rate_limit_cost \<Rightarrow>
    rest_surface \<Rightarrow> rest_result" where
  "signed_post_costed_once env path form profile cost rs =
     (case apply_rate_limit env cost rs of
        (rs1, Inl e) \<Rightarrow> (rs1, Inl (RestRateLimit e))
      | (rs1, Inr _) \<Rightarrow>
          (let (rs2, result) = sign_and_send env path form profile rs1
           in (snap_api_counter env result rs2, result)))"

section \<open>The retry loop\<close>

definition compute_retry_backoff :: "u32 \<Rightarrow> retry_reason \<Rightarrow> rest_error \<Rightarrow> rate_limit_cost \<Rightarrow> rest_surface \<Rightarrow>
    rest_surface \<times> duration" where
  "compute_retry_backoff attempt reason err cost rs =
     (let (e, base) = rest_next_backoff (attempt - 1) (rs_engine rs); rs1 = rs\<lparr>rs_engine := e\<rparr>
      in case reason of
           RateLimitBreached \<Rightarrow>
             (case (cost, au_api_key (rs_auth rs1)) of
                (CostApi units, Some key) \<Rightarrow>
                  (rs_tick rs1,
                   case time_until_headroom (ScopeApiKey key) units (rs_now rs1) (rs_api rs1) of
                     Some t2h \<Rightarrow> max base t2h
                   | None \<Rightarrow> base)
              | _ \<Rightarrow> (rs1, base))
         | ServiceThrottled \<Rightarrow>
             (case err of
                RestKraken codes \<Rightarrow>
                  (case parse_throttle_until codes of
                     Some ts \<Rightarrow>
                       (rs1\<lparr>rs_wall_reads := Suc (rs_wall_reads rs1)\<rparr>,
                        max base (min (wall_seconds_until (rs_wall rs1 (rs_wall_reads rs1)) ts) (backoff_ceiling e)))
                   | None \<Rightarrow> (rs1, base))
              | _ \<Rightarrow> (rs1, base))
         | _ \<Rightarrow> (rs1, base))"

definition wait_and_report :: "string \<Rightarrow> rate_limit_cost \<Rightarrow> string \<Rightarrow> u32 \<Rightarrow> retry_reason \<Rightarrow> rest_error \<Rightarrow> rest_surface \<Rightarrow>
    rest_surface" where
  "wait_and_report endpoint cost request_id attempt reason err rs =
     (let (rs1, backoff) = compute_retry_backoff attempt reason err cost rs
      in emit_rest_retry_attempt endpoint request_id (attempt + 1) backoff reason (rs_log (Slept backoff) rs1))"

text \<open>
  The loop ends: the one re-sign spends the only nonce retry, and every other round counts
  the attempt up towards the budget, also when the counter wraps on that re-sign.
\<close>

definition attempts_left :: "u32 \<Rightarrow> nat" where
  "attempts_left attempt = (if attempt = - 1 then 2 ^ 32 else 2 ^ 32 - 1 - unat attempt)"

lemma attempts_left_counts:
  fixes attempt max_attempts :: u32
  assumes "attempt + 1 < max_attempts"
  shows "attempts_left (attempt + 1) < attempts_left attempt"
proof (cases "attempt = - 1")
  case True
  then show ?thesis by (simp add: attempts_left_def)
next
  case False
  then have "unat (attempt + 1) = Suc (unat attempt)"
    by (metis Suc_eq_plus1 add.commute eq_neg_iff_add_eq_0 unatSuc)
  moreover have "unat (attempt + 1) < unat max_attempts" using assms by (simp add: word_less_nat_alt)
  moreover have "unat max_attempts < 2 ^ 32" using unsigned_less [of max_attempts, where 'a = nat] by simp
  moreover have "attempt + 1 \<noteq> - 1" using assms by (metis word_order.extremum_strict)
  ultimately show ?thesis using False by (simp add: attempts_left_def)
qed

function retry_loop :: "rest_env \<Rightarrow> string \<Rightarrow> rate_limit_cost \<Rightarrow> retry_policy \<Rightarrow> string \<Rightarrow> (rest_surface \<Rightarrow> rest_result) \<Rightarrow>
    u32 \<Rightarrow> u32 \<Rightarrow> u32 \<Rightarrow> rest_surface \<Rightarrow> rest_result" where
  "retry_loop env endpoint cost policy request_id run_once max_attempts attempt nonce_retries rs =
     (let attempt' = attempt + 1 in
      case run_once rs of
        (rs1, Inr v) \<Rightarrow> (rs1, Inr v)
      | (rs1, Inl err) \<Rightarrow>
          (case classify err policy of
             Retry reason \<Rightarrow>
               if reason = RetryInvalidNonce
               then (if nonce_retries \<ge> 1
                     then (if re_nonce_recovery (rs_engine rs1) then emit_nonce_poisoned env endpoint rs1 else rs1,
                           Inl err)
                     else retry_loop env endpoint cost policy request_id run_once max_attempts attempt'
                            (nonce_retries + 1) (wait_and_report endpoint cost request_id attempt' reason err rs1))
               else if attempt' \<ge> max_attempts then (rs1, Inl err)
               else retry_loop env endpoint cost policy request_id run_once max_attempts attempt' nonce_retries
                      (wait_and_report endpoint cost request_id attempt' reason err rs1)
           | _ \<Rightarrow> (rs1, Inl err)))"
  by pat_completeness auto

termination
proof (relation "measures [\<lambda>(_, _, _, _, _, _, _, _, n, _). if n \<ge> 1 then 0 else 1,
    \<lambda>(_, _, _, _, _, _, _, a, _, _). attempts_left a]")
qed (auto simp: attempts_left_counts not_le)

declare retry_loop.simps [simp del]

definition run_retry_loop :: "rest_env \<Rightarrow> string \<Rightarrow> rate_limit_cost \<Rightarrow> retry_policy \<Rightarrow> string \<Rightarrow> (rest_surface \<Rightarrow> rest_result) \<Rightarrow>
    rest_surface \<Rightarrow> rest_result" where
  "run_retry_loop env endpoint cost policy request_id run_once rs =
     (let max_attempts = max (case rp_max_attempts policy of Some n \<Rightarrow> n | None \<Rightarrow> re_max_attempts (rs_engine rs)) 1
      in retry_loop env endpoint cost policy request_id run_once max_attempts 0 0 rs)"

section \<open>The entry points\<close>

definition public_get :: "rest_env \<Rightarrow> string \<Rightarrow> (string \<times> string) list \<Rightarrow> retry_policy \<Rightarrow> string \<Rightarrow> rest_surface \<Rightarrow> rest_result" where
  "public_get env path query retry request_id =
     run_retry_loop env path CostNone retry request_id (public_get_once path query)"

definition signed_post_costed :: "rest_env \<Rightarrow> string \<Rightarrow> (string \<times> string) list \<Rightarrow> auth_profile \<Rightarrow> rate_limit_cost \<Rightarrow>
    retry_policy \<Rightarrow> string \<Rightarrow> rest_surface \<Rightarrow> rest_result" where
  "signed_post_costed env path form profile cost retry request_id =
     run_retry_loop env path cost retry request_id (signed_post_costed_once env path form profile cost)"

definition signed_post :: "rest_env \<Rightarrow> string \<Rightarrow> (string \<times> string) list \<Rightarrow> auth_profile \<Rightarrow> string \<Rightarrow> rest_surface \<Rightarrow> rest_result" where
  "signed_post env path form profile request_id =
     signed_post_costed env path form profile (CostApi (Fin 1)) idempotent request_id"

section \<open>Finding an order by its client id\<close>

definition mint_request_id :: "rest_surface \<Rightarrow> rest_surface \<times> string" where
  "mint_request_id rs = (rs\<lparr>rs_minted := Suc (rs_minted rs)\<rparr>, rs_mint rs (rs_minted rs))"

definition query_orders :: "rest_env \<Rightarrow> string \<Rightarrow> string \<Rightarrow> rest_surface \<Rightarrow>
    rest_surface \<times> ((string \<times> rest_error) + json)" where
  "query_orders env path cl_ord_id rs =
     (let (rs1, request_id) = mint_request_id rs;
          (rs2, r) = signed_post_costed env path [(''cl_ord_id'', cl_ord_id)] SpotV1 (CostApi (Fin 2)) idempotent request_id rs1
      in (rs2, case r of Inl e \<Rightarrow> Inl (request_id, e) | Inr v \<Rightarrow> Inr v))"

definition walk_reconciliation :: "rest_env \<Rightarrow> string \<Rightarrow> rest_surface \<Rightarrow>
    rest_surface \<times> ((string \<times> rest_error) + reconciliation_outcome)" where
  "walk_reconciliation env cl_ord_id rs =
     (case query_orders env ''/0/private/OpenOrders'' cl_ord_id rs of
        (rs1, Inl e) \<Rightarrow> (rs1, Inl e)
      | (rs1, Inr opened) \<Rightarrow>
          (case first_order_in_map opened ''open'' of
             Some (txid, status) \<Rightarrow> (rs1, Inr (Found txid status LifecycleOpen))
           | None \<Rightarrow>
               (case query_orders env ''/0/private/ClosedOrders'' cl_ord_id rs1 of
                  (rs2, Inl e) \<Rightarrow> (rs2, Inl e)
                | (rs2, Inr found) \<Rightarrow>
                    (case first_order_in_map found ''closed'' of
                       Some (txid, status) \<Rightarrow> (rs2, Inr (Found txid status LifecycleClosed))
                     | None \<Rightarrow> (rs2, Inr NotPlaced)))))"

definition find_order_by_cl_ord_id :: "rest_env \<Rightarrow> string \<Rightarrow> rest_surface \<Rightarrow>
    rest_surface \<times> ((string \<times> rest_error) + reconciliation_outcome)" where
  "find_order_by_cl_ord_id env cl_ord_id rs =
     (case walk_reconciliation env cl_ord_id rs of
        (rs1, Inl e) \<Rightarrow> (rs1, Inl e)
      | (rs1, Inr outcome) \<Rightarrow> (emit_reconciliation cl_ord_id outcome rs1, Inr outcome))"

end
