(* ===== verification/Rest_Properties.thy ===== *)
theory Rest_Properties
  imports Rest_Surface
begin

text \<open>
  What the REST pipeline guarantees. The retry loop is generic in the attempt it repeats: the locale
  \<open>attempt_frame\<close> carries a transitive relation from one attempt to the whole loop, and
  \<open>counted_attempt\<close> bounds the requests and reports of a loop whose attempts send at most one request. Both are
  interpreted on the public and on the signed attempt.
\<close>

section \<open>What one round may do\<close>

lemma rs_log_fields [simp]:
  "rs_trace (rs_log e rs) = rs_trace rs @ [e]" "rs_auth (rs_log e rs) = rs_auth rs"
  "rs_engine (rs_log e rs) = rs_engine rs" "rs_bus (rs_log e rs) = rs_bus rs"
  by (simp_all add: rs_log_def)

lemma rs_tick_fields [simp]:
  "rs_trace (rs_tick rs) = rs_trace rs" "rs_auth (rs_tick rs) = rs_auth rs"
  "rs_engine (rs_tick rs) = rs_engine rs" "rs_bus (rs_tick rs) = rs_bus rs"
  by (simp_all add: rs_tick_def)

lemma publish_event_fields [simp]:
  "rs_trace (publish_event p rs) = rs_trace rs @ (if rs_bus rs then [RestEvent (rs_now rs) p] else [])"
  "rs_auth (publish_event p rs) = rs_auth rs" "rs_engine (publish_event p rs) = rs_engine rs"
  "rs_bus (publish_event p rs) = rs_bus rs"
  by (simp_all add: publish_event_def)

lemma retry_backoff_fields:
  assumes "compute_retry_backoff attempt reason err cost rs = (rs', d)"
  shows "rs_trace rs' = rs_trace rs" "rs_auth rs' = rs_auth rs" "rs_bus rs' = rs_bus rs"
  using assms
  by (auto simp: compute_retry_backoff_def Let_def split: prod.splits retry_reason.splits rate_limit_cost.splits
      option.splits rest_error.splits)

lemma wait_and_report_effects:
  obtains d t where
    "rs_trace (wait_and_report endpoint cost rid attempt reason err rs) = rs_trace rs @ [Slept d] @
      (if rs_bus rs then [RestEvent t (RestRetryAttempt endpoint (Some rid) (attempt + 1)
         (word_of_nat (d div 1000000)) reason)] else [])"
    "rs_auth (wait_and_report endpoint cost rid attempt reason err rs) = rs_auth rs"
    "rs_bus (wait_and_report endpoint cost rid attempt reason err rs) = rs_bus rs"
proof (cases "compute_retry_backoff attempt reason err cost rs")
  case (Pair rs1 d)
  show thesis
    using that [of d "rs_now (rs_log (Slept d) rs1)"] retry_backoff_fields [OF Pair]
    by (simp add: wait_and_report_def Pair emit_rest_retry_attempt_def)
qed

lemma nonce_poisoned_effects:
  obtains es where
    "rs_trace (emit_nonce_poisoned env endpoint rs) = rs_trace rs @ es"
    "list_all (\<lambda>e. \<exists>t f. e = RestEvent t (NoncePoisonedEvent f endpoint)) es"
    "rs_auth (emit_nonce_poisoned env endpoint rs) = rs_auth rs"
  by (cases "au_api_key (rs_auth rs)") (simp_all add: emit_nonce_poisoned_def)

section \<open>Induction over the rounds of the loop\<close>

lemma retry_loop_rule:
  assumes stop: "\<And>a n rs rs1 r. once rs = (rs1, r) \<Longrightarrow> P a n rs (rs1, r)"
    and poison: "\<And>a n rs rs1 err. once rs = (rs1, Inl err) \<Longrightarrow> P a n rs (emit_nonce_poisoned env endpoint rs1, Inl err)"
    and heal: "\<And>a n rs rs1 err res. once rs = (rs1, Inl err) \<Longrightarrow> classify err policy = Retry RetryInvalidNonce \<Longrightarrow> n < 1 \<Longrightarrow>
      P (a + 1) (n + 1) (wait_and_report endpoint cost rid (a + 1) RetryInvalidNonce err rs1) res \<Longrightarrow> P a n rs res"
    and again: "\<And>a n rs rs1 err reason res. once rs = (rs1, Inl err) \<Longrightarrow> classify err policy = Retry reason \<Longrightarrow>
      a + 1 < m \<Longrightarrow> P (a + 1) n (wait_and_report endpoint cost rid (a + 1) reason err rs1) res \<Longrightarrow> P a n rs res"
  shows "P a n rs (retry_loop env endpoint cost policy rid once m a n rs)"
proof -
  have "env' = env \<Longrightarrow> endpoint' = endpoint \<Longrightarrow> cost' = cost \<Longrightarrow> policy' = policy \<Longrightarrow> rid' = rid \<Longrightarrow> once' = once \<Longrightarrow> m' = m \<Longrightarrow>
    P a n rs (retry_loop env' endpoint' cost' policy' rid' once' m' a n rs)" for env' endpoint' cost' policy' rid' once' m'
  proof (induction env' endpoint' cost' policy' rid' once' m' a n rs rule: retry_loop.induct)
    case (1 env' endpoint' cost' policy' rid' once' m' a n rs)
    obtain rs1 r where o: "once rs = (rs1, r)" by fastforce
    show ?case
    proof (cases r)
      case (Inl err)
      show ?thesis
      proof (cases "classify err policy")
        case (Retry reason)
        let ?w = "wait_and_report endpoint cost rid (a + 1) reason err rs1"
        note here = o Inl Retry 1(3-9)
        consider (healed) "reason = RetryInvalidNonce" "1 \<le> n" | (heals) "reason = RetryInvalidNonce" "n < 1"
          | (spent) "reason \<noteq> RetryInvalidNonce" "m \<le> a + 1" | (more) "reason \<noteq> RetryInvalidNonce" "\<not> m \<le> a + 1"
          by (meson not_le)
        then show ?thesis
        proof cases
          case healed
          then show ?thesis
            using here stop [OF o, of a n] poison [of rs rs1 err a n] by (subst retry_loop.simps) (simp add: Let_def)
        next
          case heals
          have "P (a + 1) (n + 1) ?w (retry_loop env endpoint cost policy rid once m (a + 1) (n + 1) ?w)"
            using 1(1) [of "a + 1" rs1 r err reason] here heals by (simp add: not_le)
          then have "P a n rs (retry_loop env endpoint cost policy rid once m (a + 1) (n + 1) ?w)"
            using heal [of rs rs1 err n a] here heals by blast
          then show ?thesis using here heals by (subst retry_loop.simps) (simp add: Let_def)
        next
          case spent
          then show ?thesis using here stop [OF o, of a n] by (subst retry_loop.simps) (simp add: Let_def)
        next
          case more
          have "P (a + 1) n ?w (retry_loop env endpoint cost policy rid once m (a + 1) n ?w)"
            using 1(2) [of "a + 1" rs1 r err reason] here more by (simp add: not_le)
          then have "P a n rs (retry_loop env endpoint cost policy rid once m (a + 1) n ?w)"
            using again [of rs rs1 err reason a n] here more not_le by blast
          then show ?thesis using here more by (subst retry_loop.simps) (simp add: Let_def)
        qed
      qed (use 1 o Inl stop [OF o, of a n] in \<open>subst retry_loop.simps, simp\<close>)+
    qed (use 1 o stop [OF o, of a n] in \<open>subst retry_loop.simps, simp\<close>)
  qed
  then show ?thesis by blast
qed

section \<open>Relations kept by the whole loop\<close>

locale attempt_frame =
  fixes run_once :: "rest_surface \<Rightarrow> rest_result" and R :: "rest_surface \<Rightarrow> rest_surface \<Rightarrow> bool"
  assumes once: "R rs (fst (run_once rs))"
    and wait: "R rs (wait_and_report endpoint cost rid attempt reason err rs)"
    and poisoned: "R rs (emit_nonce_poisoned env endpoint rs)"
    and trans: "R a b \<Longrightarrow> R b c \<Longrightarrow> R a c"
begin

lemma loop_related: "R rs (fst (retry_loop env endpoint cost policy rid run_once m a n rs))"
proof (rule retry_loop_rule [where P = "\<lambda>_ _ rs res. R rs (fst res)"])
  fix rs rs1 r
  assume "run_once rs = (rs1, r)"
  then show "R rs (fst (rs1, r))" using once [of rs] by simp
next
  fix rs rs1 err
  assume "run_once rs = (rs1, Inl err)"
  then show "R rs (fst (emit_nonce_poisoned env endpoint rs1, Inl err))"
    using once [of rs] poisoned trans by fastforce
next
  fix a rs rs1 err res
  assume "run_once rs = (rs1, Inl err)" and "R (wait_and_report endpoint cost rid (a + 1) RetryInvalidNonce err rs1) (fst res)"
  then show "R rs (fst res)" using once [of rs] wait trans by (metis fst_conv)
next
  fix a rs rs1 err reason res
  assume "run_once rs = (rs1, Inl err)" and "R (wait_and_report endpoint cost rid (a + 1) reason err rs1) (fst res)"
  then show "R rs (fst res)" using once [of rs] wait trans by (metis fst_conv)
qed

lemma run_related: "R rs (fst (run_retry_loop env endpoint cost policy rid run_once rs))"
  by (simp add: run_retry_loop_def loop_related)

end

section \<open>Nonces reach the exchange in the order they were drawn\<close>

fun post_nonce :: "rest_effect \<Rightarrow> nat option" where
  "post_nonce (PostSent path body k g bound) =
     Option.bind (decode_form body) (\<lambda>f. Option.bind (map_of (rev f) ''nonce'') parse_u64)"
| "post_nonce _ = None"

definition sent_nonces :: "rest_effect list \<Rightarrow> nat list" where
  "sent_nonces es = List.map_filter post_nonce es"

abbreviation nonce_of :: "rest_surface \<Rightarrow> nat" where
  "nonce_of rs \<equiv> unat (au_nonce (rs_auth rs))"

definition nonce_ordered :: "rest_surface \<Rightarrow> rest_surface \<Rightarrow> bool" where
  "nonce_ordered rs rs' \<longleftrightarrow> nonce_of rs \<le> nonce_of rs' \<and>
     (\<exists>es. rs_trace rs' = rs_trace rs @ es \<and>
        (nonce_of rs' < 2 ^ 64 - 1 \<longrightarrow>
           sorted_wrt (<) (sent_nonces es) \<and> list_all (\<lambda>n. nonce_of rs < n \<and> n \<le> nonce_of rs') (sent_nonces es)))"

lemma sent_nonces_simps [simp]:
  "sent_nonces [] = []" "sent_nonces (e # es) = (case post_nonce e of None \<Rightarrow> [] | Some n \<Rightarrow> [n]) @ sent_nonces es"
  "sent_nonces (es @ es') = sent_nonces es @ sent_nonces es'"
  by (simp_all add: sent_nonces_def map_filter_def split: option.split)

lemma nonce_ordered_trans: "nonce_ordered a b \<Longrightarrow> nonce_ordered b c \<Longrightarrow> nonce_ordered a c"
  unfolding nonce_ordered_def
  by (auto simp: sorted_wrt_append list_all_iff) (metis le_less_trans le_trans less_le_trans order.strict_trans1)+

lemma nonce_ordered_quiet:
  "rs_trace rs' = rs_trace rs @ es \<Longrightarrow> list_all (\<lambda>e. post_nonce e = None) es \<Longrightarrow> rs_auth rs' = rs_auth rs \<Longrightarrow> nonce_ordered rs rs'"
proof -
  have "sent_nonces es = []" if "list_all (\<lambda>e. post_nonce e = None) es" for es
    using that by (induction es) auto
  then show "rs_trace rs' = rs_trace rs @ es \<Longrightarrow> list_all (\<lambda>e. post_nonce e = None) es \<Longrightarrow> rs_auth rs' = rs_auth rs \<Longrightarrow>
    nonce_ordered rs rs'" by (auto simp: nonce_ordered_def)
qed

lemma nonce_ordered_wait: "nonce_ordered rs (wait_and_report endpoint cost rid attempt reason err rs)"
  by (rule wait_and_report_effects) (rule nonce_ordered_quiet, assumption, auto)

lemma nonce_ordered_poisoned: "nonce_ordered rs (emit_nonce_poisoned env endpoint rs)"
  by (rule nonce_poisoned_effects) (rule nonce_ordered_quiet, assumption, auto simp: list_all_iff)

lemma signed_nonce:
  assumes "sign_form cr wall profile path flds au = (au', Inr sf)"
  shows "post_nonce (PostSent p (sf_body sf) k g bound) = Some (unat (au_nonce au')) \<and>
    (unat (au_nonce au) < unat (au_nonce au') \<or> unat (au_nonce au') = 2 ^ 64 - 1)"
proof -
  obtain n where n: "au_nonce au' = n" "au_nonce au < n \<or> n = - 1"
    and b: "sf_body sf = encode_form (signed_fields (au_otp au) n flds)"
    using assms next_nonce_above [of wall "au_nonce au"]
    by (fastforce simp: sign_form_def Let_def split: option.splits prod.splits)
  have "map_of (rev (signed_fields (au_otp au) n flds)) ''nonce'' = Some (dec_string (unat n))"
    by (auto simp: signed_fields_def Let_def split: option.split)
  moreover have "unat n < 2 ^ 64" using unsigned_less [of n, where 'a = nat] by simp
  ultimately show ?thesis
    using n by (auto simp: b decode_encoded parse_dec_string word_less_nat_alt unsigned_minus_1_eq_mask mask_eq_exp_minus_1)
qed

lemma unsigned_nonce:
  assumes "sign_form cr wall profile path flds au = (au', Inl e)"
  shows "unat (au_nonce au) \<le> unat (au_nonce au')"
  using assms next_nonce_above [of wall "au_nonce au"]
  by (auto simp: sign_form_def Let_def word_le_nat_alt [symmetric] split: option.splits prod.splits)

lemma apply_rate_limit_fields:
  assumes "apply_rate_limit env cost rs = (rs', r)"
  shows "rs_trace rs' = rs_trace rs" "rs_auth rs' = rs_auth rs" "rs_engine rs' = rs_engine rs" "rs_bus rs' = rs_bus rs"
    "rs_sent rs' = rs_sent rs"
  using assms
  by (auto simp: apply_rate_limit_def Let_def rs_tick_def split: option.splits rate_limit_cost.splits prod.splits)

lemma snap_api_counter_fields [simp]:
  "rs_trace (snap_api_counter env r rs) = rs_trace rs" "rs_auth (snap_api_counter env r rs) = rs_auth rs"
  "rs_engine (snap_api_counter env r rs) = rs_engine rs" "rs_bus (snap_api_counter env r rs) = rs_bus rs"
  by (auto simp: snap_api_counter_def Let_def split: sum.splits rest_error.splits option.splits)

lemma sign_and_send_effects:
  obtains (unsigned) au e where "sign_form (env_crypto env) (rs_wall rs (rs_wall_reads rs)) profile path form (rs_auth rs) = (au, Inl e)"
      "rs_trace (fst (sign_and_send env path form profile rs)) = rs_trace rs"
      "rs_auth (fst (sign_and_send env path form profile rs)) = au"
  | (sent) au sf where "sign_form (env_crypto env) (rs_wall rs (rs_wall_reads rs)) profile path form (rs_auth rs) = (au, Inr sf)"
      "rs_trace (fst (sign_and_send env path form profile rs)) =
        rs_trace rs @ [PostSent path (sf_body sf) (sf_api_key_header sf) (sf_api_sign_header sf)
          (rs_request_timeout rs + GATE_BACKSTOP_GRACE)]"
      "rs_auth (fst (sign_and_send env path form profile rs)) = au"
proof (cases "sign_form (env_crypto env) (rs_wall rs (rs_wall_reads rs)) profile path form (rs_auth rs)")
  case (Pair au s)
  show thesis
    by (cases s) (use Pair unsigned sent in \<open>auto simp: sign_and_send_def Let_def split: option.splits sum.splits prod.splits\<close>)
qed

lemma sign_and_send_frame:
  "rs_engine (fst (sign_and_send env path form profile rs)) = rs_engine rs \<and>
   rs_bus (fst (sign_and_send env path form profile rs)) = rs_bus rs"
  by (auto simp: sign_and_send_def Let_def split: option.splits sum.splits prod.splits)

lemma nonce_ordered_send: "nonce_ordered rs (fst (sign_and_send env path form profile rs))"
proof (cases rule: sign_and_send_effects [of env rs profile path form])
  case (unsigned au e)
  then show ?thesis using unsigned_nonce [OF unsigned(1)] by (simp add: nonce_ordered_def)
next
  case (sent au sf)
  then show ?thesis using signed_nonce [OF sent(1)] unsigned_less [of "au_nonce (rs_auth rs)", where 'a = nat]
    by (auto simp: nonce_ordered_def)
qed

lemma signed_once_cases:
  obtains (rejected) rs1 e where "apply_rate_limit env cost rs = (rs1, Inl e)"
      "signed_post_costed_once env path form profile cost rs = (rs1, Inl (RestRateLimit e))"
  | (sends) rs1 rs2 r where "apply_rate_limit env cost rs = (rs1, Inr ())" "sign_and_send env path form profile rs1 = (rs2, r)"
      "signed_post_costed_once env path form profile cost rs = (snap_api_counter env r rs2, r)"
proof (cases "apply_rate_limit env cost rs")
  case (Pair rs1 s)
  then show thesis
    using rejected sends by (cases s; cases "sign_and_send env path form profile rs1") (auto simp: signed_post_costed_once_def)
qed

lemma nonce_ordered_same: "rs_trace rs' = rs_trace rs \<Longrightarrow> rs_auth rs' = rs_auth rs \<Longrightarrow> nonce_ordered rs rs'"
  by (rule nonce_ordered_quiet [of _ _ "[]"]) simp_all

lemma nonce_ordered_once: "nonce_ordered rs (fst (signed_post_costed_once env path form profile cost rs))"
proof (cases rule: signed_once_cases [of env cost rs path form profile])
  case (rejected rs1 e)
  then show ?thesis using apply_rate_limit_fields [OF rejected(1)] nonce_ordered_same by simp
next
  case (sends rs1 rs2 r)
  have limited: "nonce_ordered rs rs1" using apply_rate_limit_fields [OF sends(1)] by (simp add: nonce_ordered_same)
  have sent: "nonce_ordered rs1 rs2" using nonce_ordered_send [of rs1 env path form profile] sends(2) by simp
  have "nonce_ordered rs2 (snap_api_counter env r rs2)" by (simp add: nonce_ordered_same)
  then show ?thesis using nonce_ordered_trans [OF nonce_ordered_trans [OF limited sent]] sends(3) by simp
qed

interpretation po: attempt_frame "signed_post_costed_once env path form profile cost" nonce_ordered
  for env path form profile cost
  by unfold_locales (rule nonce_ordered_once, rule nonce_ordered_wait, rule nonce_ordered_poisoned, rule nonce_ordered_trans)

text \<open>
  Signed requests carry strictly increasing nonces. Over a whole signed call, retries included, and
  whatever the network answers, the nonces of the requests sent are strictly increasing and larger than every nonce drawn
  before the call, as long as the 64-bit counter has not saturated; so no retry can be
  rejected as a replay of an earlier attempt.
\<close>

lemma retries_use_fresh_nonces:
  assumes "nonce_of (fst (signed_post_costed env path form profile cost policy rid rs)) < 2 ^ 64 - 1"
  shows "\<exists>es. rs_trace (fst (signed_post_costed env path form profile cost policy rid rs)) = rs_trace rs @ es \<and>
    sorted_wrt (<) (sent_nonces es) \<and> list_all (\<lambda>n. nonce_of rs < n) (sent_nonces es)"
proof -
  have "nonce_ordered rs (fst (signed_post_costed env path form profile cost policy rid rs))"
    unfolding signed_post_costed_def by (rule po.run_related)
  then show ?thesis using assms by (auto simp: nonce_ordered_def list_all_iff)
qed

section \<open>Requests, waits and reports of a loop\<close>

fun slept :: "rest_effect \<Rightarrow> duration option" where
  "slept (Slept d) = Some d"
| "slept _ = None"

fun reported :: "rest_effect \<Rightarrow> (string \<times> string option \<times> u32 \<times> u64) option" where
  "reported (RestEvent t (RestRetryAttempt endpoint rid attempt ms reason)) = Some (endpoint, rid, attempt, ms)"
| "reported _ = None"

definition sleeps :: "rest_effect list \<Rightarrow> duration list" where
  "sleeps es = List.map_filter slept es"

definition reports :: "rest_effect list \<Rightarrow> (string \<times> string option \<times> u32 \<times> u64) list" where
  "reports es = List.map_filter reported es"

fun numbered :: "string \<Rightarrow> string \<Rightarrow> u32 \<Rightarrow> duration list \<Rightarrow> (string \<times> string option \<times> u32 \<times> u64) list" where
  "numbered endpoint rid a [] = []"
| "numbered endpoint rid a (d # ds) =
     (endpoint, Some rid, a, word_of_nat (d div 1000000)) # numbered endpoint rid (a + 1) ds"

lemma sleeps_simps [simp]:
  "sleeps [] = []" "sleeps (e # es) = (case slept e of None \<Rightarrow> [] | Some d \<Rightarrow> [d]) @ sleeps es"
  "sleeps (es @ es') = sleeps es @ sleeps es'"
  by (simp_all add: sleeps_def map_filter_def split: option.split)

lemma reports_simps [simp]:
  "reports [] = []" "reports (e # es) = (case reported e of None \<Rightarrow> [] | Some d \<Rightarrow> [d]) @ reports es"
  "reports (es @ es') = reports es @ reports es'"
  by (simp_all add: reports_def map_filter_def split: option.split)

text \<open>What a loop that stands before its attempt \<open>a + 1\<close> of \<open>m\<close> has added to the trace when it ends.\<close>

definition rounds_left :: "u32 \<Rightarrow> u32 \<Rightarrow> u32 \<Rightarrow> nat" where
  "rounds_left m a n = (unat m - unat a - 1) + (if 1 \<le> n then 0 else 1)"

definition loop_effects :: "(rest_effect \<Rightarrow> bool) \<Rightarrow> retry_policy \<Rightarrow> string \<Rightarrow> string \<Rightarrow> u32 \<Rightarrow> u32 \<Rightarrow> u32 \<Rightarrow>
    bool \<Rightarrow> rest_effect list \<Rightarrow> bool" where
  "loop_effects is_sent policy endpoint rid m a n bus es \<longleftrightarrow>
     length (filter is_sent es) \<le> Suc (length (sleeps es)) \<and>
     (bus \<longrightarrow> reports es = numbered endpoint rid (a + 2) (sleeps es)) \<and>
     ((\<forall>err. classify err policy = NonTransient) \<longrightarrow> sleeps es = []) \<and>
     (unat m < 2 ^ 32 - 1 \<longrightarrow> a \<le> m \<longrightarrow> (a = m \<longrightarrow> 1 \<le> n) \<longrightarrow>
        length (sleeps es) \<le> rounds_left m a n)"

lemma budget_step:
  fixes m a n n' :: u32
  assumes "unat m < 2 ^ 32 - 1" and "a \<le> m" and "a = m \<longrightarrow> 1 \<le> n"
    and "(n' = n \<and> a + 1 < m) \<or> (n < 1 \<and> n' = n + 1)"
    and k: "a + 1 \<le> m \<Longrightarrow> (a + 1 = m \<longrightarrow> 1 \<le> n') \<Longrightarrow> k \<le> rounds_left m (a + 1) n'"
  shows "Suc k \<le> rounds_left m a n"
proof -
  have "unat a \<le> unat m" using assms(2) by (simp add: word_le_nat_alt)
  then have suc: "unat (a + 1) = Suc (unat a)" using assms(1) by (simp add: unat_word_ariths)
  from assms(4) show ?thesis
  proof
    assume n: "n' = n \<and> a + 1 < m"
    then have "a + 1 \<le> m" "a + 1 \<noteq> m" "Suc (unat a) < unat m" using suc by (auto simp: word_less_nat_alt word_le_nat_alt)
    then show ?thesis using k n suc by (auto simp: rounds_left_def)
  next
    assume n: "n < 1 \<and> n' = n + 1"
    then have "n = 0" by simp
    then have "a < m" using assms(2,3) by (cases "a = m") auto
    then have "a + 1 \<le> m" "unat a < unat m" using suc by (simp_all add: word_less_nat_alt word_le_nat_alt)
    moreover have "n' = 1" using n \<open>n = 0\<close> by simp
    ultimately show ?thesis using k suc \<open>n = 0\<close> by (simp add: rounds_left_def)
  qed
qed

locale counted_attempt =
  fixes run_once :: "rest_surface \<Rightarrow> rest_result" and is_sent :: "rest_effect \<Rightarrow> bool"
  assumes once_sends: "\<exists>es. rs_trace (fst (run_once rs)) = rs_trace rs @ es \<and> length es \<le> 1 \<and>
      list_all (\<lambda>e. slept e = None \<and> reported e = None) es"
    and once_bus: "rs_bus (fst (run_once rs)) = rs_bus rs"
    and quiet: "\<not> is_sent (Slept d)" "\<not> is_sent (RestEvent t p)"
begin

lemma once_effects:
  assumes "run_once rs = (rs1, r)"
  obtains es where "rs_trace rs1 = rs_trace rs @ es" "rs_bus rs1 = rs_bus rs" "sleeps es = []" "reports es = []"
    "length (filter is_sent es) \<le> 1"
proof -
  obtain es where es: "rs_trace rs1 = rs_trace rs @ es" "length es \<le> 1" "list_all (\<lambda>e. slept e = None \<and> reported e = None) es"
    using once_sends [of rs] assms by auto
  have "sleeps es = []" "reports es = []"
    using es(2,3) by (cases es; simp)+
  moreover have "length (filter is_sent es) \<le> 1" using es(2) length_filter_le [of is_sent es] by linarith
  ultimately show thesis using that es(1) once_bus [of rs] assms by simp
qed

lemma round_effects:
  assumes o: "run_once rs = (rs1, Inl err)" and c: "classify err policy = Retry reason"
    and next_round: "(n' = n \<and> a + 1 < m) \<or> (n < 1 \<and> n' = n + 1)"
    and ih: "\<exists>es. rs_trace (fst res) = rs_trace (wait_and_report endpoint cost rid (a + 1) reason err rs1) @ es \<and>
      loop_effects is_sent policy endpoint rid m (a + 1) n' (rs_bus (wait_and_report endpoint cost rid (a + 1) reason err rs1)) es"
  shows "\<exists>es. rs_trace (fst res) = rs_trace rs @ es \<and> loop_effects is_sent policy endpoint rid m a n (rs_bus rs) es"
proof -
  obtain e1 where e1: "rs_trace rs1 = rs_trace rs @ e1" "rs_bus rs1 = rs_bus rs" "sleeps e1 = []" "reports e1 = []"
    "length (filter is_sent e1) \<le> 1" using once_effects [OF o] by blast
  obtain d t where w: "rs_trace (wait_and_report endpoint cost rid (a + 1) reason err rs1) = rs_trace rs1 @ [Slept d] @
      (if rs_bus rs1 then [RestEvent t (RestRetryAttempt endpoint (Some rid) (a + 1 + 1) (word_of_nat (d div 1000000)) reason)] else [])"
    "rs_bus (wait_and_report endpoint cost rid (a + 1) reason err rs1) = rs_bus rs1"
    using wait_and_report_effects [of endpoint cost rid "a + 1" reason err rs1] by metis
  obtain es where res: "rs_trace (fst res) = rs_trace (wait_and_report endpoint cost rid (a + 1) reason err rs1) @ es"
    and es: "loop_effects is_sent policy endpoint rid m (a + 1) n' (rs_bus rs) es" using ih w(2) e1(2) by auto
  define all where "all = e1 @ [Slept d] @ (if rs_bus rs then [RestEvent t (RestRetryAttempt endpoint (Some rid) (a + 2)
      (word_of_nat (d div 1000000)) reason)] else []) @ es"
  have "rs_trace (fst res) = rs_trace rs @ all" using res w(1) e1(1,2) by (simp add: all_def)
  moreover have s: "sleeps all = d # sleeps es" using e1(3) by (simp add: all_def)
  moreover have "length (filter is_sent all) \<le> Suc (length (sleeps all))"
    using e1(5) es s quiet by (simp add: all_def loop_effects_def)
  moreover have "rs_bus rs \<Longrightarrow> reports all = numbered endpoint rid (a + 2) (sleeps all)"
    using e1(4) es s by (simp add: all_def loop_effects_def add.commute add.left_commute)
  moreover have "\<not> (\<forall>err. classify err policy = NonTransient)" using c by (metis retry_decision.distinct(1))
  moreover have "unat m < 2 ^ 32 - 1 \<Longrightarrow> a \<le> m \<Longrightarrow> (a = m \<longrightarrow> 1 \<le> n) \<Longrightarrow>
      length (sleeps all) \<le> rounds_left m a n"
    using budget_step [OF _ _ _ next_round, of "length (sleeps es)"] es s unfolding loop_effects_def by simp
  ultimately show ?thesis unfolding loop_effects_def by blast
qed

lemma stopped_effects:
  assumes "run_once rs = (rs1, r)" and "rs_trace rs2 = rs_trace rs1 @ es" and "sleeps es = []" and "reports es = []" and "filter is_sent es = []"
  shows "\<exists>es. rs_trace rs2 = rs_trace rs @ es \<and> loop_effects is_sent policy endpoint rid m a n (rs_bus rs) es"
proof -
  obtain e1 where "rs_trace rs1 = rs_trace rs @ e1" "sleeps e1 = []" "reports e1 = []" "length (filter is_sent e1) \<le> 1"
    using once_effects [OF assms(1)] by blast
  then show ?thesis using assms(2-5) by (intro exI [of _ "e1 @ es"]) (simp add: loop_effects_def)
qed

lemma loop_traced:
  "\<exists>es. rs_trace (fst (retry_loop env endpoint cost policy rid run_once m a n rs)) = rs_trace rs @ es \<and>
     loop_effects is_sent policy endpoint rid m a n (rs_bus rs) es"
proof (rule retry_loop_rule [where P = "\<lambda>a n rs res. \<exists>es. rs_trace (fst res) = rs_trace rs @ es \<and>
    loop_effects is_sent policy endpoint rid m a n (rs_bus rs) es"])
  fix a n rs rs1 r
  assume o: "run_once rs = (rs1, r)"
  show "\<exists>es. rs_trace (fst (rs1, r)) = rs_trace rs @ es \<and> loop_effects is_sent policy endpoint rid m a n (rs_bus rs) es"
    using stopped_effects [OF o, of rs1 "[]"] by simp
next
  fix a n rs rs1 err
  assume o: "run_once rs = (rs1, Inl err)"
  obtain es where es: "rs_trace (emit_nonce_poisoned env endpoint rs1) = rs_trace rs1 @ es"
    "list_all (\<lambda>e. \<exists>t f. e = RestEvent t (NoncePoisonedEvent f endpoint)) es" by (rule nonce_poisoned_effects)
  have "sleeps es = []" "reports es = []" "filter is_sent es = []" using es(2) quiet by (induction es) auto
  then show "\<exists>es. rs_trace (fst (emit_nonce_poisoned env endpoint rs1, Inl err)) = rs_trace rs @ es \<and>
      loop_effects is_sent policy endpoint rid m a n (rs_bus rs) es"
    using stopped_effects [OF o es(1)] by simp
qed (blast intro: round_effects)+

end

fun is_post :: "rest_effect \<Rightarrow> bool" where
  "is_post (PostSent path body k g bound) = True"
| "is_post _ = False"

fun is_get :: "rest_effect \<Rightarrow> bool" where
  "is_get (GetSent path query) = True"
| "is_get _ = False"

lemma signed_once_effects:
  "\<exists>es. rs_trace (fst (signed_post_costed_once env path form profile cost rs)) = rs_trace rs @ es \<and> length es \<le> 1 \<and>
     list_all (\<lambda>e. slept e = None \<and> reported e = None) es"
  "rs_bus (fst (signed_post_costed_once env path form profile cost rs)) = rs_bus rs"
proof (atomize (full), cases rule: signed_once_cases [of env cost rs path form profile])
  case (rejected rs1 e)
  then show "(\<exists>es. rs_trace (fst (signed_post_costed_once env path form profile cost rs)) = rs_trace rs @ es \<and> length es \<le> 1 \<and>
     list_all (\<lambda>e. slept e = None \<and> reported e = None) es) \<and>
     rs_bus (fst (signed_post_costed_once env path form profile cost rs)) = rs_bus rs"
    using apply_rate_limit_fields [OF rejected(1)] by simp
next
  case (sends rs1 rs2 r)
  have "rs_bus rs2 = rs_bus rs"
    using sign_and_send_frame [of env path form profile rs1] apply_rate_limit_fields [OF sends(1)] sends(2) by simp
  moreover have "\<exists>es. rs_trace rs2 = rs_trace rs @ es \<and> length es \<le> 1 \<and> list_all (\<lambda>e. slept e = None \<and> reported e = None) es"
    by (cases rule: sign_and_send_effects [of env rs1 profile path form])
      (use sends(2) apply_rate_limit_fields [OF sends(1)] in auto)
  ultimately show "(\<exists>es. rs_trace (fst (signed_post_costed_once env path form profile cost rs)) = rs_trace rs @ es \<and> length es \<le> 1 \<and>
     list_all (\<lambda>e. slept e = None \<and> reported e = None) es) \<and>
     rs_bus (fst (signed_post_costed_once env path form profile cost rs)) = rs_bus rs"
    using sends(3) by simp
qed

lemma public_once_effects:
  "\<exists>es. rs_trace (fst (public_get_once path query rs)) = rs_trace rs @ es \<and> length es \<le> 1 \<and>
     list_all (\<lambda>e. slept e = None \<and> reported e = None) es"
  "rs_bus (fst (public_get_once path query rs)) = rs_bus rs"
  by (simp_all add: public_get_once_def Let_def split: sum.split prod.split)

interpretation cp: counted_attempt "signed_post_costed_once env path form profile cost" is_post
  for env path form profile cost
  by unfold_locales (rule signed_once_effects | simp)+

interpretation cg: counted_attempt "public_get_once path query" is_get
  for path query
  by unfold_locales (rule public_once_effects | simp)+

lemma signed_call_effects:
  obtains es where "rs_trace (fst (signed_post_costed env path form profile cost policy rid rs)) = rs_trace rs @ es"
    "loop_effects is_post policy path rid (max (case rp_max_attempts policy of Some n \<Rightarrow> n | None \<Rightarrow> re_max_attempts (rs_engine rs)) 1)
       0 0 (rs_bus rs) es"
  using cp.loop_traced unfolding signed_post_costed_def run_retry_loop_def Let_def by blast

lemma public_call_effects:
  obtains es where "rs_trace (fst (public_get env path query policy rid rs)) = rs_trace rs @ es"
    "loop_effects is_get policy path rid (max (case rp_max_attempts policy of Some n \<Rightarrow> n | None \<Rightarrow> re_max_attempts (rs_engine rs)) 1)
       0 0 (rs_bus rs) es"
  using cg.loop_traced unfolding public_get_def run_retry_loop_def Let_def by blast

text \<open>
  Property C7. An order is placed at most once. Whatever the network answers, a signed call under the policy
  of order placement sends at most one request and never waits; under the validate-mode policy it sends at
  most two, the second only after an invalid nonce.
\<close>

theorem placement_sent_once:
  "\<exists>es. rs_trace (fst (signed_post_costed env path form profile cost never_retry rid rs)) = rs_trace rs @ es \<and>
     length (filter is_post es) \<le> 1 \<and> sleeps es = [] \<and>
   (\<exists>fs. rs_trace (fst (signed_post_costed env path form profile cost never_retry_except_nonce rid rs)) = rs_trace rs @ fs \<and>
     length (filter is_post fs) \<le> 2)"
proof -
  obtain es where "rs_trace (fst (signed_post_costed env path form profile cost never_retry rid rs)) = rs_trace rs @ es"
    "loop_effects is_post never_retry path rid 1 0 0 (rs_bus rs) es"
    using signed_call_effects [of env path form profile cost never_retry rid rs] by (auto simp: never_retry_def)
  moreover obtain fs where "rs_trace (fst (signed_post_costed env path form profile cost never_retry_except_nonce rid rs)) = rs_trace rs @ fs"
    "loop_effects is_post never_retry_except_nonce path rid 1 0 0 (rs_bus rs) fs"
    using signed_call_effects [of env path form profile cost never_retry_except_nonce rid rs]
    by (auto simp: never_retry_except_nonce_def)
  ultimately show ?thesis by (auto simp: loop_effects_def classify_never_retry rounds_left_def)
qed

text \<open>
  Property C24. The retry loop ends within its budget and announces every retry. With a budget of \<open>m\<close> attempts (the
  policy's, or the knob's; a budget of zero counts as one), a call sends at most \<open>m + 1\<close> requests, the extra one being the
  single re-sign after an invalid nonce, and at most one more than it waited. With an event bus wired, its retry events are, in
  order, one per wait: they name the endpoint and the caller's request id, carry the attempt numbers two, three and so on
  without a gap, and report the time waited in milliseconds. This holds for signed and for public calls.
\<close>

theorem retry_budget_respected:
  fixes rs policy
  defines "m \<equiv> max (case rp_max_attempts policy of Some n \<Rightarrow> n | None \<Rightarrow> re_max_attempts (rs_engine rs)) 1"
  assumes "unat m < 2 ^ 32 - 1"
  shows "(\<exists>es. rs_trace (fst (signed_post_costed env path form profile cost policy rid rs)) = rs_trace rs @ es \<and>
      length (filter is_post es) \<le> Suc (length (sleeps es)) \<and> length (sleeps es) \<le> unat m \<and>
      (rs_bus rs \<longrightarrow> reports es = numbered path rid 2 (sleeps es))) \<and>
    (\<exists>es. rs_trace (fst (public_get env path query policy rid rs)) = rs_trace rs @ es \<and>
      length (filter is_get es) \<le> Suc (length (sleeps es)) \<and> length (sleeps es) \<le> unat m \<and>
      (rs_bus rs \<longrightarrow> reports es = numbered path rid 2 (sleeps es)))"
proof -
  have "1 \<le> m" by (simp add: m_def)
  then have m: "1 \<le> unat m" by (simp add: word_le_nat_alt)
  have b: "length (filter s es) \<le> Suc (length (sleeps es)) \<and> length (sleeps es) \<le> unat m \<and>
      (rs_bus rs \<longrightarrow> reports es = numbered path rid 2 (sleeps es))"
    if "loop_effects s policy path rid m 0 0 (rs_bus rs) es" for s es
    using that assms(2) m by (auto simp: loop_effects_def rounds_left_def)
  show ?thesis
    using signed_call_effects [of env path form profile cost policy rid rs] public_call_effects [of env path query policy rid rs] b
    unfolding m_def by metis
qed

section \<open>What a rejected request costs\<close>

text \<open>
  A request the local limiter rejects costs nothing. When stage one rejects a signed call, the call fails with
  exactly that rejection, after one attempt: nothing is sent, no nonce is drawn, no event is published and there
  is no wait, whatever the retry policy.
\<close>

lemma local_rejection_burns_nothing:
  assumes "apply_rate_limit env cost rs = (rs1, Inl e)"
  shows "signed_post_costed env path form profile cost policy rid rs = (rs1, Inl (RestRateLimit e)) \<and>
    rs_trace rs1 = rs_trace rs \<and> rs_auth rs1 = rs_auth rs \<and> rs_sent rs1 = rs_sent rs"
proof -
  have "signed_post_costed_once env path form profile cost rs = (rs1, Inl (RestRateLimit e))"
    using assms by (simp add: signed_post_costed_once_def)
  then show ?thesis
    using apply_rate_limit_fields [OF assms]
    by (simp add: signed_post_costed_def run_retry_loop_def retry_loop.simps classify_local_rejection)
qed

section \<open>How long a retry waits\<close>

text \<open>
  A retry never waits past the configured ceiling, a far-future throttle timestamp of the server included,
  except to let the API counter drain: then it waits exactly until the counter has headroom for the
  request.
\<close>

lemma retry_wait_bounded:
  assumes "compute_retry_backoff attempt reason err cost rs = (rs', d)"
  shows "d \<le> backoff_ceiling (rs_engine rs) \<or>
    (\<exists>key units. reason = RateLimitBreached \<and> cost = CostApi units \<and> au_api_key (rs_auth rs) = Some key \<and>
       time_until_headroom (ScopeApiKey key) units (rs_now rs) (rs_api rs) = Some d)"
proof -
  obtain e base where b: "rest_next_backoff (attempt - 1) (rs_engine rs) = (e, base)" by fastforce
  note bound = rest_backoff_bound [OF b] rest_backoff_engine [OF b]
  show ?thesis
  proof (cases reason)
    case RateLimitBreached
    then show ?thesis
      using assms b bound
      by (auto simp: compute_retry_backoff_def Let_def rs_now_def max_def
          split: rate_limit_cost.splits option.splits if_splits)
  next
    case ServiceThrottled
    then show ?thesis
      using assms b bound by (auto simp: compute_retry_backoff_def Let_def split: rest_error.splits option.splits)
  qed (use assms b bound in \<open>auto simp: compute_retry_backoff_def Let_def\<close>)
qed

section \<open>Finding an order\<close>

fun reconciled :: "rest_effect \<Rightarrow> (string \<times> reconciliation_outcome) option" where
  "reconciled (RestEvent t (OrderReconciliationEvent cl_ord_id outcome)) = Some (cl_ord_id, outcome)"
| "reconciled _ = None"

fun posted_path :: "rest_effect \<Rightarrow> string option" where
  "posted_path (PostSent path body k g bound) = Some path"
| "posted_path _ = None"

definition walks :: "string set \<Rightarrow> rest_surface \<Rightarrow> rest_surface \<Rightarrow> bool" where
  "walks paths rs rs' \<longleftrightarrow> rs_bus rs' = rs_bus rs \<and>
     (\<exists>es. rs_trace rs' = rs_trace rs @ es \<and>
        list_all (\<lambda>e. reconciled e = None \<and> set_option (posted_path e) \<subseteq> paths) es)"

lemma walks_trans: "walks A a b \<Longrightarrow> walks A b c \<Longrightarrow> walks A a c"
  by (auto simp: walks_def)

lemma walks_mono: "walks A a b \<Longrightarrow> A \<subseteq> B \<Longrightarrow> walks B a b"
  by (fastforce simp: walks_def list_all_iff)

lemma walks_wait: "walks A rs (wait_and_report endpoint cost rid attempt reason err rs)"
  by (rule wait_and_report_effects [of endpoint cost rid attempt reason err rs]) (auto simp: walks_def)

lemma walks_poisoned: "walks A rs (emit_nonce_poisoned env endpoint rs)"
  by (cases "au_api_key (rs_auth rs)") (auto simp: walks_def emit_nonce_poisoned_def)

lemma walks_once: "walks {path} rs (fst (signed_post_costed_once env path form profile cost rs))"
proof (cases rule: signed_once_cases [of env cost rs path form profile])
  case (rejected rs1 e)
  then show ?thesis using apply_rate_limit_fields [OF rejected(1)] by (simp add: walks_def)
next
  case (sends rs1 rs2 r)
  have "rs_bus rs2 = rs_bus rs" using sign_and_send_frame [of env path form profile rs1] sends(2)
    apply_rate_limit_fields [OF sends(1)] by simp
  then show ?thesis
    by (cases rule: sign_and_send_effects [of env rs1 profile path form])
      (use sends apply_rate_limit_fields [OF sends(1)] in \<open>auto simp: walks_def\<close>)
qed

interpretation wk: attempt_frame "signed_post_costed_once env path form profile cost" "walks {path}"
  for env path form profile cost
  by unfold_locales (rule walks_once, rule walks_wait, rule walks_poisoned, rule walks_trans)

lemma walks_call: "walks {path} rs (fst (signed_post_costed env path form profile cost policy rid rs))"
  unfolding signed_post_costed_def by (rule wk.run_related)

lemma walks_query: "query_orders env path cl_ord_id rs = (rs', r) \<Longrightarrow> walks {path} rs rs'"
  using walks_call [of path "fst (mint_request_id rs)" env "[(''cl_ord_id'', cl_ord_id)]" SpotV1 "CostApi (Fin 2)" idempotent
      "snd (mint_request_id rs)"]
  by (auto simp: query_orders_def mint_request_id_def walks_def split: prod.splits)

definition walk_paths :: "(string \<times> rest_error) + reconciliation_outcome \<Rightarrow> string set" where
  "walk_paths r = (case r of Inr (Found _ _ LifecycleOpen) \<Rightarrow> {''/0/private/OpenOrders''}
     | _ \<Rightarrow> {''/0/private/OpenOrders'', ''/0/private/ClosedOrders''})"

lemma walk_effects:
  assumes "walk_reconciliation env cl_ord_id rs = (rs', r)"
  shows "walks (walk_paths r) rs rs'"
proof (cases "query_orders env ''/0/private/OpenOrders'' cl_ord_id rs")
  case (Pair rs1 q)
  note first = walks_query [OF Pair]
  show ?thesis
  proof (cases "\<exists>opened. q = Inr opened \<and> first_order_in_map opened ''open'' = None")
    case True
    obtain rs2 q2 where q2: "query_orders env ''/0/private/ClosedOrders'' cl_ord_id rs1 = (rs2, q2)" by fastforce
    then have "rs' = rs2" "walk_paths r = {''/0/private/OpenOrders'', ''/0/private/ClosedOrders''}"
      using assms Pair True by (auto simp: walk_reconciliation_def walk_paths_def split: sum.splits option.splits)
    then show ?thesis
      using walks_trans [OF walks_mono [OF first] walks_mono [OF walks_query [OF q2]], of "walk_paths r"] by simp
  next
    case False
    then have "rs' = rs1"
      using assms Pair by (auto simp: walk_reconciliation_def split: sum.splits option.splits)
    moreover have "''/0/private/OpenOrders'' \<in> walk_paths r"
      by (auto simp: walk_paths_def split: sum.split reconciliation_outcome.split lifecycle_position.split)
    ultimately show ?thesis using walks_mono [OF first, of "walk_paths r"] by simp
  qed
qed

text \<open>
  The reconciliation walk reports what it found, once. A walk that ends with an outcome publishes exactly one
  reconciliation event with that client id and outcome, one that fails publishes none; an order found open is
  reported without asking for closed orders, and no other endpoint is called; the order is reported as not placed only when both
  queries succeeded and neither listed an order; the outcome is never \<open>Unknown\<close>.
\<close>

lemma reconciliation_reported_once:
  assumes "find_order_by_cl_ord_id env cl_ord_id rs = (rs', r)"
  shows "(\<exists>es. rs_trace rs' = rs_trace rs @ es \<and>
      List.map_filter reconciled es = (case r of Inr outcome \<Rightarrow> if rs_bus rs then [(cl_ord_id, outcome)] else [] | Inl _ \<Rightarrow> []) \<and>
      list_all (\<lambda>e. set_option (posted_path e) \<subseteq> walk_paths r) es) \<and>
    r \<noteq> Inr ReconcileUnknown \<and>
    (r = Inr NotPlaced \<longrightarrow> (\<exists>rs1 rs2 opened found.
      query_orders env ''/0/private/OpenOrders'' cl_ord_id rs = (rs1, Inr opened) \<and> first_order_in_map opened ''open'' = None \<and>
      query_orders env ''/0/private/ClosedOrders'' cl_ord_id rs1 = (rs2, Inr found) \<and> first_order_in_map found ''closed'' = None))"
proof -
  obtain rs1 where w: "walk_reconciliation env cl_ord_id rs = (rs1, r)"
    and rs': "rs' = (case r of Inl _ \<Rightarrow> rs1 | Inr outcome \<Rightarrow> emit_reconciliation cl_ord_id outcome rs1)"
    using assms by (auto simp: find_order_by_cl_ord_id_def split: prod.splits sum.splits)
  obtain es where es: "rs_trace rs1 = rs_trace rs @ es" "rs_bus rs1 = rs_bus rs"
    "list_all (\<lambda>e. reconciled e = None \<and> set_option (posted_path e) \<subseteq> walk_paths r) es"
    using walk_effects [OF w] by (auto simp: walks_def)
  have "List.map_filter reconciled es = []" using es(3) by (auto simp: map_filter_def filter_empty_conv list_all_iff)
  then have "\<exists>es. rs_trace rs' = rs_trace rs @ es \<and>
      List.map_filter reconciled es = (case r of Inr outcome \<Rightarrow> if rs_bus rs then [(cl_ord_id, outcome)] else [] | Inl _ \<Rightarrow> []) \<and>
      list_all (\<lambda>e. set_option (posted_path e) \<subseteq> walk_paths r) es"
    using es rs' by (cases r) (auto simp: emit_reconciliation_def map_filter_def list_all_iff)
  moreover have "r \<noteq> Inr ReconcileUnknown"
    using w by (auto simp: walk_reconciliation_def split: prod.splits sum.splits option.splits)
  moreover have "r = Inr NotPlaced \<longrightarrow> (\<exists>rs1 rs2 opened found.
      query_orders env ''/0/private/OpenOrders'' cl_ord_id rs = (rs1, Inr opened) \<and> first_order_in_map opened ''open'' = None \<and>
      query_orders env ''/0/private/ClosedOrders'' cl_ord_id rs1 = (rs2, Inr found) \<and> first_order_in_map found ''closed'' = None)"
    using w by (auto simp: walk_reconciliation_def split: prod.splits sum.splits option.splits)
  ultimately show ?thesis by blast
qed

section \<open>The properties on a concrete surface\<close>


text \<open>A concrete surface: one key, a signer, and a server that lists one open order in every answer.\<close>

definition sample_env :: rest_env where
  "sample_env = \<lparr>env_crypto = \<lparr>sha256 = id, hmac_sha512 = \<lambda>k m. Some (k @ m), base64 = id\<rparr>, env_fingerprint = \<lambda>_. ''fp''\<rparr>"

definition sample_answer :: json where
  "sample_answer = JObj [(''result'', JObj [(''open'', JObj [(''T1'', JObj [(''status'', JStr ''open'')])])])]"

definition sample_surface :: rest_surface where
  "sample_surface =
     \<lparr>rs_clock = (\<lambda>_. 0), rs_reads = 0, rs_wall = (\<lambda>_. Some 41), rs_wall_reads = 0, rs_mint = (\<lambda>_. ''id''), rs_minted = 0,
      rs_get = (\<lambda>_. Inr sample_answer), rs_post = (\<lambda>_. Some (Inr sample_answer)), rs_sent = 0,
      rs_auth = \<lparr>au_api_key = Some ''k'', au_otp = None, au_signers = [(SpotV1, \<lparr>s_api_key = ''k'', s_secret = ''s''\<rparr>)], au_nonce = 0\<rparr>,
      rs_api = api_tracker_new Starter (\<lambda>_. 0), rs_trading = with_lru_cap Starter (\<lambda>_. 0) 4, rs_knobs = knobs_defaults,
      rs_engine = from_knobs knobs_defaults 0, rs_request_timeout = secs 10, rs_bus = True, rs_trace = []\<rparr>"

lemma sample_sign:
  "\<exists>sf. sign_form (env_crypto sample_env) (Some 41) SpotV1 path form (rs_auth sample_surface) =
     ((rs_auth sample_surface)\<lparr>au_nonce := 41\<rparr>, Inr sf)"
  by (simp add: sign_form_def sample_surface_def sample_env_def next_nonce_def wall_candidate_def bump_nonce_def
      saturating_add_def max_def sign_def compute_api_sign_def Let_def)

lemma sample_send:
  "\<exists>rs. sign_and_send sample_env path form SpotV1 (rs_tick sample_surface) = (rs, parse_kraken_envelope sample_answer) \<and>
     nonce_of rs = 41"
proof -
  obtain sf where "sign_form (env_crypto sample_env) (Some 41) SpotV1 path form (rs_auth sample_surface) =
     ((rs_auth sample_surface)\<lparr>au_nonce := 41\<rparr>, Inr sf)" using sample_sign by blast
  then show ?thesis
    by (simp add: sign_and_send_def Let_def rs_tick_def)
      (simp add: sample_surface_def)
qed

lemma sample_parses: "parse_kraken_envelope sample_answer = Inr (JObj [(''open'', JObj [(''T1'', JObj [(''status'', JStr ''open'')])])])"
  by code_simp

lemma sample_call:
  "nonce_of (fst (signed_post_costed sample_env path form SpotV1 CostNone idempotent rid sample_surface)) = 41"
proof -
  have "apply_rate_limit sample_env CostNone sample_surface = (rs_tick sample_surface, Inr ())"
    by (simp add: apply_rate_limit_def sample_surface_def)
  then show ?thesis
    using sample_send [of path form]
    by (auto simp: signed_post_costed_def run_retry_loop_def retry_loop.simps signed_post_costed_once_def sample_parses)
qed

theorem retry_budget_respected_witness:
  "\<exists>es. rs_trace (fst (public_get sample_env ''/p'' [] idempotent ''r'' sample_surface)) = es \<and>
     length (filter is_get es) \<le> Suc (length (sleeps es)) \<and> length (sleeps es) \<le> 3 \<and>
     reports es = numbered ''/p'' ''r'' 2 (sleeps es)"
  using retry_budget_respected [of sample_surface idempotent sample_env "''/p''" "[]" SpotV1 CostNone "''r''" "[]"]
  by (simp add: idempotent_def sample_surface_def from_knobs_def knobs_defaults_def)

lemma infinite_cost_rejected: "charge PInf now (counter_new (Fin x) decay now) = (c, r) \<Longrightarrow> r = Exceeded"
proof -
  let ?p = "peek_current now (counter_new (Fin x) decay now)"
  have "?p \<noteq> NInf \<and> ?p \<noteq> NaN" unfolding peek_current_def Let_def by (auto simp: f_max_def split: f64.split)
  then have "f_add ?p PInf = PInf" by (cases ?p) simp_all
  then show "charge PInf now (counter_new (Fin x) decay now) = (c, r) \<Longrightarrow> r = Exceeded"
    by (auto simp: charge_def counter_new_def f_lt_def Let_def split: if_splits)
qed

end
