(* ===== verification/Correlated_Waits.thy ===== *)
theory Correlated_Waits
  imports Wire_Types Json "HOL-Library.Multiset"
begin

text \<open>
  Correlated waits of the event bus, \<open>src/rust/src/dispatch/event_bus\<close>: a caller that awaits the completion of an operation
  registers a one-shot waiter for an event type and a key; a completion that finds no waiter is latched in a bounded
  miss-buffer. Every critical section of the source is one function on the registry, and the steps of concurrent
  subscribers, publishers, cancellations and loop deaths are interleavings of these sections with the firing of
  waiters, which happens outside the lock. Subscriber ids are not bounded. The payload type is a parameter.
\<close>

section \<open>Events\<close>

datatype event_type =
    TyClientReady | TyClientClosedEvent | TyClientFailed | TyDeadmanDisarmFailedEvent
  | TyConnectionConnectingEvent | TyConnectionOpenEvent | TyConnectionSendReadyEvent
  | TyConnectionClosedEvent | TyConnectionReopenedEvent | TyConnectionFailedEvent
  | TyConnectionDroppedEvent | TyConnectionRateThrottledEvent | TyConnectionAttemptFailedEvent
  | TyWebsocketStaleEvent | TyAuthenticationFailedEvent | TyAuthHandshakeFailedEvent
  | TyCredentialRefreshedEvent | TyCredentialRefreshFailedEvent | TyNoncePoisonedEvent
  | TyWsUpgradeOk | TyWsUpgradeFailed | TyWsClosed | TyQueueFullWarning | TyLoopFailedEvent
  | TySlowCallbackWarning | TyQueueDepthSample | TyCallbackLatency | TyRateLimitWarning
  | TyRateLimitExceededEvent | TyRateLimitCacheEvictionEvent | TySubscriptionGapEvent
  | TyOrderBookGapEvent | TyChannelGapEvent | TySubscriptionTerminatedEvent | TyHandlerPanicWarning
  | TyMessageDroppedNoHandler | TyWsRequestFailedEvent | TyConfigChangedEvent | TyConfigResolved
  | TyOrderReconciliationEvent | TyOrderSubmittedEvent | TyOrderPlacementAmbiguousEvent
  | TyOrderCancellationAttempted | TyRestRetryAttempt

datatype queue_name = CallerToIo | IoToDispatch
datatype reactor_name = ReactorIo | ReactorDispatch
datatype loop_failure_cause = LoopPanic | LoopUnhandledError | LoopCancelled
datatype client_failure_cause = ReactorSpawnFailed | ConfigValidationFailed | BusInitFailed | ClientLoopFailed
datatype callback_source = SourceEvent event_type | SourceDataChannel channel_name

datatype 'p bus_payload =
    PayClientFailed client_failure_cause
  | PayQueueFullWarning queue_name u64 nat
  | PayLoopFailed reactor_name loop_failure_cause instant
  | PaySlowCallbackWarning callback_source u64 u32
  | PayQueueDepthSample queue_name nat nat instant
  | PayCallbackLatency callback_source "nat option" u64
  | PayHandlerPanicWarning callback_source nat string
  | PayOther 'p

record 'p envelope =
  ev_type :: event_type
  ev_version :: u16
  ev_time :: instant
  ev_request_id :: "u64 option"
  ev_payload :: "'p bus_payload"

fun downgrade_to :: "u16 \<Rightarrow> 'p bus_payload \<Rightarrow> 'p bus_payload" where
  "downgrade_to v (PayCallbackLatency src h us) = (if v \<le> 1 then PayCallbackLatency src None us else PayCallbackLatency src h us)"
| "downgrade_to v p = p"

section \<open>The registry and its critical sections\<close>

type_synonym wait_key = "event_type \<times> u64"

record waiter =
  w_handle :: nat
  w_max_version :: u16

record 'p registry =
  rg_live :: "(wait_key, waiter list) hashmap"
  rg_missed :: "(wait_key \<times> 'p envelope) list"
  rg_missed_cap :: nat
  rg_death_committed :: bool
  rg_death_purged :: bool

definition CORRELATED_MISS_BUFFER_CAP :: nat where
  "CORRELATED_MISS_BUFFER_CAP = 256"

definition new_correlated :: "nat \<Rightarrow> 'p registry" where
  "new_correlated cap = \<lparr>rg_live = [], rg_missed = [], rg_missed_cap = cap, rg_death_committed = False, rg_death_purged = False\<rparr>"

definition latch_missed :: "wait_key \<Rightarrow> 'p envelope \<Rightarrow> 'p registry \<Rightarrow> 'p registry" where
  "latch_missed key e r =
     r\<lparr>rg_missed := (if length (rg_missed r) \<ge> rg_missed_cap r then tl (rg_missed r) else rg_missed r) @ [(key, e)]\<rparr>"

fun take_first :: "wait_key \<Rightarrow> (wait_key \<times> 'e) list \<Rightarrow> (wait_key \<times> 'e) list \<times> 'e option" where
  "take_first key [] = ([], None)"
| "take_first key ((k, e) # m) =
     (if k = key then (m, Some e) else (case take_first key m of (m', r) \<Rightarrow> ((k, e) # m', r)))"

definition take_missed :: "wait_key \<Rightarrow> 'p registry \<Rightarrow> 'p registry \<times> 'p envelope option" where
  "take_missed key r = (case take_first key (rg_missed r) of (m, e) \<Rightarrow> (r\<lparr>rg_missed := m\<rparr>, e))"

definition live_waiters :: "wait_key \<Rightarrow> 'p registry \<Rightarrow> waiter list" where
  "live_waiters key r = (case hm_get (rg_live r) key of None \<Rightarrow> [] | Some ws \<Rightarrow> ws)"

text \<open>The locked part of \<open>subscribe_correlated\<close>: consume a latched completion or register the waiter.\<close>

definition subscribe_section :: "wait_key \<Rightarrow> waiter \<Rightarrow> 'p registry \<Rightarrow> 'p registry \<times> 'p envelope option" where
  "subscribe_section key w r =
     (case take_missed key r of
        (r', Some e) \<Rightarrow> (r', Some e)
      | (r', None) \<Rightarrow> (r'\<lparr>rg_live := hm_insert key (live_waiters key r' @ [w]) (rg_live r')\<rparr>, None))"

text \<open>Remove the waiters of the key, or latch the completion when there is no entry for it.\<close>

definition take_or_latch :: "wait_key \<Rightarrow> 'p envelope \<Rightarrow> 'p registry \<Rightarrow> 'p registry \<times> waiter list" where
  "take_or_latch key e r =
     (case hm_get (rg_live r) key of
        Some ws \<Rightarrow> (r\<lparr>rg_live := hm_remove key (rg_live r)\<rparr>, ws)
      | None \<Rightarrow> (latch_missed key e r, []))"

definition deliver_section :: "u64 \<Rightarrow> 'p envelope \<Rightarrow> 'p registry \<Rightarrow> 'p registry \<times> waiter list" where
  "deliver_section key e r =
     (if rg_death_committed r \<and> ev_type e \<notin> {TyClientFailed, TyLoopFailedEvent} then (r, [])
      else take_or_latch (ev_type e, key) e r)"

definition relatch_section :: "u64 \<Rightarrow> 'p envelope \<Rightarrow> 'p registry \<Rightarrow> 'p registry \<times> waiter list" where
  "relatch_section key e r = (if rg_death_purged r then (r, []) else take_or_latch (ev_type e, key) e r)"

definition unsubscribe_section :: "nat \<Rightarrow> 'p registry \<Rightarrow> 'p registry" where
  "unsubscribe_section h r =
     r\<lparr>rg_live := filter (\<lambda>(_, ws). ws \<noteq> []) (map (\<lambda>(k, ws). (k, filter (\<lambda>w. w_handle w \<noteq> h) ws)) (rg_live r))\<rparr>"

definition commit_death :: "bool \<Rightarrow> 'p registry \<Rightarrow> 'p registry" where
  "commit_death shutting_down r =
     (if shutting_down then r\<lparr>rg_death_committed := True\<rparr>
      else r\<lparr>rg_death_committed := True, rg_missed := [], rg_death_purged := True\<rparr>)"

definition drain_live :: "'p registry \<Rightarrow> 'p registry \<times> (wait_key \<times> waiter) list" where
  "drain_live r = (r\<lparr>rg_live := []\<rparr>, concat (map (\<lambda>(k, ws). map (Pair k) ws) (rg_live r)))"

text \<open>Whether a waiter is called at all; one that is may still decline or panic.\<close>

definition fires :: "'p envelope \<Rightarrow> waiter \<Rightarrow> bool" where
  "fires e w \<longleftrightarrow> ev_version e \<le> w_max_version w"

section \<open>Concurrent steps\<close>

text \<open>
  A flight is a completion whose waiters have been removed from the registry and are being fired by
  some thread. The last four fields are history: what was delivered, what a waiter accepted, what was given up and the handles of the
  waiters resolved.
\<close>

record 'p flight =
  fl_event :: "'p envelope"
  fl_waiters :: "waiter list"
  fl_accepted :: bool

datatype loss = Evicted | Purged | BehindDeath

record 'p cw_state =
  cw_registry :: "'p registry"
  cw_next :: nat
  cw_flights :: "'p flight list"
  cw_dying :: "(wait_key \<times> waiter) list"
  cw_delivered :: "'p envelope multiset"
  cw_accepted :: "'p envelope multiset"
  cw_lost :: "('p envelope \<times> loss) multiset"
  cw_resolved :: "nat list"

definition cw_init :: "nat \<Rightarrow> 'p cw_state" where
  "cw_init cap = \<lparr>cw_registry = new_correlated cap, cw_next = 1, cw_flights = [], cw_dying = [], cw_delivered = {#},
     cw_accepted = {#}, cw_lost = {#}, cw_resolved = []\<rparr>"

text \<open>What latching a completion evicts from the miss-buffer.\<close>

definition evicted :: "'p registry \<Rightarrow> ('p envelope \<times> loss) multiset" where
  "evicted r = (if length (rg_missed r) \<ge> rg_missed_cap r then mset (map (\<lambda>(_, e). (e, Evicted)) (take 1 (rg_missed r))) else {#})"

definition enter_flight :: "'p envelope \<Rightarrow> waiter list \<Rightarrow> 'p flight list" where
  "enter_flight e ws = (if ws = [] then [] else [\<lparr>fl_event = e, fl_waiters = ws, fl_accepted = False\<rparr>])"

definition behind_death :: "'p envelope \<Rightarrow> 'p registry \<Rightarrow> bool" where
  "behind_death e r \<longleftrightarrow> rg_death_committed r \<and> ev_type e \<notin> {TyClientFailed, TyLoopFailedEvent}"

definition given_up :: "bool \<Rightarrow> wait_key \<Rightarrow> 'p envelope \<Rightarrow> 'p registry \<Rightarrow> ('p envelope \<times> loss) multiset" where
  "given_up dead key e r =
     (if dead then {#(e, BehindDeath)#} else if hm_get (rg_live r) key = None then evicted r else {#})"

definition cw_subscribe :: "wait_key \<Rightarrow> 'p cw_state \<Rightarrow> 'p cw_state" where
  "cw_subscribe key s =
     (let w = \<lparr>w_handle = cw_next s, w_max_version = - 1\<rparr>; (r, found) = subscribe_section key w (cw_registry s)
      in s\<lparr>cw_registry := r, cw_next := Suc (cw_next s),
           cw_flights := cw_flights s @ (case found of None \<Rightarrow> [] | Some e \<Rightarrow> enter_flight e [w])\<rparr>)"

definition cw_deliver :: "u64 \<Rightarrow> 'p envelope \<Rightarrow> 'p cw_state \<Rightarrow> 'p cw_state" where
  "cw_deliver key e s =
     (let (r, ws) = deliver_section key e (cw_registry s)
      in s\<lparr>cw_registry := r, cw_flights := cw_flights s @ enter_flight e ws, cw_delivered := add_mset e (cw_delivered s),
           cw_lost := cw_lost s + given_up (behind_death e (cw_registry s)) (ev_type e, key) e (cw_registry s)\<rparr>)"

definition cw_relatch :: "'p envelope \<Rightarrow> 'p cw_state \<Rightarrow> 'p cw_state" where
  "cw_relatch e s =
     (case ev_request_id e of
        None \<Rightarrow> s
      | Some key \<Rightarrow>
          (let (r, ws) = relatch_section key e (cw_registry s)
           in s\<lparr>cw_registry := r, cw_flights := cw_flights s @ enter_flight e ws,
                cw_lost := cw_lost s + given_up (rg_death_purged (cw_registry s)) (ev_type e, key) e (cw_registry s)\<rparr>))"

definition cw_fire :: "bool \<Rightarrow> waiter \<Rightarrow> 'p flight \<Rightarrow> 'p flight" where
  "cw_fire accepts w f = f\<lparr>fl_waiters := tl (fl_waiters f), fl_accepted := fl_accepted f \<or> (fires (fl_event f) w \<and> accepts)\<rparr>"

definition cw_commit_death :: "bool \<Rightarrow> 'p cw_state \<Rightarrow> 'p cw_state" where
  "cw_commit_death shutting_down s =
     s\<lparr>cw_registry := commit_death shutting_down (cw_registry s),
       cw_lost := cw_lost s + (if shutting_down then {#} else mset (map (\<lambda>(_, e). (e, Purged)) (rg_missed (cw_registry s))))\<rparr>"

definition cw_drain :: "'p cw_state \<Rightarrow> 'p cw_state" where
  "cw_drain s = (case drain_live (cw_registry s) of (r, ws) \<Rightarrow> s\<lparr>cw_registry := r, cw_dying := cw_dying s @ ws\<rparr>)"

inductive cw_step :: "'p cw_state \<Rightarrow> 'p cw_state \<Rightarrow> bool" where
  subscribe: "cw_step s (cw_subscribe key s)"
| deliver: "ev_request_id e = Some key \<Longrightarrow> cw_step s (cw_deliver key e s)"
| fire: "cw_flights s = fs @ f # gs \<Longrightarrow> fl_waiters f = w # ws \<Longrightarrow>
    cw_step s (s\<lparr>cw_flights := fs @ cw_fire accepts w f # gs, cw_resolved := cw_resolved s @ [w_handle w]\<rparr>)"
| settle: "cw_flights s = fs @ f # gs \<Longrightarrow> fl_waiters f = [] \<Longrightarrow> fl_accepted f \<Longrightarrow>
    cw_step s (s\<lparr>cw_flights := fs @ gs, cw_accepted := add_mset (fl_event f) (cw_accepted s)\<rparr>)"
| relatch: "cw_flights s = fs @ f # gs \<Longrightarrow> fl_waiters f = [] \<Longrightarrow> \<not> fl_accepted f \<Longrightarrow>
    cw_step s (cw_relatch (fl_event f) (s\<lparr>cw_flights := fs @ gs\<rparr>))"
| unsubscribe: "cw_step s (s\<lparr>cw_registry := unsubscribe_section h (cw_registry s)\<rparr>)"
| die: "cw_step s (cw_commit_death shutting_down s)"
| drain: "rg_death_committed (cw_registry s) \<Longrightarrow> cw_step s (cw_drain s)"
| dying: "cw_dying s = (key, w) # rest \<Longrightarrow>
    cw_step s (s\<lparr>cw_dying := rest, cw_resolved := cw_resolved s @ [w_handle w]\<rparr>)"

inductive_cases cw_stepE: "cw_step s s'"

section \<open>No completion is lost, no waiter is resolved twice\<close>

definition reg_ok :: "'p registry \<Rightarrow> bool" where
  "reg_ok r \<longleftrightarrow> hm_inv (rg_live r) \<and> (\<forall>k. hm_get (rg_live r) k \<noteq> Some []) \<and>
     (\<forall>(k, e) \<in> set (rg_missed r). hm_get (rg_live r) k = None \<and> (\<exists>c. ev_request_id e = Some c \<and> k = (ev_type e, c))) \<and>
     length (rg_missed r) \<le> max (rg_missed_cap r) 1 \<and> (rg_death_purged r \<longrightarrow> rg_death_committed r)"

definition waiting :: "(wait_key, waiter list) hashmap \<Rightarrow> nat multiset" where
  "waiting m = mset (map w_handle (concat (map snd m)))"

definition handles :: "'p cw_state \<Rightarrow> nat multiset" where
  "handles s = mset (cw_resolved s) + mset (map (w_handle \<circ> snd) (cw_dying s)) +
     mset (map w_handle (concat (map fl_waiters (cw_flights s)))) + waiting (rg_live (cw_registry s))"

definition latched :: "'p registry \<Rightarrow> 'p envelope multiset" where
  "latched r = mset (map snd (rg_missed r))"

definition conserved :: "'p cw_state \<Rightarrow> bool" where
  "conserved s \<longleftrightarrow> cw_delivered s =
     cw_accepted s + mset (map fl_event (cw_flights s)) + latched (cw_registry s) + image_mset fst (cw_lost s)"

definition losses_ok :: "'p cw_state \<Rightarrow> bool" where
  "losses_ok s \<longleftrightarrow> (\<forall>(e, l) \<in># cw_lost s.
     if l = Evicted then rg_missed_cap (cw_registry s) < size (cw_delivered s) else rg_death_committed (cw_registry s))"

definition cw_inv :: "'p cw_state \<Rightarrow> bool" where
  "cw_inv s \<longleftrightarrow> reg_ok (cw_registry s) \<and> (\<forall>f \<in> set (cw_flights s). ev_request_id (fl_event f) \<noteq> None) \<and>
     (\<forall>h. count (handles s) h \<le> 1) \<and> (\<forall>h \<in># handles s. h < cw_next s) \<and> conserved s \<and> losses_ok s"

lemma waiting_simps [simp]:
  "waiting [] = {#}" "waiting ((k, ws) # m) = mset (map w_handle ws) + waiting m"
  by (simp_all add: waiting_def)

lemma waiting_remove: "hm_inv m \<Longrightarrow> hm_get m k = Some ws \<Longrightarrow> waiting m = waiting (hm_remove k m) + mset (map w_handle ws)"
  by (induction m) (auto simp: hm_inv_def AList.delete_simps split: if_splits)

lemma waiting_insert:
  "waiting (hm_insert k ((case hm_get m k of None \<Rightarrow> [] | Some ws \<Rightarrow> ws) @ [w]) m) = add_mset (w_handle w) (waiting m)"
  by (induction m) auto

lemma waiting_filter: "waiting (map (\<lambda>(k, ws). (k, filter P ws)) m) \<subseteq># waiting m"
  by (induction m) (auto intro!: subset_mset.add_mono simp: multiset_filter_mono[OF subset_mset.order_refl] image_mset_subseteq_mono)

lemma waiting_nonempty: "waiting (filter (\<lambda>(_, ws). ws \<noteq> []) m) = waiting m"
  by (induction m) auto

lemma waiting_drained: "mset (map (w_handle \<circ> snd) (concat (map (\<lambda>(k, ws). map (Pair k) ws) m))) = waiting m"
  by (induction m) (auto simp: comp_def multiset.map_comp)

lemma take_first_spec:
  "take_first k m = (m', None) \<Longrightarrow> m' = m \<and> k \<notin> fst ` set m"
  "take_first k m = (m', Some e) \<Longrightarrow> (k, e) \<in> set m \<and> mset m = add_mset (k, e) (mset m')"
  by (induction m arbitrary: m' rule: take_first.induct) (auto split: if_splits prod.splits)


lemma reg_ok_live: "reg_ok r \<Longrightarrow> hm_get (rg_live r) k = Some ws \<Longrightarrow> ws \<noteq> []"
  by (cases k) (auto simp: reg_ok_def)

lemma latch_missed_effects:
  "rg_live (latch_missed k e r) = rg_live r" "rg_missed_cap (latch_missed k e r) = rg_missed_cap r"
  "rg_death_committed (latch_missed k e r) = rg_death_committed r" "rg_death_purged (latch_missed k e r) = rg_death_purged r"
  "latched (latch_missed k e r) + image_mset fst (evicted r) = add_mset e (latched r)"
  by (cases "rg_missed r"; auto simp: latch_missed_def latched_def evicted_def)+

lemma latch_missed_ok:
  assumes "reg_ok r" "hm_get (rg_live r) (ev_type e, c) = None" "ev_request_id e = Some c"
  shows "reg_ok (latch_missed (ev_type e, c) e r)"
  using assms list.set_sel(2)[of "rg_missed r"]
  by (cases "rg_missed r") (auto simp: reg_ok_def latch_missed_def)

lemma take_or_latch_effects:
  assumes "take_or_latch (ev_type e, c) e r = (r', ws)" "reg_ok r" "ev_request_id e = Some c"
  shows "reg_ok r'" "rg_missed_cap r' = rg_missed_cap r" "rg_death_committed r' = rg_death_committed r"
    "waiting (rg_live r) = waiting (rg_live r') + mset (map w_handle ws)"
    "latched r' + mset (map fl_event (enter_flight e ws)) + image_mset fst (given_up False (ev_type e, c) e r) =
       add_mset e (latched r)"
proof -
  have "reg_ok r' \<and> rg_missed_cap r' = rg_missed_cap r \<and> rg_death_committed r' = rg_death_committed r \<and>
    waiting (rg_live r) = waiting (rg_live r') + mset (map w_handle ws) \<and>
    latched r' + mset (map fl_event (enter_flight e ws)) + image_mset fst (given_up False (ev_type e, c) e r) = add_mset e (latched r)"
  proof (cases "hm_get (rg_live r) (ev_type e, c)")
    case None
    then show ?thesis
      using assms latch_missed_effects[of "(ev_type e, c)" e r]
      by (auto simp: take_or_latch_def given_up_def enter_flight_def latch_missed_ok)
  next
    case (Some vs)
    then have "r' = r\<lparr>rg_live := hm_remove (ev_type e, c) (rg_live r)\<rparr>" "ws = vs" "vs \<noteq> []"
      using assms reg_ok_live by (auto simp: take_or_latch_def)
    moreover from this Some assms(2) have "reg_ok r'"
      by (fastforce simp: reg_ok_def hm_simps)
    ultimately show ?thesis
      using Some assms waiting_remove[of "rg_live r" "(ev_type e, c)" vs]
      by (auto simp: given_up_def enter_flight_def latched_def reg_ok_def)
  qed
  then show "reg_ok r'" "rg_missed_cap r' = rg_missed_cap r" "rg_death_committed r' = rg_death_committed r"
    "waiting (rg_live r) = waiting (rg_live r') + mset (map w_handle ws)"
    "latched r' + mset (map fl_event (enter_flight e ws)) + image_mset fst (given_up False (ev_type e, c) e r) = add_mset e (latched r)"
    by auto
qed

lemma evicted_full: "x \<in># given_up False k e r \<Longrightarrow> snd x = Evicted \<and> rg_missed_cap r \<le> size (latched r)"
  by (auto simp: given_up_def evicted_def latched_def split: if_splits)

lemma enter_flight_waiters [simp]: "concat (map fl_waiters (enter_flight e ws)) = ws"
  by (simp add: enter_flight_def)


lemma given_up_dead: "given_up True k e r = {#(e, BehindDeath)#}"
  by (simp add: given_up_def)

lemma enter_flight_Nil [simp]: "enter_flight e [] = []"
  by (simp add: enter_flight_def)

text \<open>A completion is handed to the waiters of its key, latched, or refused behind a death: the part that \<open>deliver_correlated\<close> and \<open>relatch_correlated\<close> share.\<close>

lemma route_effects:
  assumes "(if dead then (r, []) else take_or_latch (ev_type e, c) e r) = (r', ws)" "reg_ok r" "ev_request_id e = Some c"
    "dead \<Longrightarrow> rg_death_committed r"
  shows "reg_ok r'" "rg_missed_cap r' = rg_missed_cap r" "rg_death_committed r' = rg_death_committed r"
    "waiting (rg_live r) = waiting (rg_live r') + mset (map w_handle ws)"
    "latched r' + mset (map fl_event (enter_flight e ws)) + image_mset fst (given_up dead (ev_type e, c) e r) =
       add_mset e (latched r)"
    "(x, l) \<in># given_up dead (ev_type e, c) e r \<Longrightarrow> if l = Evicted then rg_missed_cap r \<le> size (latched r) else rg_death_committed r"
proof -
  have dead: "dead \<Longrightarrow> r' = r \<and> ws = []" and alive: "\<not> dead \<Longrightarrow> take_or_latch (ev_type e, c) e r = (r', ws)"
    using assms(1) by simp_all
  note live = take_or_latch_effects[OF alive assms(2,3)]
  show "reg_ok r'" "rg_missed_cap r' = rg_missed_cap r" "rg_death_committed r' = rg_death_committed r"
    using dead live(1-3) assms(2) by (cases dead; simp)+
  show "waiting (rg_live r) = waiting (rg_live r') + mset (map w_handle ws)"
    using dead live(4) by (cases dead) simp_all
  show "latched r' + mset (map fl_event (enter_flight e ws)) + image_mset fst (given_up dead (ev_type e, c) e r) = add_mset e (latched r)"
    using dead live(5) by (cases dead) (simp_all add: given_up_dead)
  show "(x, l) \<in># given_up dead (ev_type e, c) e r \<Longrightarrow> if l = Evicted then rg_missed_cap r \<le> size (latched r) else rg_death_committed r"
    using assms(4) evicted_full[of "(x, l)" "(ev_type e, c)" e r] by (cases dead) (auto simp: given_up_dead)
qed

lemma enter_flight_keyed: "f \<in> set (enter_flight e ws) \<Longrightarrow> fl_event f = e"
  by (auto simp: enter_flight_def split: if_splits)

lemma cw_deliver_inv:
  assumes "cw_inv s" "ev_request_id e = Some c"
  shows "cw_inv (cw_deliver c e s)"
proof -
  let ?dead = "behind_death e (cw_registry s)"
  obtain r ws where d: "deliver_section c e (cw_registry s) = (r, ws)" by fastforce
  then have route: "(if ?dead then (cw_registry s, []) else take_or_latch (ev_type e, c) e (cw_registry s)) = (r, ws)"
    by (simp add: deliver_section_def behind_death_def)
  have reg: "reg_ok (cw_registry s)" and dead: "?dead \<Longrightarrow> rg_death_committed (cw_registry s)"
    using assms by (auto simp: cw_inv_def behind_death_def)
  note eff = route_effects[OF route reg assms(2) dead]
  have "conserved (cw_deliver c e s)"
    using assms eff(5) by (auto simp: cw_inv_def conserved_def cw_deliver_def d ac_simps)
  moreover have "losses_ok (cw_deliver c e s)"
    using assms eff(2,3) eff(6)
    by (fastforce simp: cw_inv_def conserved_def losses_ok_def cw_deliver_def d split: if_splits)
  moreover have "handles (cw_deliver c e s) = handles s"
    using eff(4) by (simp add: handles_def cw_deliver_def d)
  ultimately show ?thesis
    using assms eff(1) enter_flight_keyed[of _ e ws] by (auto simp: cw_inv_def cw_deliver_def d)
qed

lemma cw_relatch_inv:
  assumes "cw_inv s" "cw_flights s = fs @ f # gs" "fl_waiters f = []"
  shows "cw_inv (cw_relatch (fl_event f) (s\<lparr>cw_flights := fs @ gs\<rparr>))"
proof -
  let ?dead = "rg_death_purged (cw_registry s)" and ?e = "fl_event f" and ?t = "s\<lparr>cw_flights := fs @ gs\<rparr>"
  obtain c where c: "ev_request_id ?e = Some c" using assms by (auto simp: cw_inv_def)
  obtain r ws where d: "relatch_section c ?e (cw_registry s) = (r, ws)" by fastforce
  then have route: "(if ?dead then (cw_registry s, []) else take_or_latch (ev_type ?e, c) ?e (cw_registry s)) = (r, ws)"
    by (simp add: relatch_section_def)
  have reg: "reg_ok (cw_registry s)" and dead: "?dead \<Longrightarrow> rg_death_committed (cw_registry s)"
    using assms by (auto simp: cw_inv_def reg_ok_def)
  note eff = route_effects[OF route reg c dead]
  have "conserved (cw_relatch ?e ?t)"
    using assms eff(5) by (auto simp: cw_inv_def conserved_def cw_relatch_def c d ac_simps)
  moreover have "losses_ok (cw_relatch ?e ?t)"
    using assms eff(2,3) eff(6)
    by (fastforce simp: cw_inv_def conserved_def losses_ok_def cw_relatch_def c d split: if_splits)
  moreover have "handles (cw_relatch ?e ?t) = handles s"
    using eff(4) assms by (simp add: handles_def cw_relatch_def c d)
  ultimately show ?thesis
    using assms eff(1) c enter_flight_keyed[of _ ?e ws] by (auto simp: cw_inv_def cw_relatch_def d)
qed


lemma reg_ok_fewer: "reg_ok r \<Longrightarrow> set m \<subseteq> set (rg_missed r) \<Longrightarrow> length m \<le> length (rg_missed r) \<Longrightarrow> reg_ok (r\<lparr>rg_missed := m\<rparr>)"
  unfolding reg_ok_def by (simp del: split_paired_All) (blast intro: le_trans)

lemma subscribe_section_effects:
  assumes "subscribe_section k w r = (r', found)" "reg_ok r"
  shows "reg_ok r'" "rg_missed_cap r' = rg_missed_cap r" "rg_death_committed r' = rg_death_committed r"
    "add_mset (w_handle w) (waiting (rg_live r)) =
       waiting (rg_live r') + (if found = None then {#} else {#w_handle w#})"
    "latched r = latched r' + (case found of None \<Rightarrow> {#} | Some e \<Rightarrow> {#e#})"
    "found = Some e \<Longrightarrow> ev_request_id e \<noteq> None"
proof -
  obtain m x where t: "take_first k (rg_missed r) = (m, x)" by fastforce
  have none: "r' = r\<lparr>rg_missed := rg_missed r, rg_live := hm_insert k (live_waiters k r @ [w]) (rg_live r)\<rparr>"
    "found = None" "k \<notin> fst ` set (rg_missed r)" if "x = None"
    using t that assms(1) take_first_spec(1)[of k "rg_missed r" m]
    by (auto simp: subscribe_section_def take_missed_def live_waiters_def)
  have some: "r' = r\<lparr>rg_missed := m\<rparr>" "found = Some y" "(k, y) \<in> set (rg_missed r)"
    "mset (rg_missed r) = add_mset (k, y) (mset m)" if "x = Some y" for y
    using t that assms(1) take_first_spec(2)[of k "rg_missed r" m y]
    by (auto simp: subscribe_section_def take_missed_def)
  have sub: "set m \<subseteq> set (rg_missed r) \<and> length m \<le> length (rg_missed r)" if "x = Some y" for y
    using arg_cong[OF some(4)[OF that], of set_mset] arg_cong[OF some(4)[OF that], of size] by auto
  show "reg_ok r'"
  proof (cases x)
    case None
    then show ?thesis using assms(2) none(3) by (auto simp: none(1) reg_ok_def hm_simps) force+
  next
    case (Some y)
    then show ?thesis using assms(2) sub[OF Some] by (simp add: some(1) reg_ok_fewer)
  qed
  show "rg_missed_cap r' = rg_missed_cap r" "rg_death_committed r' = rg_death_committed r"
    using none(1) some(1) by (cases x; simp)+
  show "add_mset (w_handle w) (waiting (rg_live r)) = waiting (rg_live r') + (if found = None then {#} else {#w_handle w#})"
    using none(1,2) some(1,2) waiting_insert[of k "rg_live r" w] by (cases x) (simp_all add: live_waiters_def)
  show "latched r = latched r' + (case found of None \<Rightarrow> {#} | Some e \<Rightarrow> {#e#})"
    using none(1,2) some(1,2,4) by (cases x) (simp_all add: latched_def)
  show "found = Some e \<Longrightarrow> ev_request_id e \<noteq> None"
    using none(2) some(2,3) assms(2) by (cases x) (auto simp: reg_ok_def)
qed

lemma cw_subscribe_inv:
  assumes "cw_inv s"
  shows "cw_inv (cw_subscribe k s)"
proof -
  let ?w = "\<lparr>w_handle = cw_next s, w_max_version = - 1\<rparr>"
  obtain r found where d: "subscribe_section k ?w (cw_registry s) = (r, found)" by fastforce
  have reg: "reg_ok (cw_registry s)" using assms by (simp add: cw_inv_def)
  note eff = subscribe_section_effects[OF d reg]
  have "conserved (cw_subscribe k s)"
    using assms eff(5) by (cases found) (auto simp: cw_inv_def conserved_def cw_subscribe_def d enter_flight_def)
  moreover have "losses_ok (cw_subscribe k s)"
    using assms eff(2,3) by (auto simp: cw_inv_def losses_ok_def cw_subscribe_def d)
  moreover have h: "handles (cw_subscribe k s) = add_mset (cw_next s) (handles s)"
    using eff(4) by (cases found) (simp_all add: handles_def cw_subscribe_def d)
  moreover have "count (handles s) (cw_next s) = 0"
    using assms by (auto simp: cw_inv_def count_eq_zero_iff)
  moreover have "cw_next (cw_subscribe k s) = Suc (cw_next s)" by (simp add: cw_subscribe_def d)
  ultimately show ?thesis
    using assms eff(1,6) enter_flight_keyed
    by (cases found) (fastforce simp: cw_inv_def cw_subscribe_def d less_Suc_eq)+
qed

lemma cw_inv_fewer_handles:
  "cw_inv s \<Longrightarrow> handles t \<subseteq># handles s \<Longrightarrow> cw_next t = cw_next s \<Longrightarrow> reg_ok (cw_registry t) \<Longrightarrow>
   (\<And>f. f \<in> set (cw_flights t) \<Longrightarrow> ev_request_id (fl_event f) \<noteq> None) \<Longrightarrow> conserved t \<Longrightarrow> losses_ok t \<Longrightarrow> cw_inv t"
  unfolding cw_inv_def by (auto dest: mset_subset_eqD intro: le_trans[OF mset_subset_eq_count])

lemma unsubscribe_section_ok: "reg_ok r \<Longrightarrow> reg_ok (unsubscribe_section h r)"
proof -
  assume r: "reg_ok r"
  let ?m = "map (\<lambda>(k, ws). (k, filter (\<lambda>w. w_handle w \<noteq> h) ws)) (rg_live r)"
  have keys: "map fst ?m = map fst (rg_live r)" by (induction "rg_live r") auto
  have inv: "hm_inv (filter (\<lambda>(_, ws). ws \<noteq> []) ?m)"
    using r unfolding hm_inv_def reg_ok_def by (intro distinct_map_filter) (simp only: keys)
  have "hm_get (filter (\<lambda>(_, ws). ws \<noteq> []) ?m) k \<noteq> Some []" for k
    by (auto dest: map_of_SomeD)
  moreover have "hm_get (filter (\<lambda>(_, ws). ws \<noteq> []) ?m) k = None" if "hm_get (rg_live r) k = None" for k
    using that by (force simp: map_of_eq_None_iff)
  ultimately show ?thesis
    using r inv unfolding reg_ok_def unsubscribe_section_def by fastforce
qed

lemma cw_step_inv:
  assumes "cw_step s t" "cw_inv s"
  shows "cw_inv t"
  using assms
proof (cases rule: cw_step.cases)
  case (fire fs f gs w ws accepts)
  then show ?thesis using assms(2)
    by (intro cw_inv_fewer_handles[OF assms(2)]) (auto simp: cw_fire_def cw_inv_def handles_def conserved_def losses_ok_def)
next
  case (settle fs f gs)
  then show ?thesis using assms(2)
    by (intro cw_inv_fewer_handles[OF assms(2)]) (auto simp: cw_inv_def handles_def conserved_def losses_ok_def)
next
  case (unsubscribe h)
  have "waiting (rg_live (unsubscribe_section h (cw_registry s))) \<subseteq># waiting (rg_live (cw_registry s))"
    using waiting_filter[of "\<lambda>w. w_handle w \<noteq> h"] by (simp add: unsubscribe_section_def waiting_nonempty)
  then show ?thesis using unsubscribe assms(2) unsubscribe_section_ok[of "cw_registry s" h]
    by (intro cw_inv_fewer_handles[OF assms(2)])
       (auto simp: cw_inv_def handles_def conserved_def losses_ok_def latched_def unsubscribe_section_def)
next
  case (die sd)
  then show ?thesis using assms(2)
    by (intro cw_inv_fewer_handles[OF assms(2)])
       (auto simp: cw_inv_def handles_def conserved_def losses_ok_def latched_def cw_commit_death_def commit_death_def reg_ok_def
          multiset.map_comp comp_def case_prod_beta split: if_splits)
next
  case drain
  then show ?thesis using assms(2)
    by (intro cw_inv_fewer_handles[OF assms(2)])
       (auto simp: cw_inv_def handles_def conserved_def losses_ok_def latched_def cw_drain_def drain_live_def reg_ok_def waiting_drained[simplified])
next
  case (dying k w rest)
  then show ?thesis using assms(2)
    by (intro cw_inv_fewer_handles[OF assms(2)]) (auto simp: cw_inv_def handles_def conserved_def losses_ok_def)
qed (auto intro: cw_subscribe_inv cw_deliver_inv cw_relatch_inv)


lemma cw_init_inv: "cw_inv (cw_init cap)"
  by (simp add: cw_inv_def cw_init_def new_correlated_def reg_ok_def handles_def conserved_def latched_def losses_ok_def)

lemma cw_reachable_inv: "cw_step\<^sup>*\<^sup>* (cw_init cap) s \<Longrightarrow> cw_inv s \<and> rg_missed_cap (cw_registry s) = cap"
proof (induction rule: rtranclp_induct)
  case base
  show ?case by (simp add: cw_init_inv) (simp add: cw_init_def new_correlated_def)
next
  case (step s t)
  have "rg_missed_cap (cw_registry t) = rg_missed_cap (cw_registry s)"
    using step.hyps(2)
    by (cases rule: cw_step.cases)
       (auto simp: cw_subscribe_def cw_deliver_def cw_relatch_def cw_commit_death_def cw_drain_def subscribe_section_def take_missed_def
          deliver_section_def relatch_section_def take_or_latch_def latch_missed_effects unsubscribe_section_def commit_death_def
          drain_live_def Let_def split: option.splits prod.splits if_splits)
  then show ?case using step cw_step_inv[OF step.hyps(2)] by simp
qed

text \<open>
  Property C3. At every moment of every interleaving of subscribers, publishers, cancellations and loop deaths, each
  completion delivered is accounted for exactly once: accepted by a waiter, being fired, latched for a later
  subscriber, or given up; and it is given up only behind a committed loop death, or evicted
  after more completions than the miss-buffer holds.
\<close>

theorem completions_conserved:
  assumes "cw_step\<^sup>*\<^sup>* (cw_init cap) s"
  shows "cw_delivered s = cw_accepted s + mset (map fl_event (cw_flights s)) +
      mset (map snd (rg_missed (cw_registry s))) + image_mset fst (cw_lost s) \<and>
    (\<not> rg_death_committed (cw_registry s) \<and> size (cw_delivered s) \<le> cap \<longrightarrow> cw_lost s = {#})"
proof -
  have inv: "conserved s" "losses_ok s" "rg_missed_cap (cw_registry s) = cap"
    using cw_reachable_inv[OF assms] by (auto simp: cw_inv_def)
  have "cw_lost s = {#}" if "\<not> rg_death_committed (cw_registry s)" "size (cw_delivered s) \<le> cap"
  proof (rule ccontr)
    assume "cw_lost s \<noteq> {#}"
    then obtain e l where "(e, l) \<in># cw_lost s" by (metis multiset_nonemptyE surj_pair)
    with inv(2) have "if l = Evicted then cap < size (cw_delivered s) else rg_death_committed (cw_registry s)"
      unfolding losses_ok_def inv(3) by blast
    with that show False by (simp split: if_splits)
  qed
  with inv show ?thesis by (auto simp: conserved_def latched_def)
qed

text \<open>
  Property C28. No wake-up is lost to the race between a completion and its subscriber: a key never has
  a registered waiter and a latched completion at the same time, no key is left with an empty waiter list, and the
  miss-buffer stays within its bound.
\<close>

theorem no_lost_wakeup:
  assumes "cw_step\<^sup>*\<^sup>* (cw_init cap) s"
  shows "(\<forall>k. hm_get (rg_live (cw_registry s)) k \<noteq> None \<longrightarrow>
      live_waiters k (cw_registry s) \<noteq> [] \<and> k \<notin> fst ` set (rg_missed (cw_registry s))) \<and>
    length (rg_missed (cw_registry s)) \<le> max cap 1"
proof -
  have reg: "reg_ok (cw_registry s)" "rg_missed_cap (cw_registry s) = cap"
    using cw_reachable_inv[OF assms] by (auto simp: cw_inv_def)
  have "live_waiters k (cw_registry s) \<noteq> [] \<and> k \<notin> fst ` set (rg_missed (cw_registry s))"
    if "hm_get (rg_live (cw_registry s)) k \<noteq> None" for k
  proof
    show "live_waiters k (cw_registry s) \<noteq> []" using that reg_ok_live[OF reg(1), of k] by (auto simp: live_waiters_def)
    show "k \<notin> fst ` set (rg_missed (cw_registry s))" using that reg(1) unfolding reg_ok_def by auto
  qed
  with reg show ?thesis by (auto simp: reg_ok_def)
qed

text \<open>
  Property C27. A waiter is resolved at most once: the handles fired so far are distinct, and none of
  them is still registered, still to be fired for a completion or still to be failed by a loop death.
\<close>

theorem waiters_resolved_once:
  assumes "cw_step\<^sup>*\<^sup>* (cw_init cap) s"
  shows "distinct (cw_resolved s) \<and>
    (\<forall>h \<in> set (cw_resolved s). h \<notin># waiting (rg_live (cw_registry s)) \<and>
       h \<notin> w_handle ` set (concat (map fl_waiters (cw_flights s))) \<and> h \<notin> (w_handle \<circ> snd) ` set (cw_dying s))"
proof -
  have c: "count (handles s) h \<le> 1" for h using cw_reachable_inv[OF assms] by (simp add: cw_inv_def)
  have d: "distinct (cw_resolved s)"
    unfolding distinct_count_atmost_1
  proof
    fix h
    show "count (mset (cw_resolved s)) h = (if h \<in> set (cw_resolved s) then 1 else 0)"
      using c[of h] count_greater_zero_iff[of "mset (cw_resolved s)" h] by (cases "h \<in> set (cw_resolved s)") (auto simp: handles_def not_in_iff simp del: count_greater_zero_iff)
  qed
  have "h \<notin># waiting (rg_live (cw_registry s)) + mset (map w_handle (concat (map fl_waiters (cw_flights s)))) +
      mset (map (w_handle \<circ> snd) (cw_dying s))" if "h \<in> set (cw_resolved s)" for h
  proof -
    have "0 < count (mset (cw_resolved s)) h" using that by simp
    with c[of h] show ?thesis unfolding handles_def not_in_iff by (simp del: count_greater_zero_iff)
  qed
  then have "h \<notin># waiting (rg_live (cw_registry s)) \<and> h \<notin> w_handle ` set (concat (map fl_waiters (cw_flights s))) \<and>
      h \<notin> (w_handle \<circ> snd) ` set (cw_dying s)" if "h \<in> set (cw_resolved s)" for h
    using that by (simp add: image_iff)
  with d show ?thesis by blast
qed


section \<open>A completion that finds its waiter\<close>

definition sample_completion :: "unit envelope" where
  "sample_completion = \<lparr>ev_type = TyWsClosed, ev_version = 1, ev_time = 0, ev_request_id = Some 5, ev_payload = PayOther ()\<rparr>"

definition sample_delivered :: "unit cw_state" where
  "sample_delivered = cw_deliver 5 sample_completion (cw_subscribe (TyWsClosed, 5) (cw_init 1))"

definition sample_fired :: "unit cw_state" where
  "sample_fired = sample_delivered\<lparr>
     cw_flights := [cw_fire True \<lparr>w_handle = 1, w_max_version = - 1\<rparr> \<lparr>fl_event = sample_completion,
       fl_waiters = [\<lparr>w_handle = 1, w_max_version = - 1\<rparr>], fl_accepted = False\<rparr>], cw_resolved := [1]\<rparr>"

lemmas sample_wait_defs = sample_delivered_def sample_fired_def cw_deliver_def cw_subscribe_def cw_init_def new_correlated_def
  subscribe_section_def take_missed_def deliver_section_def take_or_latch_def live_waiters_def enter_flight_def sample_completion_def
  cw_fire_def fires_def given_up_def behind_death_def

lemma sample_fired_reachable: "cw_step\<^sup>*\<^sup>* (cw_init 1) sample_fired"
proof -
  have "cw_step\<^sup>*\<^sup>* (cw_init 1) (cw_subscribe (TyWsClosed, 5) (cw_init 1) :: unit cw_state)"
    by (rule r_into_rtranclp) (rule cw_step.subscribe)
  moreover have "cw_step (cw_subscribe (TyWsClosed, 5) (cw_init 1)) sample_delivered"
    unfolding sample_delivered_def by (rule cw_step.deliver) (simp add: sample_completion_def)
  moreover have "cw_step sample_delivered sample_fired"
    using cw_step.fire[of sample_delivered "[]" "\<lparr>fl_event = sample_completion,
       fl_waiters = [\<lparr>w_handle = 1, w_max_version = - 1\<rparr>], fl_accepted = False\<rparr>" "[]" "\<lparr>w_handle = 1, w_max_version = - 1\<rparr>" "[]" True]
    by (simp add: sample_wait_defs)
  ultimately show ?thesis by (meson rtranclp.rtrancl_into_rtrancl)
qed

theorem completions_conserved_witness: "cw_lost sample_fired = {#} \<and> size (cw_delivered sample_fired) = 1"
  using completions_conserved[OF sample_fired_reachable] by (simp add: sample_wait_defs)

theorem no_lost_wakeup_witness: "length (rg_missed (cw_registry sample_fired)) \<le> 1"
  using no_lost_wakeup[OF sample_fired_reachable] by simp

theorem waiters_resolved_once_witness:
  "cw_resolved sample_fired = [1] \<and> 1 \<notin># waiting (rg_live (cw_registry sample_fired))"
proof -
  have "cw_resolved sample_fired = [1]" by (simp add: sample_wait_defs)
  then show ?thesis using waiters_resolved_once[OF sample_fired_reachable] by simp
qed

end
