(* ===== verification/Event_Bus.thy ===== *)
theory Event_Bus
  imports Correlated_Waits Knobs
begin

text \<open>
  The event bus of \<open>src/rust/src/dispatch/event_bus/mod.rs\<close>: the drop-oldest ring between the I/O reactor and the dispatch
  reactor, long-lived subscribers, the dispatch loop's rounds and loop deaths. The injected clock is the
  function \<open>bu_clock\<close>, read at \<open>bu_reads\<close>, \<open>bu_reads + 1\<close> and so on. What a callback does is a parameter: a
  long-lived subscriber may change the bus (it may publish or subscribe), a one-shot waiter only accepts, declines or panics.
  Logging is left out. The correlated registry and its critical sections are those of the theory Correlated_Waits.
\<close>

section \<open>State\<close>

datatype reactor_state = ReactorNotStarted | ReactorRunning | ReactorStopped | ReactorFailed loop_failure_cause

record data_routing =
  dr_channel :: channel_name
  dr_handler_id :: nat

datatype ('p, 'd) dispatch_item = ItemEvent "'p envelope" | ItemData 'd data_routing

record 'a ring =
  rn_items :: "'a list"
  rn_capacity :: nat
  rn_closed :: bool

record bus_config =
  bc_io_to_dispatch_capacity :: nat
  bc_caller_to_io_capacity :: nat
  bc_queue_depth_sample_interval_ms :: u32
  bc_slow_callback_threshold_ms :: u32
  bc_subscribe_ack_timeout_ms :: u32

record ('p, 'd) bus =
  bu_ring :: "('p, 'd) dispatch_item ring"
  bu_subscribers :: "(event_type, waiter list) hashmap"
  bu_correlated :: "'p registry"
  bu_dispatch_state :: reactor_state
  bu_loop_failed :: bool
  bu_shutting_down :: bool
  bu_loop_death_observed :: bool
  bu_clock :: "nat \<Rightarrow> instant"
  bu_reads :: nat
  bu_next_subscriber_id :: nat
  bu_dropped_count :: u64
  bu_last_warning_at :: "instant option"
  bu_cfg :: bus_config
  bu_slow_callback_threshold_ms :: u32

definition bus_config_defaults :: bus_config where
  "bus_config_defaults = \<lparr>bc_io_to_dispatch_capacity = 8192, bc_caller_to_io_capacity = 2048,
     bc_queue_depth_sample_interval_ms = 100, bc_slow_callback_threshold_ms = 50, bc_subscribe_ack_timeout_ms = 5000\<rparr>"

definition bus_config_from_knobs :: "knobs \<Rightarrow> bus_config" where
  "bus_config_from_knobs k = \<lparr>bc_io_to_dispatch_capacity = unat (k_io_to_dispatch_capacity k),
     bc_caller_to_io_capacity = unat (k_caller_to_io_capacity k), bc_queue_depth_sample_interval_ms = 100,
     bc_slow_callback_threshold_ms = k_slow_callback_threshold_ms k, bc_subscribe_ack_timeout_ms = k_subscribe_ack_timeout_ms k\<rparr>"

definition new_ring :: "nat \<Rightarrow> 'a ring" where
  "new_ring cap = \<lparr>rn_items = [], rn_capacity = cap, rn_closed = False\<rparr>"

definition new_bus :: "bus_config \<Rightarrow> (nat \<Rightarrow> instant) \<Rightarrow> ('p, 'd) bus" where
  "new_bus cfg clock = \<lparr>bu_ring = new_ring (bc_io_to_dispatch_capacity cfg), bu_subscribers = [],
     bu_correlated = new_correlated CORRELATED_MISS_BUFFER_CAP, bu_dispatch_state = ReactorNotStarted, bu_loop_failed = False,
     bu_shutting_down = False, bu_loop_death_observed = False, bu_clock = clock, bu_reads = 0, bu_next_subscriber_id = 1,
     bu_dropped_count = 0, bu_last_warning_at = None, bu_cfg = cfg,
     bu_slow_callback_threshold_ms = k_slow_callback_threshold_ms knobs_defaults\<rparr>"

definition bus_now :: "('p, 'd) bus \<Rightarrow> instant \<times> ('p, 'd) bus" where
  "bus_now b = (bu_clock b (bu_reads b), b\<lparr>bu_reads := Suc (bu_reads b)\<rparr>)"

section \<open>The drop-oldest ring\<close>

definition ring_close :: "'a ring \<Rightarrow> 'a ring" where
  "ring_close r = r\<lparr>rn_closed := True\<rparr>"

definition ring_push :: "'a \<Rightarrow> 'a ring \<Rightarrow> 'a ring \<times> bool" where
  "ring_push x r =
     (let full = length (rn_items r) \<ge> rn_capacity r
      in (r\<lparr>rn_items := (if full then tl (rn_items r) else rn_items r) @ [x]\<rparr>, full))"

definition ring_depth :: "'a ring \<Rightarrow> nat" where
  "ring_depth r = length (rn_items r)"

datatype 'a received = Item 'a | Drained | Parked

definition ring_recv :: "'a ring \<Rightarrow> 'a ring \<times> 'a received" where
  "ring_recv r =
     (case rn_items r of
        x # xs \<Rightarrow> (r\<lparr>rn_items := xs\<rparr>, Item x)
      | [] \<Rightarrow> (r, if rn_closed r then Drained else Parked))"

section \<open>Publishing\<close>

text \<open>A push that accounts the item it evicts and never warns: the emits of the dispatch loop and of \<open>on_loop_death\<close>.\<close>

definition push_counted :: "('p, 'd) dispatch_item \<Rightarrow> ('p, 'd) bus \<Rightarrow> ('p, 'd) bus" where
  "push_counted x b =
     (let (r, dropped) = ring_push x (bu_ring b)
      in b\<lparr>bu_ring := r, bu_dropped_count := bu_dropped_count b + (if dropped then 1 else 0)\<rparr>)"

definition queue_full_warning :: "instant \<Rightarrow> u64 \<Rightarrow> nat \<Rightarrow> 'p envelope" where
  "queue_full_warning now n cap = \<lparr>ev_type = TyQueueFullWarning, ev_version = 1, ev_time = now, ev_request_id = None,
     ev_payload = PayQueueFullWarning IoToDispatch n cap\<rparr>"

definition record_io_to_dispatch_drop :: "('p, 'd) bus \<Rightarrow> ('p, 'd) bus" where
  "record_io_to_dispatch_drop b0 =
     (let n = bu_dropped_count b0 + 1;
          (now, b) = bus_now (b0\<lparr>bu_dropped_count := n\<rparr>);
          elapsed_ok = (case bu_last_warning_at b of None \<Rightarrow> True
             | Some prev \<Rightarrow> now - prev \<ge> millis (unat (bc_queue_depth_sample_interval_ms (bu_cfg b))))
      in if elapsed_ok
         then push_counted (ItemEvent (queue_full_warning now n (rn_capacity (bu_ring b)))) (b\<lparr>bu_last_warning_at := Some now\<rparr>)
         else b)"

definition publish_item :: "('p, 'd) dispatch_item \<Rightarrow> ('p, 'd) bus \<Rightarrow> ('p, 'd) bus" where
  "publish_item x b =
     (let (r, dropped) = ring_push x (bu_ring b); b' = b\<lparr>bu_ring := r\<rparr>
      in if dropped then record_io_to_dispatch_drop b' else b')"

definition bus_publish :: "'p envelope \<Rightarrow> ('p, 'd) bus \<Rightarrow> ('p, 'd) bus" where
  "bus_publish e = publish_item (ItemEvent e)"

definition publish_data :: "'d \<Rightarrow> data_routing \<Rightarrow> ('p, 'd) bus \<Rightarrow> ('p, 'd) bus" where
  "publish_data d routing = publish_item (ItemData d routing)"

section \<open>Subscribers\<close>

definition start_dispatch_reactor :: "('p, 'd) bus \<Rightarrow> ('p, 'd) bus" where
  "start_dispatch_reactor b =
     (if bu_dispatch_state b \<noteq> ReactorNotStarted then b else b\<lparr>bu_dispatch_state := ReactorRunning\<rparr>)"

definition bus_subscribe :: "event_type \<Rightarrow> u16 \<Rightarrow> bool \<Rightarrow> ('p, 'd) bus \<Rightarrow> ('p, 'd) bus \<times> nat" where
  "bus_subscribe ty max_version on_runtime b =
     (let h = bu_next_subscriber_id b;
          old = (case hm_get (bu_subscribers b) ty of None \<Rightarrow> [] | Some rs \<Rightarrow> rs);
          b' = b\<lparr>bu_next_subscriber_id := Suc h,
                 bu_subscribers := hm_insert ty (old @ [\<lparr>w_handle = h, w_max_version = max_version\<rparr>]) (bu_subscribers b)\<rparr>
      in (if on_runtime then start_dispatch_reactor b' else b', h))"

definition bus_unsubscribe :: "nat \<Rightarrow> ('p, 'd) bus \<Rightarrow> ('p, 'd) bus" where
  "bus_unsubscribe h b =
     b\<lparr>bu_subscribers := map (\<lambda>(ty, rs). (ty, filter (\<lambda>r. w_handle r \<noteq> h) rs)) (bu_subscribers b),
       bu_correlated := unsubscribe_section h (bu_correlated b)\<rparr>"

definition subscriber_records :: "event_type \<Rightarrow> ('p, 'd) bus \<Rightarrow> waiter list" where
  "subscriber_records ty b = (case hm_get (bu_subscribers b) ty of None \<Rightarrow> [] | Some rs \<Rightarrow> rs)"

definition subscriber_count :: "event_type \<Rightarrow> ('p, 'd) bus \<Rightarrow> nat" where
  "subscriber_count ty b = length (subscriber_records ty b)"

section \<open>Instrumentation events\<close>

definition is_observability_event :: "event_type \<Rightarrow> bool" where
  "is_observability_event ty \<longleftrightarrow> ty \<in> {TyQueueFullWarning, TyLoopFailedEvent, TySlowCallbackWarning, TyHandlerPanicWarning,
     TyQueueDepthSample, TyCallbackLatency}"

datatype panic_payload = PanicText string | PanicOther

text \<open>A string is its UTF-8 bytes; a continuation byte is not a character boundary.\<close>

definition is_char_boundary :: "string \<Rightarrow> nat \<Rightarrow> bool" where
  "is_char_boundary s i \<longleftrightarrow> i = 0 \<or> i = length s \<or> (i < length s \<and> \<not> (128 \<le> (of_char (s ! i) :: nat) \<and> (of_char (s ! i) :: nat) < 192))"

fun boundary_below :: "string \<Rightarrow> nat \<Rightarrow> nat" where
  "boundary_below s 0 = 0"
| "boundary_below s (Suc i) = (if is_char_boundary s (Suc i) then Suc i else boundary_below s i)"

definition truncate_panic_message :: "panic_payload \<Rightarrow> string" where
  "truncate_panic_message p =
     (let s = (case p of PanicText t \<Rightarrow> t | PanicOther \<Rightarrow> ''<non-string panic payload>'')
      in if length s > 1024 then take (boundary_below s 1024) s else s)"

definition emit :: "event_type \<Rightarrow> u16 \<Rightarrow> 'p bus_payload \<Rightarrow> ('p, 'd) bus \<Rightarrow> ('p, 'd) bus" where
  "emit ty version p b =
     (case bus_now b of (now, b') \<Rightarrow> push_counted (ItemEvent \<lparr>ev_type = ty, ev_version = version, ev_time = now, ev_request_id = None,
        ev_payload = p\<rparr>) b')"

definition emit_callback_latency :: "callback_source \<Rightarrow> nat \<Rightarrow> u64 \<Rightarrow> ('p, 'd) bus \<Rightarrow> ('p, 'd) bus" where
  "emit_callback_latency src h us = emit TyCallbackLatency 2 (PayCallbackLatency src (Some h) us)"

definition emit_slow_callback_warning :: "callback_source \<Rightarrow> u64 \<Rightarrow> u32 \<Rightarrow> ('p, 'd) bus \<Rightarrow> ('p, 'd) bus" where
  "emit_slow_callback_warning src us threshold = emit TySlowCallbackWarning 1 (PaySlowCallbackWarning src us threshold)"

definition emit_handler_panic_warning :: "callback_source \<Rightarrow> nat \<Rightarrow> string \<Rightarrow> ('p, 'd) bus \<Rightarrow> ('p, 'd) bus" where
  "emit_handler_panic_warning src h msg = emit TyHandlerPanicWarning 1 (PayHandlerPanicWarning src h msg)"

section \<open>Correlated completions\<close>

datatype waiter_outcome = WaiterAccepts | WaiterDeclines | WaiterPanics panic_payload

definition fire_correlated ::
  "(nat \<Rightarrow> 'p envelope \<Rightarrow> waiter_outcome) \<Rightarrow> 'p envelope \<Rightarrow> waiter \<Rightarrow> ('p, 'd) bus \<Rightarrow> ('p, 'd) bus \<times> bool" where
  "fire_correlated run e w b =
     (if \<not> fires e w then (b, False)
      else (case run (w_handle w) e of
              WaiterAccepts \<Rightarrow> (b, True)
            | WaiterDeclines \<Rightarrow> (b, False)
            | WaiterPanics m \<Rightarrow>
                (if is_observability_event (ev_type e) then b
                 else emit_handler_panic_warning (SourceEvent (ev_type e)) (w_handle w) (truncate_panic_message m) b, False)))"

fun fire_waiters ::
  "(nat \<Rightarrow> 'p envelope \<Rightarrow> waiter_outcome) \<Rightarrow> 'p envelope \<Rightarrow> waiter list \<Rightarrow> ('p, 'd) bus \<Rightarrow> ('p, 'd) bus \<times> bool" where
  "fire_waiters run e [] b = (b, False)"
| "fire_waiters run e (w # ws) b =
     (let (b', a) = fire_correlated run e w b; (b'', as) = fire_waiters run e ws b' in (b'', a \<or> as))"

lemma push_counted_frame [simp]:
  "bu_correlated (push_counted x b) = bu_correlated b" "bu_subscribers (push_counted x b) = bu_subscribers b"
  "bu_loop_failed (push_counted x b) = bu_loop_failed b" "bu_shutting_down (push_counted x b) = bu_shutting_down b"
  "bu_loop_death_observed (push_counted x b) = bu_loop_death_observed b" "bu_dispatch_state (push_counted x b) = bu_dispatch_state b"
  by (simp_all add: push_counted_def split: prod.splits)

lemma emit_frame [simp]:
  "bu_correlated (emit ty v p b) = bu_correlated b" "bu_subscribers (emit ty v p b) = bu_subscribers b"
  "bu_loop_failed (emit ty v p b) = bu_loop_failed b" "bu_shutting_down (emit ty v p b) = bu_shutting_down b"
  "bu_loop_death_observed (emit ty v p b) = bu_loop_death_observed b" "bu_dispatch_state (emit ty v p b) = bu_dispatch_state b"
  by (simp_all add: emit_def bus_now_def)

lemma fire_correlated_frame: "bu_correlated (fst (fire_correlated run e w b)) = bu_correlated b"
  by (simp add: fire_correlated_def emit_handler_panic_warning_def split: waiter_outcome.split)

lemma fire_waiters_frame: "bu_correlated (fst (fire_waiters run e ws b)) = bu_correlated b"
  by (induction ws arbitrary: b) (simp_all add: Let_def case_prod_beta fire_correlated_frame)

lemma length_hm_remove: "hm_get m k = Some v \<Longrightarrow> length (hm_remove k m) < length m"
  by (induction m) (auto simp: length_delete_le less_Suc_eq_le split: if_splits)

lemma take_or_latch_shrinks:
  "take_or_latch k e r = (r', ws) \<Longrightarrow> ws \<noteq> [] \<Longrightarrow> length (rg_live r') < length (rg_live r)"
  by (auto simp: take_or_latch_def length_hm_remove split: option.splits)

function relatch_correlated ::
  "(nat \<Rightarrow> 'p envelope \<Rightarrow> waiter_outcome) \<Rightarrow> 'p envelope \<Rightarrow> ('p, 'd) bus \<Rightarrow> ('p, 'd) bus" where
  "relatch_correlated run e b =
     (case ev_request_id e of
        None \<Rightarrow> b
      | Some key \<Rightarrow>
          (let (r, ws) = relatch_section key e (bu_correlated b); (b', accepted) = fire_waiters run e ws (b\<lparr>bu_correlated := r\<rparr>)
           in if ws \<noteq> [] \<and> \<not> accepted then relatch_correlated run e b' else b'))"
  by pat_completeness auto
termination
proof (relation "measure (\<lambda>(run, e, b). length (rg_live (bu_correlated b)))", goal_cases)
  case 1
  show ?case by simp
next
  case (2 run e b key x r ws y b' accepted)
  have c: "bu_correlated b' = r"
    using fire_waiters_frame[of run e ws "b\<lparr>bu_correlated := r\<rparr>"] 2(4,5) by (metis bus.select_convs(3) bus.surjective bus.update_convs(3) fst_conv)
  have "take_or_latch (ev_type e, key) e (bu_correlated b) = (r, ws)"
    using 2(2,3,6) by (auto simp: relatch_section_def split: if_splits)
  then show ?case using take_or_latch_shrinks c 2(6) by fastforce
qed

declare relatch_correlated.simps [simp del]

definition deliver_correlated ::
  "(nat \<Rightarrow> 'p envelope \<Rightarrow> waiter_outcome) \<Rightarrow> 'p envelope \<Rightarrow> ('p, 'd) bus \<Rightarrow> ('p, 'd) bus" where
  "deliver_correlated run e b =
     (case ev_request_id e of
        None \<Rightarrow> b
      | Some key \<Rightarrow>
          (let (r, ws) = deliver_section key e (bu_correlated b); (b', accepted) = fire_waiters run e ws (b\<lparr>bu_correlated := r\<rparr>)
           in if ws \<noteq> [] \<and> \<not> accepted then relatch_correlated run e b' else b'))"

definition subscribe_correlated ::
  "(nat \<Rightarrow> 'p envelope \<Rightarrow> waiter_outcome) \<Rightarrow> event_type \<Rightarrow> u64 \<Rightarrow> ('p, 'd) bus \<Rightarrow> ('p, 'd) bus \<times> nat" where
  "subscribe_correlated run ty key b =
     (let h = bu_next_subscriber_id b; w = \<lparr>w_handle = h, w_max_version = - 1\<rparr>;
          (r, found) = subscribe_section (ty, key) w (bu_correlated b);
          b' = b\<lparr>bu_next_subscriber_id := Suc h, bu_correlated := r\<rparr>
      in (case found of
            None \<Rightarrow> (b', h)
          | Some e \<Rightarrow> (case fire_correlated run e w b' of (b'', a) \<Rightarrow> (if a then b'' else relatch_correlated run e b'', h))))"

section \<open>Loop deaths\<close>

definition loop_failed_env :: "reactor_name \<Rightarrow> loop_failure_cause \<Rightarrow> instant \<Rightarrow> u64 option \<Rightarrow> 'p envelope" where
  "loop_failed_env name cause now rid = \<lparr>ev_type = TyLoopFailedEvent, ev_version = 1, ev_time = now, ev_request_id = rid,
     ev_payload = PayLoopFailed name cause now\<rparr>"

definition death_envelope :: "reactor_name \<Rightarrow> loop_failure_cause \<Rightarrow> instant \<Rightarrow> wait_key \<Rightarrow> 'p envelope" where
  "death_envelope name cause now k =
     (if fst k \<in> {TyClientReady, TyClientFailed}
      then \<lparr>ev_type = TyClientFailed, ev_version = 1, ev_time = now, ev_request_id = Some (snd k), ev_payload = PayClientFailed ClientLoopFailed\<rparr>
      else loop_failed_env name cause now (Some (snd k)))"

text \<open>The second component lists the waiters called, with what they are given; their answers and panics are ignored.\<close>

definition resolve_live_correlated_on_death ::
  "reactor_name \<Rightarrow> loop_failure_cause \<Rightarrow> ('p, 'd) bus \<Rightarrow> ('p, 'd) bus \<times> (nat \<times> 'p envelope) list" where
  "resolve_live_correlated_on_death name cause b =
     (let (now, b') = bus_now b; (r, drained) = drain_live (bu_correlated b')
      in (b'\<lparr>bu_correlated := r\<rparr>, map (\<lambda>(k, w). (w_handle w, death_envelope name cause now k)) drained))"

definition begin_shutdown :: "('p, 'd) bus \<Rightarrow> ('p, 'd) bus" where
  "begin_shutdown b = b\<lparr>bu_shutting_down := True\<rparr>"

definition close_dispatch :: "('p, 'd) bus \<Rightarrow> ('p, 'd) bus" where
  "close_dispatch b0 = (let b = begin_shutdown b0 in b\<lparr>bu_dispatch_state := ReactorStopped, bu_ring := ring_close (bu_ring b)\<rparr>)"

definition on_loop_death ::
  "reactor_name \<Rightarrow> loop_failure_cause \<Rightarrow> ('p, 'd) bus \<Rightarrow> ('p, 'd) bus \<times> (nat \<times> 'p envelope) list" where
  "on_loop_death name cause b =
     (if \<not> bu_shutting_down b \<and> name = ReactorDispatch \<and> bu_dispatch_state b = ReactorStopped
      then (b\<lparr>bu_loop_death_observed := True\<rparr>, [])
      else
       let b1 = b\<lparr>bu_correlated := commit_death (bu_shutting_down b) (bu_correlated b), bu_loop_death_observed := True\<rparr>
       in if bu_shutting_down b then resolve_live_correlated_on_death name cause b1
          else if bu_loop_failed b then (b1, [])
          else
           let b2 = b1\<lparr>bu_loop_failed := True\<rparr>;
               b3 = (if name = ReactorDispatch then b2\<lparr>bu_dispatch_state := ReactorFailed cause\<rparr> else b2);
               (b4, fired) = resolve_live_correlated_on_death name cause b3;
               (now, b5) = bus_now b4
           in (push_counted (ItemEvent (loop_failed_env name cause now None)) b5, fired))"

definition drop_death_guard ::
  "bool \<Rightarrow> bool \<Rightarrow> reactor_name \<Rightarrow> ('p, 'd) bus \<Rightarrow> ('p, 'd) bus \<times> (nat \<times> 'p envelope) list" where
  "drop_death_guard armed panicking name b =
     (if \<not> armed then (b, []) else on_loop_death name (if panicking then LoopPanic else LoopUnhandledError) b)"

section \<open>The dispatch loop\<close>

datatype callback_outcome = CallbackReturned u64 | CallbackPanicked panic_payload

definition delivered_shape :: "'p envelope \<Rightarrow> waiter \<Rightarrow> 'p envelope" where
  "delivered_shape e w =
     (if ev_version e > w_max_version w
      then e\<lparr>ev_payload := downgrade_to (w_max_version w) (ev_payload e), ev_version := w_max_version w\<rparr>
      else e)"

definition is_slow :: "u64 \<Rightarrow> ('p, 'd) bus \<Rightarrow> bool" where
  "is_slow us b \<longleftrightarrow> us \<ge> ucast (bu_slow_callback_threshold_ms b) * 1000"

definition invoke_subscriber ::
  "(nat \<Rightarrow> 'p envelope \<Rightarrow> ('p, 'd) bus \<Rightarrow> ('p, 'd) bus \<times> callback_outcome) \<Rightarrow> 'p envelope \<Rightarrow> waiter \<Rightarrow> ('p, 'd) bus \<Rightarrow> ('p, 'd) bus" where
  "invoke_subscriber run e w b =
     (let src = SourceEvent (ev_type e); quiet = is_observability_event (ev_type e)
      in case run (w_handle w) (delivered_shape e w) b of
           (b1, CallbackReturned us) \<Rightarrow>
             (let b2 = (if quiet then b1 else emit_callback_latency src (w_handle w) us b1)
              in if is_slow us b2 \<and> \<not> quiet then emit_slow_callback_warning src us (bu_slow_callback_threshold_ms b2) b2 else b2)
         | (b1, CallbackPanicked m) \<Rightarrow>
             (if quiet then b1 else emit_handler_panic_warning src (w_handle w) (truncate_panic_message m) b1))"

text \<open>The handlers of an event are those registered when the round reads them; the calls pair each with what it was given.\<close>

fun fan_out ::
  "(nat \<Rightarrow> 'p envelope \<Rightarrow> ('p, 'd) bus \<Rightarrow> ('p, 'd) bus \<times> callback_outcome) \<Rightarrow> 'p envelope \<Rightarrow> waiter list \<Rightarrow> ('p, 'd) bus
     \<Rightarrow> ('p, 'd) bus \<times> (nat \<times> 'p envelope) list" where
  "fan_out run e [] b = (b, [])"
| "fan_out run e (w # ws) b =
     (case fan_out run e ws (invoke_subscriber run e w b) of (b', calls) \<Rightarrow> (b', (w_handle w, delivered_shape e w) # calls))"

definition dispatch_event where
  "dispatch_event run_waiter run e b =
     (let b1 = (if ev_request_id e \<noteq> None then deliver_correlated run_waiter e b else b)
      in fan_out run e (subscriber_records (ev_type e) b1) b1)"

definition dispatch_data_delivery ::
  "('d \<Rightarrow> ('p, 'd) bus \<Rightarrow> ('p, 'd) bus \<times> callback_outcome) \<Rightarrow> 'd \<Rightarrow> data_routing \<Rightarrow> ('p, 'd) bus \<Rightarrow> ('p, 'd) bus" where
  "dispatch_data_delivery invoke d routing b =
     (let src = SourceDataChannel (dr_channel routing)
      in case invoke d b of
           (b1, CallbackReturned us) \<Rightarrow>
             (let b2 = (if subscriber_count TyCallbackLatency b1 > 0 then emit_callback_latency src (dr_handler_id routing) us b1 else b1)
              in if is_slow us b2 then emit_slow_callback_warning src us (bu_slow_callback_threshold_ms b2) b2 else b2)
         | (b1, CallbackPanicked m) \<Rightarrow> emit_handler_panic_warning src (dr_handler_id routing) (truncate_panic_message m) b1)"

definition DEQUEUE_SAMPLE_THRESHOLD :: nat where
  "DEQUEUE_SAMPLE_THRESHOLD = 1000"

definition sample_depth :: "bool \<Rightarrow> nat \<Rightarrow> ('p, 'd) bus \<Rightarrow> nat \<times> ('p, 'd) bus" where
  "sample_depth interval_elapsed dequeues b =
     (if Suc dequeues \<ge> DEQUEUE_SAMPLE_THRESHOLD \<or> interval_elapsed
      then (case bus_now b of (now, b') \<Rightarrow>
        (0, push_counted (ItemEvent \<lparr>ev_type = TyQueueDepthSample, ev_version = 1, ev_time = now, ev_request_id = None,
              ev_payload = PayQueueDepthSample IoToDispatch (ring_depth (bu_ring b')) (rn_capacity (bu_ring b')) now\<rparr>) b'))
      else (Suc dequeues, b))"

text \<open>
  The loop of \<open>dispatch_reactor_loop\<close>, with fuel: it stops when the ring is closed and drained. \<open>interval_elapsed n\<close> says whether
  the sampling interval has passed at the \<open>n\<close>-th dequeue. A parked receive waits for a publisher, and the loop with no
  publisher ends there.
\<close>

fun dispatch_loop where
  "dispatch_loop run_waiter run invoke interval_elapsed 0 dequeues b = None"
| "dispatch_loop run_waiter run invoke interval_elapsed (Suc fuel) dequeues b =
     (case ring_recv (bu_ring b) of
        (_, Parked) \<Rightarrow> Some b
      | (_, Drained) \<Rightarrow> Some b
      | (r, Item x) \<Rightarrow>
          (case sample_depth (interval_elapsed fuel) dequeues (b\<lparr>bu_ring := r\<rparr>) of
             (dequeues', b1) \<Rightarrow>
               dispatch_loop run_waiter run invoke interval_elapsed fuel dequeues'
                 (case x of
                    ItemData d routing \<Rightarrow> dispatch_data_delivery invoke d routing b1
                  | ItemEvent e \<Rightarrow> fst (dispatch_event run_waiter run e b1))))"

end
