(* ===== verification/Bus_Properties.thy ===== *)
theory Bus_Properties
  imports Event_Bus "HOL-Library.Sublist"
begin

text \<open>
  What the event bus promises: the ring loses only its oldest items and counts each of them, a round calls every subscriber
  of an event once with a version it understands, instrumentation does not feed on itself and a
  closed ring drains, a loop death fails every await, and the sequential delivery of a completion is a run of the
  concurrent steps of the theory Correlated_Waits.
\<close>

section \<open>Lossy queues\<close>

datatype 'a queue_op = Push 'a | Receive

fun pushes :: "'a queue_op list \<Rightarrow> 'a list" where
  "pushes [] = []"
| "pushes (Push x # ops) = x # pushes ops"
| "pushes (Receive # ops) = pushes ops"

text \<open>A run of a queue, with what was received and what was evicted, each in order.\<close>

fun queue_run ::
  "('a \<Rightarrow> 's \<Rightarrow> 's \<times> bool) \<Rightarrow> ('s \<Rightarrow> 's \<times> 'a received) \<Rightarrow> ('s \<Rightarrow> 'a list) \<Rightarrow> 'a queue_op list \<Rightarrow> 's \<Rightarrow> 's \<times> 'a list \<times> 'a list" where
  "queue_run push recv items [] s = (s, [], [])"
| "queue_run push recv items (Push x # ops) s =
     (let (s1, dropped) = push x s; (s2, got, lost) = queue_run push recv items ops s1
      in (s2, got, (if dropped then take 1 (items s) else []) @ lost))"
| "queue_run push recv items (Receive # ops) s =
     (let (s1, x) = recv s; (s2, got, lost) = queue_run push recv items ops s1
      in (s2, (case x of Item y \<Rightarrow> [y] | _ \<Rightarrow> []) @ got, lost))"

locale lossy_queue =
  fixes push :: "'a \<Rightarrow> 's \<Rightarrow> 's \<times> bool" and recv :: "'s \<Rightarrow> 's \<times> 'a received" and items :: "'s \<Rightarrow> 'a list" and bound :: "'s \<Rightarrow> nat"
  assumes push_items: "push x s = (s', dropped) \<Longrightarrow> items s' = (if dropped then tl (items s) else items s) @ [x]"
    and push_bound: "length (items s) \<le> bound s \<Longrightarrow> push x s = (s', dropped) \<Longrightarrow> length (items s') \<le> bound s \<and> bound s' = bound s"
    and recv_bound: "recv s = (s', y) \<Longrightarrow> bound s' = bound s"
    and recv_item: "recv s = (s', Item x) \<Longrightarrow> items s = x # items s'"
    and recv_none: "recv s = (s', y) \<Longrightarrow> (\<And>x. y \<noteq> Item x) \<Longrightarrow> items s' = items s"
begin

lemma run_order:
  "queue_run push recv items ops s = (s', got, lost) \<Longrightarrow>
   \<exists>gone \<in> shuffles got lost. gone @ items s' = items s @ pushes ops"
proof (induction ops arbitrary: s got lost)
  case (Cons op ops)
  show ?case
  proof (cases op)
    case (Push x)
    obtain s1 d where p: "push x s = (s1, d)" by fastforce
    obtain lost' where r: "queue_run push recv items ops s1 = (s', got, lost')"
      and l: "lost = (if d then take 1 (items s) else []) @ lost'"
      using Cons.prems p Push by (auto simp: Let_def split: prod.splits)
    obtain gone where g: "gone \<in> shuffles got lost'" "gone @ items s' = items s1 @ pushes ops"
      using Cons.IH[OF r] by blast
    have "(if d then take 1 (items s) else []) @ gone \<in> shuffles got lost"
      using g(1) by (cases "items s") (auto simp: l Cons_in_shuffles_rightI)
    moreover have "((if d then take 1 (items s) else []) @ gone) @ items s' = items s @ pushes (op # ops)"
      using g(2) push_items[OF p] Push by (cases "items s") auto
    ultimately show ?thesis by blast
  next
    case Receive
    obtain s1 x where p: "recv s = (s1, x)" by fastforce
    obtain got' where r: "queue_run push recv items ops s1 = (s', got', lost)" and l: "got = (case x of Item y \<Rightarrow> [y] | _ \<Rightarrow> []) @ got'"
      using Cons.prems p Receive by (auto simp: Let_def split: prod.splits)
    obtain gone where g: "gone \<in> shuffles got' lost" "gone @ items s' = items s1 @ pushes ops"
      using Cons.IH[OF r] by blast
    show ?thesis
    proof (cases x)
      case (Item y)
      then show ?thesis using g recv_item[of s s1 y] p Receive
        by (intro bexI[of _ "y # gone"]) (auto simp: l Cons_in_shuffles_leftI)
    qed (use g recv_none[OF p] l Receive in auto)
  qed
qed simp

lemma run_bound:
  "queue_run push recv items ops s = (s', got, lost) \<Longrightarrow> length (items s) \<le> bound s \<Longrightarrow> length (items s') \<le> bound s"
proof (induction ops arbitrary: s got lost)
  case (Cons op ops)
  show ?case
  proof (cases op)
    case (Push x)
    obtain s1 d where p: "push x s = (s1, d)" by fastforce
    show ?thesis using Cons.IH[of s1] Cons.prems Push p push_bound[OF Cons.prems(2) p] by (auto simp: Let_def split: prod.splits)
  next
    case Receive
    obtain s1 x where p: "recv s = (s1, x)" by fastforce
    have b: "bound s1 = bound s" by (rule recv_bound[OF p])
    have "length (items s1) \<le> bound s1"
    proof (cases x)
      case (Item y)
      then show ?thesis using recv_item[of s s1 y] p Cons.prems(2) b by simp
    qed (use recv_none[OF p] Cons.prems(2) b in simp_all)
    then show ?thesis using Cons.IH[of s1] Cons.prems(1) p b Receive by (auto simp: Let_def split: prod.splits)
  qed
qed simp

end

definition ring_run :: "'a queue_op list \<Rightarrow> 'a ring \<Rightarrow> 'a ring \<times> 'a list \<times> 'a list" where
  "ring_run = queue_run ring_push ring_recv rn_items"

text \<open>A ring of capacity zero holds one item.\<close>

definition ring_bound :: "'a ring \<Rightarrow> nat" where
  "ring_bound r = max (rn_capacity r) 1"

interpretation drop_oldest: lossy_queue ring_push ring_recv rn_items ring_bound
  by unfold_locales
     (auto simp: ring_push_def ring_recv_def ring_bound_def Let_def split: list.splits if_splits)

text \<open>
  Whatever the interleaving of publishers and receiver, the ring never holds more than its capacity
  (one item at least), and what was published is, in order, what was received or evicted followed by what is queued:
  nothing is duplicated, reordered or lost otherwise, and evictions take the oldest item.
\<close>

lemma ring_loses_only_oldest:
  assumes "ring_run ops (new_ring cap) = (r, got, lost)"
  shows "length (rn_items r) \<le> max cap 1 \<and> (\<exists>gone \<in> shuffles got lost. gone @ rn_items r = pushes ops)"
  using drop_oldest.run_order[OF assms[unfolded ring_run_def]] drop_oldest.run_bound[OF assms[unfolded ring_run_def]]
  by (simp add: new_ring_def ring_bound_def)

section \<open>Publishing\<close>

definition within_capacity :: "('p, 'd) bus \<Rightarrow> bool" where
  "within_capacity b \<longleftrightarrow> length (rn_items (bu_ring b)) \<le> rn_capacity (bu_ring b) \<and> 0 < rn_capacity (bu_ring b)"

definition evicts :: "('p, 'd) bus \<Rightarrow> nat" where
  "evicts b = (if length (rn_items (bu_ring b)) = rn_capacity (bu_ring b) then 1 else 0)"

lemma push_counted_effects:
  assumes "within_capacity b"
  shows "rn_items (bu_ring (push_counted x b)) = drop (evicts b) (rn_items (bu_ring b) @ [x])"
    "bu_dropped_count (push_counted x b) = bu_dropped_count b + of_nat (evicts b)" "within_capacity (push_counted x b)"
  using assms
  by (cases "rn_items (bu_ring b)"; auto simp: push_counted_def ring_push_def within_capacity_def evicts_def Let_def)+

definition warning_due :: "('p, 'd) bus \<Rightarrow> bool" where
  "warning_due b \<longleftrightarrow> (case bu_last_warning_at b of None \<Rightarrow> True
     | Some prev \<Rightarrow> bu_clock b (bu_reads b) - prev \<ge> millis (unat (bc_queue_depth_sample_interval_ms (bu_cfg b))))"

lemma publish_item_unfold:
  "publish_item x b =
     (if length (rn_items (bu_ring b)) \<ge> rn_capacity (bu_ring b)
      then let b1 = push_counted x b; now = bu_clock b (bu_reads b); b2 = b1\<lparr>bu_reads := Suc (bu_reads b)\<rparr>
           in if warning_due b then push_counted (ItemEvent (queue_full_warning now (bu_dropped_count b + 1) (rn_capacity (bu_ring b))))
                  (b2\<lparr>bu_last_warning_at := Some now\<rparr>) else b2
      else push_counted x b)"
  by (simp add: publish_item_def record_io_to_dispatch_drop_def bus_now_def push_counted_def ring_push_def warning_due_def Let_def
      split: option.splits)



definition sample_full_bus :: "(unit, unit) bus" where
  "sample_full_bus = bus_publish sample_completion (new_bus (bus_config_defaults\<lparr>bc_io_to_dispatch_capacity := 1\<rparr>) (\<lambda>n. n))"


section \<open>Rounds of the dispatch loop\<close>

text \<open>
  What an operation of the loop keeps or lets grow is a preorder on buses, which contains every update of the correlated registry
  and, when the event at hand is not an instrumentation event, every emit of one.
\<close>

locale bus_frame =
  fixes R :: "('p, 'd) bus \<Rightarrow> ('p, 'd) bus \<Rightarrow> bool"
  assumes same: "R b b"
    and trans: "R a b \<Longrightarrow> R b c \<Longrightarrow> R a c"
    and registry: "R b (b\<lparr>bu_correlated := r\<rparr>)"
begin

lemma fire_waiters_frames:
  assumes "\<And>src h m b. \<not> is_observability_event (ev_type e) \<Longrightarrow> R b (emit_handler_panic_warning src h m b)"
  shows "R b (fst (fire_waiters run e ws b))"
proof (induction ws arbitrary: b)
  case (Cons w ws)
  have "R b (fst (fire_correlated run e w b))"
    using assms same by (simp add: fire_correlated_def split: waiter_outcome.split)
  then show ?case using trans[OF _ Cons.IH] by (simp add: Let_def case_prod_beta)
qed (simp add: same)

lemma relatch_frames:
  assumes "\<And>src h m b. \<not> is_observability_event (ev_type e) \<Longrightarrow> R b (emit_handler_panic_warning src h m b)"
  shows "R b (relatch_correlated run e b)"
  using assms
proof (induction run e b rule: relatch_correlated.induct)
  case (1 run e b)
  show ?case
  proof (cases "ev_request_id e")
    case None
    then show ?thesis by (simp add: same relatch_correlated.simps[of run e b])
  next
    case (Some key)
    obtain r ws where r: "relatch_section key e (bu_correlated b) = (r, ws)" by fastforce
    obtain b' a where f: "fire_waiters run e ws (b\<lparr>bu_correlated := r\<rparr>) = (b', a)" by fastforce
    have "R b b'"
      using trans[OF registry fire_waiters_frames[OF "1.prems"]] f by (metis fst_conv)
    then show ?thesis
      using trans[OF _ "1.IH"[OF Some r[symmetric] refl f[symmetric] refl _ "1.prems"]] Some r f
      by (simp add: relatch_correlated.simps[of run e b])
  qed
qed

lemma deliver_frames:
  assumes "\<And>src h m b. \<not> is_observability_event (ev_type e) \<Longrightarrow> R b (emit_handler_panic_warning src h m b)"
  shows "R b (deliver_correlated run e b)"
proof (cases "ev_request_id e")
  case (Some key)
  obtain r ws where r: "deliver_section key e (bu_correlated b) = (r, ws)" by fastforce
  have "R b (fst (fire_waiters run e ws (b\<lparr>bu_correlated := r\<rparr>)))"
    by (rule trans[OF registry fire_waiters_frames[OF assms]])
  then show ?thesis
    using Some r trans[OF _ relatch_frames[OF assms]]
    by (simp add: deliver_correlated_def Let_def case_prod_beta)
qed (simp add: deliver_correlated_def same)

text \<open>With callbacks that leave the bus alone.\<close>

lemma dispatch_frames:
  assumes inert: "\<And>h d b. fst (run h d b) = b"
    and loud: "\<And>ty v p b. \<not> is_observability_event (ev_type e) \<Longrightarrow> is_observability_event ty \<Longrightarrow> R b (emit ty v p b)"
  shows "R b (fst (dispatch_event run_waiter run e b))"
proof -
  have emits: "R b (emit_handler_panic_warning src h m b)" "R b (emit_callback_latency src h us b)" "R b (emit_slow_callback_warning src us t b)"
    if "\<not> is_observability_event (ev_type e)" for src h m us t b
    using loud[OF that] by (simp_all add: emit_handler_panic_warning_def emit_callback_latency_def emit_slow_callback_warning_def
        is_observability_event_def)
  have invoke: "R b (invoke_subscriber run e w b)" for w b
  proof -
    obtain out where "run (w_handle w) (delivered_shape e w) b = (b, out)" using inert by (metis prod.collapse)
    then show ?thesis using emits same trans[OF emits(2) emits(3)]
      by (cases out) (simp_all add: invoke_subscriber_def Let_def)
  qed
  have "R b (fst (fan_out run e ws b))" for ws b
    by (induction ws arbitrary: b) (auto simp: same case_prod_beta intro: trans[OF invoke])
  moreover have "R b (deliver_correlated run_waiter e b)"
    using emits(1) by (rule deliver_frames)
  ultimately show ?thesis using trans by (auto simp: dispatch_event_def Let_def)
qed

end

definition same_subscribers :: "('p, 'd) bus \<Rightarrow> ('p, 'd) bus \<Rightarrow> bool" where
  "same_subscribers b b' \<longleftrightarrow> bu_subscribers b' = bu_subscribers b"

definition same_ring :: "('p, 'd) bus \<Rightarrow> ('p, 'd) bus \<Rightarrow> bool" where
  "same_ring b b' \<longleftrightarrow> bu_ring b' = bu_ring b"

fun instrumentation :: "('p, 'd) dispatch_item \<Rightarrow> bool" where
  "instrumentation (ItemEvent e) = is_observability_event (ev_type e)"
| "instrumentation (ItemData d routing) = False"

definition work_left :: "('p, 'd) bus \<Rightarrow> nat" where
  "work_left b = length (filter (\<lambda>x. \<not> instrumentation x) (rn_items (bu_ring b)))"

definition adds_no_work :: "('p, 'd) bus \<Rightarrow> ('p, 'd) bus \<Rightarrow> bool" where
  "adds_no_work b b' \<longleftrightarrow> work_left b' \<le> work_left b \<and> rn_closed (bu_ring b') = rn_closed (bu_ring b)"

interpretation subs_frame: bus_frame same_subscribers
  by unfold_locales (simp_all add: same_subscribers_def)

interpretation ring_frame: bus_frame same_ring
  by unfold_locales (simp_all add: same_ring_def)

interpretation work_frame: bus_frame adds_no_work
  by unfold_locales (auto simp: adds_no_work_def work_left_def)

lemma fan_out_calls: "snd (fan_out run e ws b) = map (\<lambda>w. (w_handle w, delivered_shape e w)) ws"
  by (induction ws arbitrary: b) (simp_all add: case_prod_beta)

lemma downgrade_floor: "v \<le> 1 \<Longrightarrow> downgrade_to v p = downgrade_to 1 p"
  by (cases p) auto

text \<open>
  A round calls each subscriber registered for the event once, in the order of registration, and what it is given has a
  version the subscriber declared it understands, with the type and key of the event; a latency report
  given to a version-one subscriber carries no handler id.
\<close>

lemma dispatch_calls_each_subscriber_once:
  "snd (dispatch_event run_waiter run e b) = map (\<lambda>w. (w_handle w, delivered_shape e w)) (subscriber_records (ev_type e) b) \<and>
   ev_version (delivered_shape e w) = min (ev_version e) (w_max_version w) \<and>
   ev_type (delivered_shape e w) = ev_type e \<and> ev_request_id (delivered_shape e w) = ev_request_id e \<and>
   (ev_version e \<le> 1 \<or> w_max_version w > 1 \<or> ev_payload (delivered_shape e w) = downgrade_to 1 (ev_payload e))"
proof -
  have "bu_subscribers (deliver_correlated run_waiter e b) = bu_subscribers b"
    using subs_frame.deliver_frames[of e b run_waiter]
    by (simp add: same_subscribers_def emit_handler_panic_warning_def)
  then show ?thesis
    using downgrade_floor[of "w_max_version w" "ev_payload e"]
    by (cases "w_max_version w \<le> 1")
       (auto simp: dispatch_event_def Let_def fan_out_calls subscriber_records_def delivered_shape_def min_def not_le)
qed


text \<open>
  Instrumentation does not feed on itself: dispatching an instrumentation event to subscribers that leave the bus
  alone publishes nothing, however they or the waiters of the event behave (slow, panicking or declining).
\<close>

lemma instrumentation_is_quiet:
  assumes "is_observability_event (ev_type e)" "\<And>h d b. fst (run h d b) = b"
  shows "bu_ring (fst (dispatch_event run_waiter run e b)) = bu_ring b"
  using ring_frame.dispatch_frames[of run e b run_waiter] assms by (simp add: same_ring_def)

lemma emit_adds_no_work: "is_observability_event ty \<Longrightarrow> adds_no_work b (emit ty v p b)"
  by (cases "rn_items (bu_ring b)")
     (auto simp: adds_no_work_def work_left_def emit_def bus_now_def push_counted_def ring_push_def Let_def)

lemma sample_depth_emits: "sample_depth due n b = (n', b') \<Longrightarrow>
   (n' = Suc n \<and> b' = b \<and> Suc n < 1000 \<or> (\<exists>v. n' = 0 \<and> b' = emit TyQueueDepthSample 1 v b \<and> (Suc n \<ge> 1000 \<or> due)))"
  by (auto simp: sample_depth_def emit_def bus_now_def DEQUEUE_SAMPLE_THRESHOLD_def split: if_splits)

lemma emit_length: "length (rn_items (bu_ring (emit ty v p b))) \<le> Suc (length (rn_items (bu_ring b)))"
  by (cases "rn_items (bu_ring b)") (auto simp: emit_def bus_now_def push_counted_def ring_push_def Let_def)

lemma data_adds_no_work:
  assumes "\<And>d b. fst (invoke d b) = b"
  shows "adds_no_work b (dispatch_data_delivery invoke d routing b)"
proof -
  obtain out where out: "invoke d b = (b, out)" using assms by (metis prod.collapse)
  show ?thesis
    by (cases out) (auto simp: dispatch_data_delivery_def out Let_def emit_callback_latency_def emit_slow_callback_warning_def
        emit_handler_panic_warning_def is_observability_event_def work_frame.same
        intro!: emit_adds_no_work work_frame.trans[OF emit_adds_no_work emit_adds_no_work])
qed

text \<open>One round of the loop, after an item was received: the work left shrinks, or it stays and the weighted number of queued items shrinks.\<close>

lemma round_progress:
  assumes "\<And>h d b. fst (run h d b) = b" "\<And>d b. fst (invoke d b) = b"
    and recv: "ring_recv (bu_ring b) = (r, Item x)" and sample: "sample_depth False n (b\<lparr>bu_ring := r\<rparr>) = (n', b1)" and n: "n < 1000"
    and b2: "b2 = (case x of ItemData d routing \<Rightarrow> dispatch_data_delivery invoke d routing b1 | ItemEvent e \<Rightarrow> fst (dispatch_event run_waiter run e b1))"
  shows "n' < 1000" "rn_closed (bu_ring b2) = rn_closed (bu_ring b)"
    "work_left b2 < work_left b \<or> work_left b2 = work_left b \<and>
       1000 * length (rn_items (bu_ring b2)) + n' < 1000 * length (rn_items (bu_ring b)) + n"
proof -
  let ?b0 = "b\<lparr>bu_ring := r\<rparr>"
  have items: "rn_items (bu_ring b) = x # rn_items r" "rn_closed r = rn_closed (bu_ring b)"
    using recv by (auto simp: ring_recv_def split: list.splits if_splits)
  then have less: "work_left b = work_left ?b0 + (if instrumentation x then 0 else 1)" by (simp add: work_left_def)
  have s': "adds_no_work ?b0 b1 \<and> n' < 1000 \<and> 1000 * length (rn_items (bu_ring b1)) + n' < 1000 * Suc (length (rn_items r)) + n"
    using sample_depth_emits[OF sample]
  proof (elim disjE exE conjE)
    fix v
    assume a: "n' = 0" "b1 = emit TyQueueDepthSample 1 v ?b0" "1000 \<le> Suc n"
    then show ?thesis
      using emit_length[of TyQueueDepthSample 1 v ?b0] emit_adds_no_work[of TyQueueDepthSample ?b0 1 v]
      by (simp add: is_observability_event_def)
  qed (simp_all add: work_frame.same)
  note s = s'[THEN conjunct1] s'[THEN conjunct2, THEN conjunct1] s'[THEN conjunct2, THEN conjunct2]
  have d: "adds_no_work b1 b2"
    using work_frame.dispatch_frames[OF assms(1) emit_adds_no_work, of _ b1 run_waiter] data_adds_no_work[OF assms(2)]
    by (cases x) (simp_all add: b2)
  have q: "instrumentation x \<Longrightarrow> bu_ring b2 = bu_ring b1"
    using instrumentation_is_quiet[of _ run run_waiter b1] assms(1) by (cases x) (simp_all add: b2)
  show "n' < 1000" by (rule s(2))
  show "rn_closed (bu_ring b2) = rn_closed (bu_ring b)" using s(1) d items(2) by (simp add: adds_no_work_def)
  show "work_left b2 < work_left b \<or> work_left b2 = work_left b \<and>
       1000 * length (rn_items (bu_ring b2)) + n' < 1000 * length (rn_items (bu_ring b)) + n"
  proof (cases "instrumentation x")
    case True
    then have "work_left b2 = work_left b1" using q by (simp add: work_left_def)
    with True show ?thesis using s less items q by (auto simp: adds_no_work_def)
  next
    case False
    then show ?thesis using s(1) d less by (auto simp: adds_no_work_def)
  qed
qed


definition load :: "('p, 'd) bus \<times> nat \<Rightarrow> nat" where
  "load bn = 1000 * length (rn_items (bu_ring (fst bn))) + snd bn"

lemma dispatch_loop_drains:
  assumes "\<And>h d b. fst (run h d b) = b" "\<And>d b. fst (invoke d b) = b"
  shows "snd bn < 1000 \<Longrightarrow> rn_closed (bu_ring (fst bn)) \<Longrightarrow>
    \<exists>fuel b'. dispatch_loop run_waiter run invoke (\<lambda>_. False) fuel (snd bn) (fst bn) = Some b' \<and> rn_items (bu_ring b') = []"
proof (induction bn rule: wf_induct_rule[OF wf_measures[of "[\<lambda>bn. work_left (fst bn), load]"]])
  case (1 bn)
  obtain b n where bn: "bn = (b, n)" by (cases bn)
  obtain r x where recv: "ring_recv (bu_ring b) = (r, x)" by fastforce
  show ?case
  proof (cases x)
    case (Item y)
    obtain n' b1 where sample: "sample_depth False n (b\<lparr>bu_ring := r\<rparr>) = (n', b1)" by fastforce
    let ?b2 = "case y of ItemData d routing \<Rightarrow> dispatch_data_delivery invoke d routing b1
      | ItemEvent e \<Rightarrow> fst (dispatch_event run_waiter run e b1)"
    note progress = round_progress[where run = run and invoke = invoke and run_waiter = run_waiter, OF assms recv[unfolded Item] sample _ refl]
    have n: "n < 1000" "rn_closed (bu_ring b)" using "1.prems" bn by simp_all
    have "((?b2, n'), bn) \<in> measures [\<lambda>bn. work_left (fst bn), load]"
      using progress(3)[OF n(1)] by (auto simp: bn load_def)
    from "1.IH"[OF this] obtain fuel b' where
      "dispatch_loop run_waiter run invoke (\<lambda>_. False) fuel n' ?b2 = Some b'" "rn_items (bu_ring b') = []"
      using progress(1,2)[OF n(1)] n(2) by auto
    then have "dispatch_loop run_waiter run invoke (\<lambda>_. False) (Suc fuel) n b = Some b'" "rn_items (bu_ring b') = []"
      using recv Item sample by simp_all
    then show ?thesis unfolding bn fst_conv snd_conv by blast
  next
    case Drained
    then have "rn_items (bu_ring b) = []" using recv by (auto simp: ring_recv_def split: list.splits)
    moreover have "dispatch_loop run_waiter run invoke (\<lambda>_. False) 1 n b = Some b" using recv Drained by simp
    ultimately show ?thesis unfolding bn fst_conv snd_conv by blast
  next
    case Parked
    then show ?thesis using recv "1.prems" bn by (auto simp: ring_recv_def split: list.splits)
  qed
qed


section \<open>Loop deaths\<close>

definition intended_stop :: "reactor_name \<Rightarrow> ('p, 'd) bus \<Rightarrow> bool" where
  "intended_stop name b \<longleftrightarrow> \<not> bu_shutting_down b \<and> name = ReactorDispatch \<and> bu_dispatch_state b = ReactorStopped"

definition death_notice :: "(wait_key, waiter list) hashmap \<Rightarrow> 'p envelope \<Rightarrow> bool" where
  "death_notice live e \<longleftrightarrow> (\<exists>(k, ws) \<in> set live. ev_request_id e = Some (snd k) \<and>
     ev_type e = (if fst k \<in> {TyClientReady, TyClientFailed} then TyClientFailed else TyLoopFailedEvent))"

lemma resolve_live_effects:
  assumes "resolve_live_correlated_on_death name cause b = (b', fired)"
  shows "rg_live (bu_correlated b') = []" "rg_death_committed (bu_correlated b') = rg_death_committed (bu_correlated b)"
    "mset (map fst fired) = waiting (rg_live (bu_correlated b))" "bu_loop_death_observed b' = bu_loop_death_observed b"
    "bu_ring b' = bu_ring b" "bu_loop_failed b' = bu_loop_failed b"
    "\<forall>(h, e) \<in> set fired. death_notice (rg_live (bu_correlated b)) e"
proof -
  let ?now = "bu_clock b (bu_reads b)" and ?drained = "concat (map (\<lambda>(k, ws). map (Pair k) ws) (rg_live (bu_correlated b)))"
  have b': "b' = b\<lparr>bu_reads := Suc (bu_reads b), bu_correlated := (bu_correlated b)\<lparr>rg_live := []\<rparr>\<rparr>"
    and f: "fired = map (\<lambda>(k, w). (w_handle w, death_envelope name cause ?now k)) ?drained"
    using assms by (simp_all add: resolve_live_correlated_on_death_def bus_now_def drain_live_def)
  show "rg_live (bu_correlated b') = []" "rg_death_committed (bu_correlated b') = rg_death_committed (bu_correlated b)"
    "bu_loop_death_observed b' = bu_loop_death_observed b" "bu_ring b' = bu_ring b" "bu_loop_failed b' = bu_loop_failed b"
    by (simp_all add: b')
  have "map fst fired = map (w_handle \<circ> snd) ?drained" unfolding f by (simp add: case_prod_beta)
  then show "mset (map fst fired) = waiting (rg_live (bu_correlated b))" by (simp only: waiting_drained)
  have "death_notice (rg_live (bu_correlated b)) (death_envelope name cause ?now k)"
    if "(k, ws) \<in> set (rg_live (bu_correlated b))" for k ws
    unfolding death_notice_def using that by (intro bexI[OF _ that]) (simp add: death_envelope_def loop_failed_env_def)
  then show "\<forall>(h, e) \<in> set fired. death_notice (rg_live (bu_correlated b)) e"
    unfolding f by fastforce
qed



section \<open>Sequential delivery is a run of the concurrent steps\<close>

lemma fire_waiters_run:
  "cw_flights s = fs @ [f] \<Longrightarrow> fl_waiters f = ws \<Longrightarrow> fl_event f = e \<Longrightarrow>
   \<exists>t. cw_step\<^sup>*\<^sup>* s t \<and> cw_registry t = cw_registry s \<and>
     cw_flights t = fs @ [f\<lparr>fl_waiters := [], fl_accepted := fl_accepted f \<or> snd (fire_waiters run e ws b)\<rparr>]"
proof (induction ws arbitrary: s f b)
  case (Cons w ws)
  let ?accepts = "run (w_handle w) e = WaiterAccepts"
  let ?f = "cw_fire ?accepts w f"
  let ?s = "s\<lparr>cw_flights := fs @ [?f], cw_resolved := cw_resolved s @ [w_handle w]\<rparr>"
  obtain b' a where c: "fire_correlated run e w b = (b', a)" by fastforce
  have "cw_step s ?s" using cw_step.fire[of s fs f "[]" w ws ?accepts] Cons.prems by simp
  moreover have "fires e w \<and> ?accepts \<longleftrightarrow> a"
    using c by (auto simp: fire_correlated_def split: if_splits waiter_outcome.splits)
  moreover obtain t where "cw_step\<^sup>*\<^sup>* ?s t" "cw_registry t = cw_registry s"
    "cw_flights t = fs @ [?f\<lparr>fl_waiters := [], fl_accepted := fl_accepted ?f \<or> snd (fire_waiters run e ws b')\<rparr>]"
    using Cons.IH[of ?s ?f b'] Cons.prems by (auto simp: cw_fire_def)
  ultimately show ?case using Cons.prems c
    by (intro exI[of _ t]) (auto simp: cw_fire_def Let_def case_prod_beta intro: converse_rtranclp_into_rtranclp)
next
  case Nil
  then show ?case by (intro exI[of _ s]) (cases f, simp)
qed

lemma routed_run:
  assumes s: "cw_registry s = r" "cw_flights s = fs @ enter_flight e ws"
    and fired: "fire_waiters run e ws b = (b', a)"
    and again: "\<And>t g. \<not> a \<Longrightarrow> cw_registry t = r \<Longrightarrow> cw_flights t = fs @ [g] \<Longrightarrow> fl_waiters g = [] \<Longrightarrow> \<not> fl_accepted g \<Longrightarrow>
       fl_event g = e \<Longrightarrow> ws \<noteq> [] \<Longrightarrow> \<exists>t'. cw_step\<^sup>*\<^sup>* t t' \<and> cw_registry t' = r' \<and> cw_flights t' = fs"
  shows "\<exists>t. cw_step\<^sup>*\<^sup>* s t \<and> cw_registry t = (if ws \<noteq> [] \<and> \<not> a then r' else r) \<and> cw_flights t = fs"
proof (cases "ws = []")
  case True
  then show ?thesis using s by (intro exI[of _ s]) simp
next
  case False
  let ?f = "\<lparr>fl_event = e, fl_waiters = ws, fl_accepted = False\<rparr>"
  have "cw_flights s = fs @ [?f]" using s(2) False by (simp add: enter_flight_def)
  then obtain t where t: "cw_step\<^sup>*\<^sup>* s t" "cw_registry t = r"
    "cw_flights t = fs @ [\<lparr>fl_event = e, fl_waiters = [], fl_accepted = a\<rparr>]"
    using fire_waiters_run[of s fs ?f ws e run b] s(1) fired by auto
  show ?thesis
  proof (cases a)
    case True
    have "cw_step t (t\<lparr>cw_flights := fs, cw_accepted := add_mset e (cw_accepted t)\<rparr>)"
      using cw_step.settle[of t fs "\<lparr>fl_event = e, fl_waiters = [], fl_accepted = a\<rparr>" "[]"] t(3) True by simp
    with t(1) have "cw_step\<^sup>*\<^sup>* s (t\<lparr>cw_flights := fs, cw_accepted := add_mset e (cw_accepted t)\<rparr>)"
      by (rule rtranclp.rtrancl_into_rtrancl)
    then show ?thesis using t(2) True by (intro exI conjI) (assumption, simp_all)
  next
    case a: False
    then show ?thesis using again[OF a t(2,3)] t(1) False by (auto intro: rtranclp_trans)
  qed
qed

lemma relatch_run:
  "cw_registry s = bu_correlated b \<Longrightarrow> cw_flights s = fs @ [g] \<Longrightarrow> fl_waiters g = [] \<Longrightarrow> \<not> fl_accepted g \<Longrightarrow> fl_event g = e \<Longrightarrow>
   ev_request_id e = Some key \<Longrightarrow>
   \<exists>t. cw_step\<^sup>*\<^sup>* s t \<and> cw_registry t = bu_correlated (relatch_correlated run e b) \<and> cw_flights t = fs"
proof (induction run e b arbitrary: s g rule: relatch_correlated.induct)
  case ih: (1 run e b)
  obtain r ws where r: "relatch_section key e (bu_correlated b) = (r, ws)" by fastforce
  obtain b' a where f: "fire_waiters run e ws (b\<lparr>bu_correlated := r\<rparr>) = (b', a)" by fastforce
  have b': "bu_correlated b' = r" using fire_waiters_frame[of run e ws "b\<lparr>bu_correlated := r\<rparr>"] f by simp
  let ?s = "cw_relatch e (s\<lparr>cw_flights := fs\<rparr>)"
  have step: "cw_step s ?s" using cw_step.relatch[of s fs g "[]"] ih.prems by simp
  have s: "cw_registry ?s = r" "cw_flights ?s = fs @ enter_flight e ws"
    using ih.prems r by (simp_all add: cw_relatch_def)
  have "\<exists>t. cw_step\<^sup>*\<^sup>* ?s t \<and>
      cw_registry t = (if ws \<noteq> [] \<and> \<not> a then bu_correlated (relatch_correlated run e b') else r) \<and> cw_flights t = fs"
  proof (rule routed_run[OF s f], goal_cases)
    case (1 t g)
    then show ?case using ih.IH[OF ih.prems(6) r[symmetric] refl f[symmetric] refl, of t g] ih.prems(6) b' by simp
  qed
  moreover have "bu_correlated (relatch_correlated run e b) =
      (if ws \<noteq> [] \<and> \<not> a then bu_correlated (relatch_correlated run e b') else r)"
    using ih.prems(6) r f b' by (simp add: relatch_correlated.simps[of run e b])
  ultimately show ?case using step by (metis converse_rtranclp_into_rtranclp)
qed



section \<open>Samples\<close>

definition quiet_run :: "nat \<Rightarrow> unit envelope \<Rightarrow> (unit, unit) bus \<Rightarrow> (unit, unit) bus \<times> callback_outcome" where
  "quiet_run h e b = (b, CallbackPanicked PanicOther)"

definition quiet_invoke :: "unit \<Rightarrow> (unit, unit) bus \<Rightarrow> (unit, unit) bus \<times> callback_outcome" where
  "quiet_invoke d b = (b, CallbackReturned 0)"

definition sample_waiting_bus :: "(unit, unit) bus" where
  "sample_waiting_bus = fst (subscribe_correlated (\<lambda>_ _. WaiterDeclines) TyWsClosed 5 (new_bus bus_config_defaults (\<lambda>n. n)))"

lemma sample_waiting_live: "rg_live (bu_correlated sample_waiting_bus) = [((TyWsClosed, 5), [\<lparr>w_handle = 1, w_max_version = - 1\<rparr>])]"
  "\<not> bu_loop_failed sample_waiting_bus" "bu_dispatch_state sample_waiting_bus = ReactorNotStarted"
  by (simp_all add: sample_waiting_bus_def subscribe_correlated_def new_bus_def subscribe_section_def take_missed_def new_correlated_def
      live_waiters_def Let_def)




end
