(* ===== verification/Handler_Registry.thy ===== *)
theory Handler_Registry
  imports Wire_Types "HOL-Library.Multiset"
begin

text \<open>
  The handler registry of \<open>src/rust/src/dispatch/handler_registry.rs\<close> and the presence mirror it shares with the callers: the
  mirror counts, per channel, the handlers registered and those whose registration is under way. The steps interleave
  callers that register (\<open>register_handler_id_checked\<close> of \<open>src/rust/src/api/ws_surface/mod.rs\<close>), drops of handles and guards, and the reactor that
  drains its queue in order. Whether the queue accepts a post is left open, so every capacity and every closing is
  covered. Handler ids are never reused and not bounded. A callback is a parameter of the types.
\<close>

section \<open>The registry\<close>

record 'cb handler_entry =
  he_id :: nat
  he_callback :: 'cb

type_synonym 'cb handler_registry = "(channel_name, 'cb handler_entry list) hashmap"
type_synonym presence_mirror = "(channel_name, nat) hashmap"

definition handlers_for :: "'cb handler_registry \<Rightarrow> channel_name \<Rightarrow> 'cb handler_entry list" where
  "handlers_for hr ch = (case hm_get hr ch of None \<Rightarrow> [] | Some es \<Rightarrow> es)"

definition register_with_id :: "channel_name \<Rightarrow> nat \<Rightarrow> 'cb \<Rightarrow> 'cb handler_registry \<Rightarrow> 'cb handler_registry" where
  "register_with_id ch i cb hr = hm_insert ch (handlers_for hr ch @ [\<lparr>he_id = i, he_callback = cb\<rparr>]) hr"

definition bump_presence :: "channel_name \<Rightarrow> presence_mirror \<Rightarrow> presence_mirror" where
  "bump_presence ch m = hm_insert ch ((case hm_get m ch of None \<Rightarrow> 0 | Some c \<Rightarrow> c) + 1) m"

text \<open>The decrement of a confirmed removal, and of a registration that never reached the queue.\<close>

definition drop_presence :: "channel_name \<Rightarrow> presence_mirror \<Rightarrow> presence_mirror" where
  "drop_presence ch m =
     (case hm_get m ch of
        None \<Rightarrow> m
      | Some c \<Rightarrow> (if c - 1 = 0 then hm_remove ch m else hm_insert ch (c - 1) m))"

definition deregister_id :: "channel_name \<Rightarrow> nat \<Rightarrow> 'cb handler_registry \<times> presence_mirror \<Rightarrow> 'cb handler_registry \<times> presence_mirror" where
  "deregister_id ch i hp =
     (case hp of (hr, m) \<Rightarrow>
        (case hm_get hr ch of
           None \<Rightarrow> (hr, m)
         | Some es \<Rightarrow>
             (let es' = filter (\<lambda>e. he_id e \<noteq> i) es; hr' = hm_insert ch es' hr
              in if length es' \<noteq> length es then (hr', drop_presence ch m) else (hr', m))))"

definition presence_has_handlers :: "presence_mirror \<Rightarrow> channel_name \<Rightarrow> bool" where
  "presence_has_handlers m ch \<longleftrightarrow> (case hm_get m ch of None \<Rightarrow> False | Some c \<Rightarrow> c > 0)"

section \<open>Registrations and drops, interleaved\<close>

datatype 'cb handler_post = PostRegister channel_name nat 'cb | PostDeregister channel_name nat

record 'cb hs_state =
  hs_registry :: "'cb handler_registry"
  hs_mirror :: presence_mirror
  hs_next :: nat
  hs_entering :: "(channel_name \<times> nat \<times> 'cb) list"
  hs_queue :: "'cb handler_post list"

definition hs_init :: "'cb hs_state" where
  "hs_init = \<lparr>hs_registry = [], hs_mirror = [], hs_next = 1, hs_entering = [], hs_queue = []\<rparr>"

fun handle_post :: "'cb handler_post \<Rightarrow> 'cb handler_registry \<times> presence_mirror \<Rightarrow> 'cb handler_registry \<times> presence_mirror" where
  "handle_post (PostRegister ch i cb) (hr, m) = (register_with_id ch i cb hr, m)"
| "handle_post (PostDeregister ch i) hp = deregister_id ch i hp"

inductive hs_step :: "'cb hs_state \<Rightarrow> 'cb hs_state \<Rightarrow> bool" where
  allocate: "hs_step s (s\<lparr>hs_next := Suc (hs_next s), hs_mirror := bump_presence ch (hs_mirror s),
     hs_entering := (ch, hs_next s, cb) # hs_entering s\<rparr>)"
| accepted: "hs_entering s = xs @ (ch, i, cb) # ys \<Longrightarrow>
    hs_step s (s\<lparr>hs_entering := xs @ ys, hs_queue := hs_queue s @ [PostRegister ch i cb]\<rparr>)"
| rejected: "hs_entering s = xs @ (ch, i, cb) # ys \<Longrightarrow>
    hs_step s (s\<lparr>hs_entering := xs @ ys, hs_mirror := drop_presence ch (hs_mirror s)\<rparr>)"
| teardown: "hs_step s (s\<lparr>hs_queue := hs_queue s @ [PostDeregister ch i]\<rparr>)"
| drain: "hs_queue s = p # q \<Longrightarrow> handle_post p (hs_registry s, hs_mirror s) = (hr, m) \<Longrightarrow>
    hs_step s (s\<lparr>hs_queue := q, hs_registry := hr, hs_mirror := m\<rparr>)"

section \<open>The mirror counts exactly\<close>

fun post_ids :: "'cb handler_post \<Rightarrow> nat list" where
  "post_ids (PostRegister ch i cb) = [i]"
| "post_ids (PostDeregister ch i) = []"

fun registers_on :: "channel_name \<Rightarrow> 'cb handler_post \<Rightarrow> bool" where
  "registers_on ch (PostRegister ch' i cb) \<longleftrightarrow> ch' = ch"
| "registers_on ch (PostDeregister ch' i) \<longleftrightarrow> False"

definition under_way :: "'cb hs_state \<Rightarrow> channel_name \<Rightarrow> nat" where
  "under_way s ch = length (filter (\<lambda>(c, _). c = ch) (hs_entering s)) + length (filter (registers_on ch) (hs_queue s))"

definition known_ids :: "'cb handler_registry \<Rightarrow> nat multiset" where
  "known_ids hr = mset (map he_id (concat (map snd hr)))"

definition all_ids :: "'cb hs_state \<Rightarrow> nat multiset" where
  "all_ids s = mset (map (fst \<circ> snd) (hs_entering s)) + mset (concat (map post_ids (hs_queue s))) + known_ids (hs_registry s)"

definition mirror_count :: "presence_mirror \<Rightarrow> channel_name \<Rightarrow> nat" where
  "mirror_count m ch = (case hm_get m ch of None \<Rightarrow> 0 | Some c \<Rightarrow> c)"

definition hs_inv :: "'cb hs_state \<Rightarrow> bool" where
  "hs_inv s \<longleftrightarrow> hm_inv (hs_registry s) \<and> hm_inv (hs_mirror s) \<and> (\<forall>ch. hm_get (hs_mirror s) ch \<noteq> Some 0) \<and>
     (\<forall>i. count (all_ids s) i \<le> 1) \<and> (\<forall>i \<in># all_ids s. i < hs_next s) \<and>
     (\<forall>ch. mirror_count (hs_mirror s) ch = under_way s ch + length (handlers_for (hs_registry s) ch))"


lemma known_ids_insert:
  "known_ids (hm_insert ch es hr) + mset (map he_id (handlers_for hr ch)) = known_ids hr + mset (map he_id es)"
  by (induction hr) (auto simp: known_ids_def handlers_for_def)

lemma handlers_for_insert: "handlers_for (hm_insert ch es hr) ch' = (if ch' = ch then es else handlers_for hr ch')"
  by (simp add: handlers_for_def hm_simps)

lemma handlers_for_known: "count (mset (map he_id (handlers_for hr ch))) i \<le> count (known_ids hr) i"
  using arg_cong[OF known_ids_insert[of ch "[]" hr], of "\<lambda>M. count M i"] by simp

lemma mirror_count_bump: "mirror_count (bump_presence ch m) ch' = mirror_count m ch' + (if ch' = ch then 1 else 0)"
  by (simp add: mirror_count_def bump_presence_def hm_simps split: option.split)

lemma mirror_count_drop: "mirror_count (drop_presence ch m) ch' = mirror_count m ch' - (if ch' = ch then 1 else 0)"
  by (auto simp: mirror_count_def drop_presence_def hm_simps split: option.split)

lemma mirror_ok_bump: "hm_inv m \<Longrightarrow> hm_inv (bump_presence ch m)"
  "(\<And>c. hm_get m c \<noteq> Some 0) \<Longrightarrow> hm_get (bump_presence ch m) c \<noteq> Some 0"
  by (simp_all add: bump_presence_def hm_simps)

lemma mirror_ok_drop: "hm_inv m \<Longrightarrow> hm_inv (drop_presence ch m)"
  "(\<And>c. hm_get m c \<noteq> Some 0) \<Longrightarrow> hm_get (drop_presence ch m) c \<noteq> Some 0"
  by (auto simp: drop_presence_def hm_simps split: option.split)

lemma filter_once: "count (mset (map f xs)) i \<le> 1 \<Longrightarrow>
   length (filter (\<lambda>x. f x \<noteq> i) xs) + (if length (filter (\<lambda>x. f x \<noteq> i) xs) \<noteq> length xs then 1 else 0) = length xs"
proof (induction xs)
  case (Cons x xs)
  show ?case
  proof (cases "f x = i")
    case True
    with Cons.prems have "count (mset (map f xs)) i = 0" by simp
    then have "filter (\<lambda>x. f x \<noteq> i) xs = xs" unfolding count_mset_0_iff by (intro filter_True) auto
    then show ?thesis using True by simp
  next
    case False
    then show ?thesis using Cons by simp
  qed
qed simp

lemma deregister_id_effects:
  assumes "deregister_id ch i (hr, m) = (hr', m')" "count (known_ids hr) i \<le> 1" "hm_inv hr"
  shows "hm_inv hr'" "known_ids hr' \<subseteq># known_ids hr"
    "m' = (if length (handlers_for hr' ch) \<noteq> length (handlers_for hr ch) then drop_presence ch m else m)"
    "length (handlers_for hr' c) + (if c = ch \<and> length (handlers_for hr' ch) \<noteq> length (handlers_for hr ch) then 1 else 0) =
       length (handlers_for hr c)"
proof -
  let ?es = "filter (\<lambda>e. he_id e \<noteq> i) (handlers_for hr ch)"
  have hr': "hr' = (if hm_get hr ch = None then hr else hm_insert ch ?es hr)"
    and m': "m' = (if hm_get hr ch = None \<or> length ?es = length (handlers_for hr ch) then m else drop_presence ch m)"
    using assms(1) by (auto simp: deregister_id_def handlers_for_def Let_def split: option.splits if_splits)
  have at: "handlers_for hr' ch = ?es" by (auto simp: hr' handlers_for_def hm_simps)
  show "hm_inv hr'" using assms(3) by (simp add: hr' hm_simps)
  have sub: "mset (map he_id ?es) \<subseteq># mset (map he_id (handlers_for hr ch))"
    by (simp add: image_mset_subseteq_mono)
  have "count (known_ids (hm_insert ch ?es hr)) j \<le> count (known_ids hr) j" for j
    using arg_cong[OF known_ids_insert[of ch ?es hr], of "\<lambda>M. count M j"] mset_subset_eq_count[OF sub, of j]
    unfolding count_union by linarith
  then show "known_ids hr' \<subseteq># known_ids hr" by (simp add: hr' mset_subset_eqI)
  show "m' = (if length (handlers_for hr' ch) \<noteq> length (handlers_for hr ch) then drop_presence ch m else m)"
    unfolding at m' by (auto simp: handlers_for_def)
  show "length (handlers_for hr' c) + (if c = ch \<and> length (handlers_for hr' ch) \<noteq> length (handlers_for hr ch) then 1 else 0) =
       length (handlers_for hr c)"
  proof (cases "c = ch")
    case True
    then show ?thesis
      using filter_once[of he_id "handlers_for hr ch" i] handlers_for_known[of hr ch i] assms(2) at by simp
  next
    case False
    then show ?thesis by (simp add: hr' handlers_for_insert)
  qed
qed

lemma hs_step_inv:
  assumes "hs_step s t" "hs_inv s"
  shows "hs_inv t"
  using assms
proof (cases rule: hs_step.cases)
  case (allocate ch cb)
  have "count (all_ids s) (hs_next s) = 0" using assms(2) by (auto simp: hs_inv_def count_eq_zero_iff)
  moreover have "all_ids t = add_mset (hs_next s) (all_ids s)" by (simp add: allocate all_ids_def)
  ultimately show ?thesis using assms(2)
    by (auto simp: allocate hs_inv_def mirror_ok_bump mirror_count_bump under_way_def less_Suc_eq)
next
  case (accepted xs ch i cb ys)
  have "all_ids t = all_ids s" by (simp add: accepted all_ids_def)
  moreover have "under_way t c = under_way s c" for c by (simp add: accepted under_way_def)
  ultimately show ?thesis using assms(2) by (simp add: accepted hs_inv_def)
next
  case (rejected xs ch i cb ys)
  have ids: "all_ids s = add_mset i (all_ids t)" by (simp add: rejected all_ids_def)
  have "count (all_ids t) j \<le> 1" for j
    using assms(2) ids by (metis (no_types, lifting) count_add_mset hs_inv_def le_SucI not_less_eq_eq order_trans)
  moreover have "under_way s c = under_way t c + (if c = ch then 1 else 0)" for c by (simp add: rejected under_way_def)
  ultimately show ?thesis using assms(2) ids
    by (auto simp: hs_inv_def mirror_ok_drop mirror_count_drop) (auto simp: rejected mirror_ok_drop mirror_count_drop)
next
  case (teardown ch i)
  have "all_ids t = all_ids s" "under_way t c = under_way s c" for c by (simp_all add: teardown all_ids_def under_way_def)
  then show ?thesis using assms(2) by (simp add: teardown hs_inv_def)
next
  case (drain p q hr m)
  show ?thesis
  proof (cases p)
    case (PostRegister ch i cb)
    then have t: "t = s\<lparr>hs_queue := q, hs_registry := register_with_id ch i cb (hs_registry s), hs_mirror := hs_mirror s\<rparr>"
      using drain by simp
    have "all_ids t = all_ids s"
      using known_ids_insert[of ch "handlers_for (hs_registry s) ch @ [\<lparr>he_id = i, he_callback = cb\<rparr>]" "hs_registry s"]
      by (simp add: all_ids_def t drain(2) PostRegister register_with_id_def)
    moreover have "under_way s c = under_way t c + (if c = ch then 1 else 0)" for c
      by (simp add: under_way_def t drain(2) PostRegister)
    ultimately show ?thesis using assms(2)
      by (auto simp: hs_inv_def t register_with_id_def handlers_for_insert hm_simps)
  next
    case (PostDeregister ch i)
    have s: "hm_inv (hs_registry s)" "count (known_ids (hs_registry s)) i \<le> 1"
      using assms(2) by (auto simp: hs_inv_def all_ids_def intro: le_trans[OF le_add2])
    have d: "deregister_id ch i (hs_registry s, hs_mirror s) = (hr, m)" using drain(3) PostDeregister by simp
    note eff = deregister_id_effects[OF d s(2,1)]
    have ids: "all_ids t \<subseteq># all_ids s" using eff(2) by (simp add: all_ids_def drain PostDeregister)
    have "under_way t c = under_way s c" for c by (simp add: under_way_def drain PostDeregister)
    moreover have "count (all_ids t) j \<le> 1" "j \<in># all_ids t \<Longrightarrow> j < hs_next s" for j
      using assms(2) mset_subset_eq_count[OF ids, of j] mset_subset_eqD[OF ids, of j]
      by (auto simp: hs_inv_def intro: le_trans)
    moreover have "mirror_count m c = under_way s c + length (handlers_for hr c)" for c
      using assms(2) eff(3) eff(4)[of c] by (auto simp: hs_inv_def mirror_count_drop split: if_splits)
    ultimately show ?thesis using assms(2) eff(1,3)
      by (auto simp: hs_inv_def drain(1) mirror_ok_drop)
  qed
qed


lemma hs_init_inv: "hs_inv hs_init"
  by (simp add: hs_inv_def hs_init_def all_ids_def known_ids_def mirror_count_def under_way_def handlers_for_def)

lemma hs_reachable_inv: "hs_step\<^sup>*\<^sup>* hs_init s \<Longrightarrow> hs_inv s"
  by (induction rule: rtranclp_induct) (auto intro: hs_init_inv hs_step_inv)

text \<open>
  Property C16. The presence gate is exact at every moment of every interleaving: the mirror of a channel counts its registered handlers
  and the registrations still under way, no more and no less, so that a caller is refused for want of a handler
  exactly when there is neither; a registration the queue rejected leaves no trace, and a handle dropped twice, or after
  its registration was rejected, takes nothing from the others.
\<close>

theorem presence_is_exact:
  assumes "hs_step\<^sup>*\<^sup>* hs_init s"
  shows "mirror_count (hs_mirror s) ch = under_way s ch + length (handlers_for (hs_registry s) ch) \<and>
    (presence_has_handlers (hs_mirror s) ch \<longleftrightarrow> 0 < under_way s ch + length (handlers_for (hs_registry s) ch))"
proof -
  have "mirror_count (hs_mirror s) ch = under_way s ch + length (handlers_for (hs_registry s) ch)"
    using hs_reachable_inv[OF assms] by (simp add: hs_inv_def)
  moreover have "presence_has_handlers (hs_mirror s) ch \<longleftrightarrow> 0 < mirror_count (hs_mirror s) ch"
    by (simp add: presence_has_handlers_def mirror_count_def split: option.split)
  ultimately show ?thesis by simp
qed

definition sample_registered :: "unit hs_state" where
  "sample_registered = \<lparr>hs_registry = [(Ticker, [\<lparr>he_id = 1, he_callback = ()\<rparr>])], hs_mirror = [(Ticker, 1)], hs_next = 2, hs_entering = [],
     hs_queue = []\<rparr>"

lemma sample_registered_reachable: "hs_step\<^sup>*\<^sup>* hs_init sample_registered"
proof -
  let ?a = "\<lparr>hs_registry = [], hs_mirror = [(Ticker, 1)], hs_next = 2, hs_entering = [(Ticker, 1, ())], hs_queue = []\<rparr> :: unit hs_state"
  let ?b = "?a\<lparr>hs_entering := [], hs_queue := [PostRegister Ticker 1 ()]\<rparr>"
  have "hs_step hs_init ?a"
    using hs_step.allocate[of hs_init Ticker "()"] by (simp add: hs_init_def bump_presence_def numeral_2_eq_2)
  moreover have "hs_step ?a ?b" using hs_step.accepted[of ?a "[]" Ticker 1 "()" "[]"] by simp
  moreover have "hs_step ?b sample_registered"
    using hs_step.drain[of ?b "PostRegister Ticker 1 ()" "[]" "[(Ticker, [\<lparr>he_id = 1, he_callback = ()\<rparr>])]" "[(Ticker, 1)]"]
    by (simp add: sample_registered_def register_with_id_def handlers_for_def)
  ultimately show ?thesis by (meson r_into_rtranclp rtranclp.rtrancl_into_rtrancl)
qed

theorem presence_is_exact_witness: "presence_has_handlers (hs_mirror sample_registered) Ticker"
  using presence_is_exact[OF sample_registered_reachable, of Ticker] by (simp add: sample_registered_def handlers_for_def)

end
