(* ===== verification/Ws_Surface.thy ===== *)
theory Ws_Surface
  imports Handler_Registry Subscription_Registry Managed_Connection Rest_Surface
begin

text \<open>
  The caller side of the WebSocket client: the \<open>caller_to_io\<close> queue with its deferred teardowns
  (\<open>src/rust/src/dispatch/event_bus/mod.rs\<close>) and the facade of \<open>src/rust/src/api/ws_surface/mod.rs\<close>.
  \<^item> The bounded queue is \<open>tokio::sync::mpsc\<close>: its sender is the argument \<open>tx\<close>, with \<open>try_send\<close> and \<open>capacity\<close>.
  \<^item> The presence mirror and the subscription mirror are fields of the surface; poisoned locks are left out, but the flag
    of a dead loop and of a shutdown is read where the code reads it.
  \<^item> A completion sender is the number of the request it belongs to; \<open>wf_resolved\<close> logs what was sent on it directly.
  \<^item> Ids of handlers and requests are not bounded. \<open>now\<close> is what the clock reads during the call.
\<close>

section \<open>What callers post\<close>

datatype caller_event = StartConnect u64 | CallerClose u64 | CallerForceReconnect u64

datatype 'd registry_mutation_op =
    RegisterBatch "'d subscription_entry list" "nat option"
  | DeregisterOne channel_name "string option"
  | DeregisterBatch channel_name "string list"
  | DeregisterAll "channel_name option"

datatype ('d, 'cb) caller_inbound =
    InFsmEvent ws_url caller_event
  | InClientClose u64 instant
  | InRegistryMutation ws_url "'d registry_mutation_op"
  | InHandlerMutation "'cb handler_post"
  | InSubscriptionGuardDrop nat channel_name "string list"
  | InWsRequestFrame nat string ws_op json
  | InAbandonWsRequest nat

datatype post_reject = RejectFull | RejectClosed

record ('q, 'i) queue_sender =
  tx_try_send :: "'i \<Rightarrow> 'q \<Rightarrow> 'q \<times> post_reject option"
  tx_capacity :: "'q \<Rightarrow> nat"

record ('q, 'd, 'cb) ws_surface =
  wf_queue :: 'q
  wf_pending_teardowns :: "('d, 'cb) caller_inbound list"
  wf_has_pending_teardowns :: bool
  wf_last_teardown_flush_warn_at :: "instant option"
  wf_sample_interval_ms :: u32
  wf_loop_failed :: bool
  wf_shutting_down :: bool
  wf_presence_mirror :: presence_mirror
  wf_subscription_mirror :: "(sub_key, mirror_row) hashmap"
  wf_handler_id_alloc :: nat
  wf_req_id_counter :: nat
  wf_resolved :: "(nat \<times> connection_error) list"
  wf_connection_failed :: "ws_url \<Rightarrow> bool"

type_synonym ('q, 'd, 'cb) sender = "('q, ('d, 'cb) caller_inbound) queue_sender"

datatype subscription_error =
    SubNoHandlerRegistered channel_name | SubQueueFull | SubClientClosed | SubLoopDead | SubNotImplemented string | SubUnknown string string

section \<open>Posting and deferred teardowns\<close>

definition try_post_recovering_kind :: "('q, 'd, 'cb) sender \<Rightarrow> ('d, 'cb) caller_inbound \<Rightarrow>
    ('q, 'd, 'cb) ws_surface \<Rightarrow> ('q, 'd, 'cb) ws_surface \<times> post_reject option" where
  "try_post_recovering_kind tx x s = (case tx_try_send tx x (wf_queue s) of (q, res) \<Rightarrow> (s\<lparr>wf_queue := q\<rparr>, res))"

definition try_post_caller_inbound :: "('q, 'd, 'cb) sender \<Rightarrow> ('d, 'cb) caller_inbound \<Rightarrow>
    ('q, 'd, 'cb) ws_surface \<Rightarrow> ('q, 'd, 'cb) ws_surface \<times> (string + unit)" where
  "try_post_caller_inbound tx x s =
     (case try_post_recovering_kind tx x s of
        (s', None) \<Rightarrow> (s', Inr ())
      | (s', Some RejectFull) \<Rightarrow> (s', Inl ''caller_to_io'')
      | (s', Some RejectClosed) \<Rightarrow> (s', Inl ''caller_to_io (closed)''))"

definition requeue_pending_teardowns :: "('d, 'cb) caller_inbound list \<Rightarrow> ('q, 'd, 'cb) ws_surface \<Rightarrow> ('q, 'd, 'cb) ws_surface" where
  "requeue_pending_teardowns xs s =
     s\<lparr>wf_pending_teardowns := wf_pending_teardowns s @ xs, wf_has_pending_teardowns := (wf_pending_teardowns s @ xs \<noteq> [])\<rparr>"

definition maybe_warn_teardown_flush_full :: "instant \<Rightarrow> ('q, 'd, 'cb) ws_surface \<Rightarrow> ('q, 'd, 'cb) ws_surface" where
  "maybe_warn_teardown_flush_full now s =
     (let elapsed_ok = (case wf_last_teardown_flush_warn_at s of None \<Rightarrow> True
        | Some prev \<Rightarrow> now - prev \<ge> millis (unat (wf_sample_interval_ms s)))
      in if elapsed_ok then s\<lparr>wf_last_teardown_flush_warn_at := Some now\<rparr> else s)"

fun flush_items :: "('q, 'd, 'cb) sender \<Rightarrow> instant \<Rightarrow> nat \<Rightarrow>
    ('d, 'cb) caller_inbound list \<Rightarrow> ('q, 'd, 'cb) ws_surface \<Rightarrow> ('q, 'd, 'cb) ws_surface" where
  "flush_items tx now reserve [] s = s"
| "flush_items tx now reserve (x # xs) s =
     (if tx_capacity tx (wf_queue s) \<le> reserve then requeue_pending_teardowns (x # xs) s
      else case try_post_recovering_kind tx x s of
             (s', None) \<Rightarrow> flush_items tx now reserve xs s'
           | (s', Some RejectClosed) \<Rightarrow> s'
           | (s', Some RejectFull) \<Rightarrow> maybe_warn_teardown_flush_full now (requeue_pending_teardowns (x # xs) s'))"

definition flush_pending_teardowns_leaving :: "('q, 'd, 'cb) sender \<Rightarrow> instant \<Rightarrow>
    nat \<Rightarrow> ('q, 'd, 'cb) ws_surface \<Rightarrow> ('q, 'd, 'cb) ws_surface" where
  "flush_pending_teardowns_leaving tx now reserve s =
     (if \<not> wf_has_pending_teardowns s then s
      else if tx_capacity tx (wf_queue s) \<le> reserve then s
      else if wf_pending_teardowns s = [] then s\<lparr>wf_has_pending_teardowns := False\<rparr>
      else flush_items tx now reserve (wf_pending_teardowns s)
             (s\<lparr>wf_pending_teardowns := [], wf_has_pending_teardowns := False\<rparr>))"

definition flush_pending_teardowns :: "('q, 'd, 'cb) sender \<Rightarrow> instant \<Rightarrow> ('q, 'd, 'cb) ws_surface \<Rightarrow> ('q, 'd, 'cb) ws_surface" where
  "flush_pending_teardowns tx now = flush_pending_teardowns_leaving tx now 0"

definition post_teardown :: "('q, 'd, 'cb) sender \<Rightarrow> instant \<Rightarrow>
    ('d, 'cb) caller_inbound \<Rightarrow> ('q, 'd, 'cb) ws_surface \<Rightarrow> ('q, 'd, 'cb) ws_surface" where
  "post_teardown tx now x s =
     (case try_post_recovering_kind tx x (flush_pending_teardowns tx now s) of
        (s', None) \<Rightarrow> s'
      | (s', Some RejectClosed) \<Rightarrow> s'
      | (s', Some RejectFull) \<Rightarrow> requeue_pending_teardowns [x] s')"

text \<open>Dropping a handle and dropping a guard; \<open>bus_alive\<close> says whether the weak reference still resolves.\<close>

definition drop_handler_handle :: "('q, 'd, 'cb) sender \<Rightarrow> instant \<Rightarrow> bool \<Rightarrow>
    channel_name \<Rightarrow> nat \<Rightarrow> ('q, 'd, 'cb) ws_surface \<Rightarrow> ('q, 'd, 'cb) ws_surface" where
  "drop_handler_handle tx now bus_alive channel i s =
     (if \<not> bus_alive then s else post_teardown tx now (InHandlerMutation (PostDeregister channel i)) s)"

definition drop_subscription_guard :: "('q, 'd, 'cb) sender \<Rightarrow> instant \<Rightarrow> bool \<Rightarrow> nat \<Rightarrow>
    channel_name \<Rightarrow> string list \<Rightarrow> ('q, 'd, 'cb) ws_surface \<Rightarrow> ('q, 'd, 'cb) ws_surface" where
  "drop_subscription_guard tx now bus_alive i channel pairs s =
     (if \<not> bus_alive then s else post_teardown tx now (InSubscriptionGuardDrop i channel pairs) s)"

section \<open>Handlers and subscriptions\<close>

definition ws_url_for :: "channel_name \<Rightarrow> ws_url" where
  "ws_url_for channel = (if channel \<in> {Executions, Balances} then Auth else Public)"

definition post_reject_to_error :: "('q, 'd, 'cb) ws_surface \<Rightarrow> post_reject \<Rightarrow> subscription_error" where
  "post_reject_to_error s reject =
     (case reject of RejectFull \<Rightarrow> SubQueueFull | RejectClosed \<Rightarrow> if wf_loop_failed s then SubLoopDead else SubClientClosed)"

definition register_handler_id_checked :: "('q, 'd, 'cb) sender \<Rightarrow> instant \<Rightarrow> channel_name \<Rightarrow>
    'cb \<Rightarrow> ('q, 'd, 'cb) ws_surface \<Rightarrow> ('q, 'd, 'cb) ws_surface \<times> (nat \<times> subscription_error + nat)" where
  "register_handler_id_checked tx now channel cb s0 =
     (let s1 = flush_pending_teardowns tx now s0; i = wf_handler_id_alloc s1;
          s2 = s1\<lparr>wf_handler_id_alloc := Suc i, wf_presence_mirror := bump_presence channel (wf_presence_mirror s1)\<rparr>
      in case try_post_recovering_kind tx (InHandlerMutation (PostRegister channel i cb)) s2 of
           (s3, None) \<Rightarrow> (s3, Inr i)
         | (s3, Some e) \<Rightarrow>
             (s3\<lparr>wf_presence_mirror := drop_presence channel (wf_presence_mirror s3)\<rparr>, Inl (i, post_reject_to_error s3 e)))"

definition register_handler_id :: "('q, 'd, 'cb) sender \<Rightarrow> instant \<Rightarrow> channel_name \<Rightarrow>
    'cb \<Rightarrow> ('q, 'd, 'cb) ws_surface \<Rightarrow> ('q, 'd, 'cb) ws_surface \<times> nat" where
  "register_handler_id tx now channel cb s =
     (case register_handler_id_checked tx now channel cb s of (s', Inr i) \<Rightarrow> (s', i) | (s', Inl (i, _)) \<Rightarrow> (s', i))"

definition deregister_handler :: "('q, 'd, 'cb) sender \<Rightarrow> instant \<Rightarrow> channel_name \<Rightarrow>
    nat \<Rightarrow> ('q, 'd, 'cb) ws_surface \<Rightarrow> ('q, 'd, 'cb) ws_surface" where
  "deregister_handler tx now channel i = post_teardown tx now (InHandlerMutation (PostDeregister channel i))"

definition has_handlers :: "('q, 'd, 'cb) ws_surface \<Rightarrow> channel_name \<Rightarrow> bool" where
  "has_handlers s channel = presence_has_handlers (wf_presence_mirror s) channel"

definition post_or_error :: "('q, 'd, 'cb) sender \<Rightarrow> ('d, 'cb) caller_inbound \<Rightarrow>
    ('q, 'd, 'cb) ws_surface \<Rightarrow> ('q, 'd, 'cb) ws_surface \<times> (subscription_error + unit)" where
  "post_or_error tx x s =
     (case try_post_recovering_kind tx x s of (s', None) \<Rightarrow> (s', Inr ()) | (s', Some e) \<Rightarrow> (s', Inl (post_reject_to_error s' e)))"

definition subscribe_entries :: "channel_name \<Rightarrow> string list \<Rightarrow> subscribe_params \<Rightarrow> 'd subscription_entry list" where
  "subscribe_entries channel pairs params =
     (if pairs = [] then [entry_new (ws_url_for channel) channel None params]
      else map (\<lambda>p. entry_new (ws_url_for channel) channel (Some p) params) pairs)"

definition subscribe_with_ref :: "('q, 'd, 'cb) sender \<Rightarrow> instant \<Rightarrow> channel_name \<Rightarrow> string list \<Rightarrow>
    subscribe_params \<Rightarrow> nat option \<Rightarrow> ('q, 'd, 'cb) ws_surface \<Rightarrow> ('q, 'd, 'cb) ws_surface \<times> (subscription_error + unit)" where
  "subscribe_with_ref tx now channel pairs params ref_id s =
     (if wf_loop_failed s then (s, Inl SubLoopDead)
      else post_or_error tx (InRegistryMutation (ws_url_for channel) (RegisterBatch (subscribe_entries channel pairs params) ref_id))
             (flush_pending_teardowns tx now s))"

definition ws_subscribe :: "('q, 'd, 'cb) sender \<Rightarrow> instant \<Rightarrow> channel_name \<Rightarrow>
    string list \<Rightarrow> subscribe_params \<Rightarrow> ('q, 'd, 'cb) ws_surface \<Rightarrow> ('q, 'd, 'cb) ws_surface \<times> (subscription_error + unit)" where
  "ws_subscribe tx now channel pairs params = subscribe_with_ref tx now channel pairs params None"

definition register_and_subscribe_guarded :: "('q, 'd, 'cb) sender \<Rightarrow> instant \<Rightarrow> channel_name \<Rightarrow> string list \<Rightarrow>
    subscribe_params \<Rightarrow> 'cb \<Rightarrow> ('q, 'd, 'cb) ws_surface \<Rightarrow> ('q, 'd, 'cb) ws_surface \<times> (subscription_error + nat \<times> channel_name \<times> string list)" where
  "register_and_subscribe_guarded tx now channel pairs params cb s =
     (case register_handler_id_checked tx now channel cb s of
        (s1, Inl (_, e)) \<Rightarrow> (s1, Inl e)
      | (s1, Inr i) \<Rightarrow>
          (case subscribe_with_ref tx now (wire_channel channel) pairs params (Some i) s1 of
             (s2, Inl e) \<Rightarrow> (deregister_handler tx now channel i s2, Inl e)
           | (s2, Inr _) \<Rightarrow> (s2, Inr (i, channel, pairs))))"

definition unsubscribe_one :: "('q, 'd, 'cb) sender \<Rightarrow> ws_url \<Rightarrow> channel_name \<Rightarrow>
    string option \<Rightarrow> ('q, 'd, 'cb) ws_surface \<Rightarrow> ('q, 'd, 'cb) ws_surface \<times> (subscription_error + unit)" where
  "unsubscribe_one tx url channel pair = post_or_error tx (InRegistryMutation url (DeregisterOne channel pair))"

definition ws_unsubscribe :: "('q, 'd, 'cb) sender \<Rightarrow> instant \<Rightarrow> channel_name \<Rightarrow>
    string list \<Rightarrow> ('q, 'd, 'cb) ws_surface \<Rightarrow> ('q, 'd, 'cb) ws_surface \<times> (subscription_error + unit)" where
  "ws_unsubscribe tx now channel pairs s =
     (if wf_loop_failed s then (s, Inl SubLoopDead)
      else if pairs = [] then unsubscribe_one tx (ws_url_for channel) channel None (flush_pending_teardowns tx now s)
      else post_or_error tx (InRegistryMutation (ws_url_for channel) (DeregisterBatch channel pairs)) (flush_pending_teardowns tx now s))"

definition post_deregister_all :: "('q, 'd, 'cb) sender \<Rightarrow> channel_name option \<Rightarrow>
    ('q, 'd, 'cb) ws_surface \<Rightarrow> ('q, 'd, 'cb) ws_surface \<times> (subscription_error + unit)" where
  "post_deregister_all tx channel = post_or_error tx (InRegistryMutation Public (DeregisterAll channel))"

definition unsubscribe_channel :: "('q, 'd, 'cb) sender \<Rightarrow> instant \<Rightarrow>
    channel_name \<Rightarrow> ('q, 'd, 'cb) ws_surface \<Rightarrow> ('q, 'd, 'cb) ws_surface \<times> (subscription_error + unit)" where
  "unsubscribe_channel tx now channel s =
     (if wf_loop_failed s then (s, Inl SubLoopDead) else post_deregister_all tx (Some channel) (flush_pending_teardowns tx now s))"

definition unsubscribe_all :: "('q, 'd, 'cb) sender \<Rightarrow> instant \<Rightarrow>
    ('q, 'd, 'cb) ws_surface \<Rightarrow> ('q, 'd, 'cb) ws_surface \<times> (subscription_error + unit)" where
  "unsubscribe_all tx now s =
     (if wf_loop_failed s then (s, Inl SubLoopDead) else post_deregister_all tx None (flush_pending_teardowns tx now s))"

section \<open>Requests\<close>

definition next_req_id :: "('q, 'd, 'cb) ws_surface \<Rightarrow> ('q, 'd, 'cb) ws_surface \<times> nat" where
  "next_req_id s = (s\<lparr>wf_req_id_counter := Suc (wf_req_id_counter s)\<rparr>, wf_req_id_counter s)"

definition from_method :: "string \<Rightarrow> ws_op option" where
  "from_method m =
     (if m = ''add_order'' then Some AddOrder
      else if m = ''amend_order'' then Some AmendOrder
      else if m = ''cancel_order'' then Some CancelOrder
      else if m = ''cancel_all'' then Some CancelAll
      else if m = ''cancel_all_orders_after'' then Some CancelAllOrdersAfter
      else if m = ''batch_add'' then Some BatchAdd
      else None)"

definition send_request_inner :: "('q, 'd, 'cb) sender \<Rightarrow> string \<Rightarrow> nat \<Rightarrow>
    json \<Rightarrow> ('q, 'd, 'cb) ws_surface \<Rightarrow> ('q, 'd, 'cb) ws_surface \<times> post_reject option" where
  "send_request_inner tx mth req_id params s =
     (let op = (case from_method mth of None \<Rightarrow> AddOrder | Some op \<Rightarrow> op)
      in case try_post_recovering_kind tx (InWsRequestFrame req_id mth op params) s of
           (s', None) \<Rightarrow> (s', None)
         | (s', Some reject) \<Rightarrow>
             (s'\<lparr>wf_resolved := wf_resolved s' @ [(req_id, case reject of RejectFull \<Rightarrow> QueueFull | RejectClosed \<Rightarrow> NotOpen)]\<rparr>, Some reject))"

text \<open>The tracker and the API key are those of the REST surface; with no key nothing is charged.\<close>

definition send_request_costed :: "('q, 'd, 'cb) sender \<Rightarrow> (api_key \<Rightarrow> string) \<Rightarrow> knobs \<Rightarrow> api_key option \<Rightarrow> instant \<Rightarrow> string \<Rightarrow>
    nat \<Rightarrow> json \<Rightarrow> rate_limit_cost \<Rightarrow> trading_tracker \<Rightarrow> ('q, 'd, 'cb) ws_surface \<Rightarrow> ('q, 'd, 'cb) ws_surface \<times> trading_tracker \<times> (rate_limit_exceeded + nat)" where
  "send_request_costed tx fp k api_key now mth req_id params cost tr s =
     (let (tr1, charged) =
        (case api_key of
           None \<Rightarrow> (tr, Inr None)
         | Some key \<Rightarrow>
             (case cost of
                CostTrading c pair \<Rightarrow>
                  (case trading_consume fp k (ScopePair key pair) c now tr of
                     (t, Inl e) \<Rightarrow> (t, Inl e)
                   | (t, Inr _) \<Rightarrow> (t, Inr (Some (ScopePair key pair, c))))
              | CostTradingAccountWide c \<Rightarrow> (charge_account_wide (ScopeApiKey key) c now tr, Inr None)
              | _ \<Rightarrow> (tr, Inr None)))
      in case charged of
           Inl e \<Rightarrow> (s, tr1, Inl e)
         | Inr ch \<Rightarrow>
             (case send_request_inner tx mth req_id params s of
                (s', None) \<Rightarrow> (s', tr1, Inr req_id)
              | (s', Some _) \<Rightarrow>
                  (s', (case ch of None \<Rightarrow> tr1 | Some (scope, c) \<Rightarrow> trading_credit scope c now tr1), Inr req_id)))"

definition abandon_request :: "('q, 'd, 'cb) sender \<Rightarrow> nat \<Rightarrow> ('q, 'd, 'cb) ws_surface \<Rightarrow> ('q, 'd, 'cb) ws_surface" where
  "abandon_request tx req_id s = fst (try_post_caller_inbound tx (InAbandonWsRequest req_id) s)"

section \<open>Read models\<close>

record subscription_info =
  si_channel :: channel_name
  si_pair :: "string option"
  si_state :: subscription_state

record subscription_ref =
  sf_channel :: channel_name
  sf_symbol :: "string option"
  sf_state :: subscription_state
  sf_registered_at_ms :: u64

record subscriptions_summary =
  ss_total :: nat
  ss_active :: nat
  ss_pending :: nat
  ss_failed :: nat
  ss_by_channel :: "(channel_name, nat) hashmap"

definition project_with_connection :: "(ws_url \<Rightarrow> bool) \<Rightarrow> channel_name \<Rightarrow> subscription_state \<Rightarrow> subscription_state" where
  "project_with_connection conn_failed channel state =
     (case state of
        SFailed _ \<Rightarrow> state
      | _ \<Rightarrow> if conn_failed (ws_url_for channel) then SFailed ConnectionFailedCause else state)"

definition read_model_mirror :: "('q, 'd, 'cb) ws_surface \<Rightarrow> subscription_error + (sub_key, mirror_row) hashmap" where
  "read_model_mirror s =
     (if wf_loop_failed s then Inl SubLoopDead
      else if wf_shutting_down s then Inl SubClientClosed
      else Inr (wf_subscription_mirror s))"

definition row_projection :: "('q, 'd, 'cb) ws_surface \<Rightarrow> channel_name \<Rightarrow> mirror_row \<Rightarrow> subscription_state" where
  "row_projection s channel row = project_with_connection (wf_connection_failed s) channel (project_state (row_state row))"

definition list_active :: "('q, 'd, 'cb) ws_surface \<Rightarrow> subscription_error + subscription_info list" where
  "list_active s =
     (case read_model_mirror s of
        Inl e \<Rightarrow> Inl e
      | Inr m \<Rightarrow>
          Inr (sort_key (\<lambda>i. subscription_order_key (si_channel i) (si_pair i))
                (map (\<lambda>((channel, pair), row). \<lparr>si_channel = channel, si_pair = pair, si_state = row_projection s channel row\<rparr>) m)))"

definition find_by_channel :: "channel_name \<Rightarrow> ('q, 'd, 'cb) ws_surface \<Rightarrow> subscription_error + subscription_ref list" where
  "find_by_channel channel s =
     (case read_model_mirror s of
        Inl e \<Rightarrow> Inl e
      | Inr m \<Rightarrow>
          Inr (sort_key (\<lambda>i. subscription_order_key (sf_channel i) (sf_symbol i))
                (map (\<lambda>((ch, pair), row). \<lparr>sf_channel = ch, sf_symbol = pair, sf_state = row_projection s ch row,
                       sf_registered_at_ms = word_of_nat (registered_at row div 1000000)\<rparr>)
                  (filter (\<lambda>((ch, _), _). ch = wire_channel channel) m))))"

definition count_row :: "('q, 'd, 'cb) ws_surface \<Rightarrow> subscriptions_summary \<Rightarrow>
    sub_key \<times> mirror_row \<Rightarrow> subscriptions_summary" where
  "count_row s acc kr =
     (case kr of ((channel, pair), row) \<Rightarrow>
        let acc1 = acc\<lparr>ss_total := ss_total acc + 1\<rparr>;
            acc2 = (case row_projection s channel row of
                      SActive \<Rightarrow> acc1\<lparr>ss_active := ss_active acc1 + 1\<rparr>
                    | SPending \<Rightarrow> acc1\<lparr>ss_pending := ss_pending acc1 + 1\<rparr>
                    | SFailed _ \<Rightarrow> acc1\<lparr>ss_failed := ss_failed acc1 + 1\<rparr>)
        in acc2\<lparr>ss_by_channel := hm_insert channel ((case hm_get (ss_by_channel acc2) channel of None \<Rightarrow> 0 | Some c \<Rightarrow> c) + 1)
              (ss_by_channel acc2)\<rparr>)"

definition status_summary :: "('q, 'd, 'cb) ws_surface \<Rightarrow> subscription_error + subscriptions_summary" where
  "status_summary s =
     (case read_model_mirror s of
        Inl e \<Rightarrow> Inl e
      | Inr m \<Rightarrow> Inr (foldl (count_row s) \<lparr>ss_total = 0, ss_active = 0, ss_pending = 0, ss_failed = 0, ss_by_channel = []\<rparr> m))"

end
