(* ===== verification/Ws_Properties.thy ===== *)
theory Ws_Properties
  imports Ws_Surface
begin

text \<open>
  What the caller side of the WebSocket client promises: a teardown is posted or kept for the next flush and never forgotten, a
  guarded subscription that fails unwinds its handler, and the read models agree with each other.
\<close>

section \<open>The sender\<close>

text \<open>
  What the code relies on of the bounded queue, with the history of the items it accepted: an item is accepted or left out, a post
  is rejected as closed only when the receiver is gone, and a queue that lost its receiver does not regain one.
\<close>

definition sender_ok :: "('q, 'd, 'cb) sender \<Rightarrow> ('q \<Rightarrow> ('d, 'cb) caller_inbound list) \<Rightarrow> ('q \<Rightarrow> bool) \<Rightarrow> bool" where
  "sender_ok tx posted shut \<longleftrightarrow> (\<forall>x q. case tx_try_send tx x q of (q', res) \<Rightarrow>
     posted q' = (if res = None then posted q @ [x] else posted q) \<and> (res = Some RejectClosed \<longrightarrow> shut q') \<and> (shut q \<longrightarrow> shut q'))"

definition accounted :: "('q \<Rightarrow> ('d, 'cb) caller_inbound list) \<Rightarrow> ('q, 'd, 'cb) ws_surface \<Rightarrow> ('d, 'cb) caller_inbound multiset" where
  "accounted posted s = mset (posted (wf_queue s)) + mset (wf_pending_teardowns s)"

definition flag_ok :: "('q, 'd, 'cb) ws_surface \<Rightarrow> bool" where
  "flag_ok s \<longleftrightarrow> wf_has_pending_teardowns s = (wf_pending_teardowns s \<noteq> [])"

lemma try_post_effects:
  assumes "sender_ok tx posted shut" "try_post_recovering_kind tx x s = (s', res)"
  shows "posted (wf_queue s') = (if res = None then posted (wf_queue s) @ [x] else posted (wf_queue s))"
    "res = Some RejectClosed \<Longrightarrow> shut (wf_queue s')" "shut (wf_queue s) \<Longrightarrow> shut (wf_queue s')"
    "wf_pending_teardowns s' = wf_pending_teardowns s" "flag_ok s' = flag_ok s"
    "wf_presence_mirror s' = wf_presence_mirror s" "wf_handler_id_alloc s' = wf_handler_id_alloc s" "wf_loop_failed s' = wf_loop_failed s"
proof -
  obtain q where q: "tx_try_send tx x (wf_queue s) = (q, res)" "s' = s\<lparr>wf_queue := q\<rparr>"
    using assms(2) by (auto simp: try_post_recovering_kind_def split: prod.splits)
  have "posted q = (if res = None then posted (wf_queue s) @ [x] else posted (wf_queue s)) \<and> (res = Some RejectClosed \<longrightarrow> shut q) \<and>
      (shut (wf_queue s) \<longrightarrow> shut q)"
    using assms(1) q(1) unfolding sender_ok_def by (metis (mono_tags, lifting) case_prod_conv)
  then show "posted (wf_queue s') = (if res = None then posted (wf_queue s) @ [x] else posted (wf_queue s))"
    "res = Some RejectClosed \<Longrightarrow> shut (wf_queue s')" "shut (wf_queue s) \<Longrightarrow> shut (wf_queue s')"
    "wf_pending_teardowns s' = wf_pending_teardowns s" "flag_ok s' = flag_ok s"
    "wf_presence_mirror s' = wf_presence_mirror s" "wf_handler_id_alloc s' = wf_handler_id_alloc s" "wf_loop_failed s' = wf_loop_failed s"
    by (simp_all add: q(2) flag_ok_def)
qed

lemma requeue_effects [simp]:
  "wf_queue (requeue_pending_teardowns xs s) = wf_queue s"
  "wf_pending_teardowns (requeue_pending_teardowns xs s) = wf_pending_teardowns s @ xs" "flag_ok (requeue_pending_teardowns xs s)"
  "wf_presence_mirror (requeue_pending_teardowns xs s) = wf_presence_mirror s"
  "wf_handler_id_alloc (requeue_pending_teardowns xs s) = wf_handler_id_alloc s"
  "wf_loop_failed (requeue_pending_teardowns xs s) = wf_loop_failed s"
  by (simp_all add: requeue_pending_teardowns_def flag_ok_def)

lemma maybe_warn_effects [simp]:
  "wf_queue (maybe_warn_teardown_flush_full now s) = wf_queue s"
  "wf_pending_teardowns (maybe_warn_teardown_flush_full now s) = wf_pending_teardowns s" "flag_ok (maybe_warn_teardown_flush_full now s) = flag_ok s"
  "wf_presence_mirror (maybe_warn_teardown_flush_full now s) = wf_presence_mirror s"
  "wf_handler_id_alloc (maybe_warn_teardown_flush_full now s) = wf_handler_id_alloc s"
  "wf_loop_failed (maybe_warn_teardown_flush_full now s) = wf_loop_failed s"
  by (simp_all add: maybe_warn_teardown_flush_full_def flag_ok_def Let_def)

text \<open>What an operation that only moves teardowns towards the queue does.\<close>

definition moves :: "('q \<Rightarrow> ('d, 'cb) caller_inbound list) \<Rightarrow> ('q \<Rightarrow> bool) \<Rightarrow> ('d, 'cb) caller_inbound list \<Rightarrow>
    ('q, 'd, 'cb) ws_surface \<Rightarrow> ('q, 'd, 'cb) ws_surface \<Rightarrow> bool" where
  "moves posted shut xs s t \<longleftrightarrow>
     (shut (wf_queue s) \<longrightarrow> shut (wf_queue t)) \<and> (shut (wf_queue t) \<or> accounted posted t = accounted posted s + mset xs) \<and>
     prefix (posted (wf_queue s)) (posted (wf_queue t)) \<and>
     set (posted (wf_queue t)) \<subseteq> set (posted (wf_queue s)) \<union> set (wf_pending_teardowns s) \<union> set xs \<and>
     set (wf_pending_teardowns t) \<subseteq> set (wf_pending_teardowns s) \<union> set xs \<and>
     flag_ok t \<and> wf_presence_mirror t = wf_presence_mirror s \<and> wf_handler_id_alloc t = wf_handler_id_alloc s \<and>
     wf_loop_failed t = wf_loop_failed s"

lemma flush_items_moves:
  assumes "sender_ok tx posted shut"
  shows "flag_ok s \<Longrightarrow> moves posted shut xs s (flush_items tx now reserve xs s)"
proof (induction xs arbitrary: s)
  case Nil
  then show ?case by (simp add: moves_def)
next
  case (Cons x xs)
  obtain s' res where p: "try_post_recovering_kind tx x s = (s', res)" by fastforce
  note eff = try_post_effects[OF assms p]
  show ?case
  proof (cases "tx_capacity tx (wf_queue s) \<le> reserve")
    case True
    then show ?thesis by (auto simp: moves_def accounted_def)
  next
    case False
    show ?thesis
    proof (cases res)
      case None
      have "moves posted shut xs s' (flush_items tx now reserve xs s')" using Cons eff(5) by simp
      then show ?thesis using eff False p None
        by (auto simp: moves_def accounted_def dest: append_prefixD)
    next
      case (Some r)
      then show ?thesis using eff Cons.prems False p by (cases r) (auto simp: moves_def accounted_def)
    qed
  qed
qed


lemma flush_moves:
  assumes "sender_ok tx posted shut" "flag_ok s"
  shows "moves posted shut [] s (flush_pending_teardowns_leaving tx now reserve s)"
proof -
  let ?s = "s\<lparr>wf_pending_teardowns := [], wf_has_pending_teardowns := False\<rparr>"
  have "moves posted shut (wf_pending_teardowns s) ?s (flush_items tx now reserve (wf_pending_teardowns s) ?s)"
    by (rule flush_items_moves[OF assms(1)]) (simp add: flag_ok_def)
  then have "moves posted shut [] s (flush_items tx now reserve (wf_pending_teardowns s) ?s)"
    by (simp add: moves_def accounted_def)
  moreover have "moves posted shut [] s s" using assms(2) by (simp add: moves_def)
  ultimately show ?thesis
    using assms(2) by (simp add: flush_pending_teardowns_leaving_def flag_ok_def)
qed

lemma post_after_flush:
  assumes "sender_ok tx posted shut" "moves posted shut xs s s1" "try_post_recovering_kind tx x s1 = (s2, res)"
  shows "res = None \<Longrightarrow> moves posted shut (xs @ [x]) s s2"
    "res = Some RejectClosed \<Longrightarrow> shut (wf_queue s2)" "res \<noteq> None \<Longrightarrow> moves posted shut xs s s2"
  using assms(2) try_post_effects[OF assms(1,3)]
  by (auto simp: moves_def accounted_def prefix_order.dual_order.trans[OF prefixI])

lemma post_teardown_moves:
  assumes "sender_ok tx posted shut" "flag_ok s"
  shows "moves posted shut [x] s (post_teardown tx now x s)"
proof -
  obtain s2 res where p: "try_post_recovering_kind tx x (flush_pending_teardowns tx now s) = (s2, res)" by fastforce
  have f: "moves posted shut [] s (flush_pending_teardowns tx now s)"
    unfolding flush_pending_teardowns_def by (rule flush_moves[OF assms])
  note post = post_after_flush[OF assms(1) f p]
  consider "res = None" | "res = Some RejectClosed" | "res = Some RejectFull"
    by (metis (full_types) not_None_eq post_reject.exhaust)
  then show ?thesis
  proof cases
    case 3
    then have "moves posted shut [] s s2" using post(3) by simp
    then show ?thesis using 3 p by (auto simp: post_teardown_def moves_def accounted_def)
  qed (use p post in \<open>auto simp: post_teardown_def moves_def\<close>)
qed

text \<open>
  Property C18. A teardown is never forgotten: unless the reactor is gone, after a drop of a handle or guard the items posted so far and the items
  kept for a later flush are exactly those of before and the new one, nothing posted is taken back, and the flag that makes
  the next call flush is up whenever something is kept.
\<close>

theorem teardowns_never_lost:
  assumes "sender_ok tx posted shut" "flag_ok s" "\<not> shut (wf_queue (post_teardown tx now x s))"
  shows "mset (posted (wf_queue (post_teardown tx now x s))) + mset (wf_pending_teardowns (post_teardown tx now x s)) =
      add_mset x (mset (posted (wf_queue s)) + mset (wf_pending_teardowns s)) \<and>
    prefix (posted (wf_queue s)) (posted (wf_queue (post_teardown tx now x s))) \<and> flag_ok (post_teardown tx now x s)"
  using post_teardown_moves[OF assms(1,2), of x now] assms(3) by (simp add: moves_def accounted_def)


section \<open>Guarded subscriptions\<close>

lemma moves_presence: "moves posted shut xs (s\<lparr>wf_handler_id_alloc := n, wf_presence_mirror := m\<rparr>) t \<Longrightarrow>
   (shut (wf_queue t) \<or> accounted posted t = accounted posted s + mset xs) \<and> flag_ok t \<and> wf_presence_mirror t = m \<and>
   (shut (wf_queue s) \<longrightarrow> shut (wf_queue t))"
  by (simp add: moves_def accounted_def)

lemma register_effects:
  assumes "sender_ok tx posted shut" "flag_ok s" "register_handler_id_checked tx now ch cb s = (t, res)"
  shows "flag_ok t" "\<not> shut (wf_queue t) \<Longrightarrow> case res of
      Inr i \<Rightarrow> i = wf_handler_id_alloc s \<and> accounted posted t = add_mset (InHandlerMutation (PostRegister ch i cb)) (accounted posted s) \<and>
        wf_presence_mirror t = bump_presence ch (wf_presence_mirror s)
    | Inl (i, e) \<Rightarrow> i = wf_handler_id_alloc s \<and> accounted posted t = accounted posted s \<and>
        wf_presence_mirror t = drop_presence ch (bump_presence ch (wf_presence_mirror s))"
proof -
  let ?s1 = "flush_pending_teardowns tx now s" and ?i = "wf_handler_id_alloc s"
  have f: "moves posted shut [] s ?s1" unfolding flush_pending_teardowns_def by (rule flush_moves[OF assms(1,2)])
  then have s1: "wf_handler_id_alloc ?s1 = ?i" "wf_presence_mirror ?s1 = wf_presence_mirror s"
    "shut (wf_queue ?s1) \<or> accounted posted ?s1 = accounted posted s" "flag_ok ?s1" by (auto simp: moves_def)
  let ?s2 = "?s1\<lparr>wf_handler_id_alloc := Suc ?i, wf_presence_mirror := bump_presence ch (wf_presence_mirror s)\<rparr>"
  let ?x = "InHandlerMutation (PostRegister ch ?i cb)"
  obtain s3 r where p: "try_post_recovering_kind tx ?x ?s2 = (s3, r)" by fastforce
  have t: "t = (if r = None then s3 else s3\<lparr>wf_presence_mirror := drop_presence ch (wf_presence_mirror s3)\<rparr>)"
    "res = (case r of None \<Rightarrow> Inr ?i | Some e \<Rightarrow> Inl (?i, post_reject_to_error s3 e))"
    using assms(3) p s1(1,2) by (auto simp: register_handler_id_checked_def Let_def split: option.splits)
  note eff = try_post_effects[OF assms(1) p]
  show "flag_ok t" using eff(5) s1(4) t(1) by (simp add: flag_ok_def split: if_splits)
  assume "\<not> shut (wf_queue t)"
  moreover have "shut (wf_queue ?s1) \<Longrightarrow> shut (wf_queue t)" using eff(3) t(1) by simp
  ultimately have acc: "accounted posted ?s1 = accounted posted s" using s1(3) by blast
  show "case res of
      Inr i \<Rightarrow> i = wf_handler_id_alloc s \<and> accounted posted t = add_mset (InHandlerMutation (PostRegister ch i cb)) (accounted posted s) \<and>
        wf_presence_mirror t = bump_presence ch (wf_presence_mirror s)
    | Inl (i, e) \<Rightarrow> i = wf_handler_id_alloc s \<and> accounted posted t = accounted posted s \<and>
        wf_presence_mirror t = drop_presence ch (bump_presence ch (wf_presence_mirror s))"
    using eff(1,4,6) acc t by (cases r) (auto simp: accounted_def)
qed

lemma subscribe_effects:
  assumes "sender_ok tx posted shut" "flag_ok s" "subscribe_with_ref tx now ch pairs params rid s = (t, res)"
  shows "flag_ok t" "shut (wf_queue s) \<Longrightarrow> shut (wf_queue t)"
    "\<not> shut (wf_queue t) \<Longrightarrow> accounted posted t = accounted posted s + (if res = Inr () then
       {#InRegistryMutation (ws_url_for ch) (RegisterBatch (subscribe_entries ch pairs params) rid)#} else {#})"
proof -
  let ?x = "InRegistryMutation (ws_url_for ch) (RegisterBatch (subscribe_entries ch pairs params) rid)"
  obtain s2 r where p: "try_post_recovering_kind tx ?x (flush_pending_teardowns tx now s) = (s2, r)" by fastforce
  have f: "moves posted shut [] s (flush_pending_teardowns tx now s)"
    unfolding flush_pending_teardowns_def by (rule flush_moves[OF assms(1,2)])
  have m: "moves posted shut (if r = None then [?x] else []) s s2" using post_after_flush(1,3)[OF assms(1) f p] by auto
  have t: "(t, res) = (if wf_loop_failed s then (s, Inl SubLoopDead) else (s2, if r = None then Inr () else Inl (post_reject_to_error s2 (the r))))"
    using assms(3) p by (auto simp: subscribe_with_ref_def post_or_error_def split: option.splits)
  show "flag_ok t" "shut (wf_queue s) \<Longrightarrow> shut (wf_queue t)"
    using t m assms(2) by (auto simp: moves_def split: if_splits)
  show "accounted posted t = accounted posted s + (if res = Inr () then {#?x#} else {#})" if "\<not> shut (wf_queue t)"
    using t m that by (auto simp: moves_def split: if_splits)
qed

text \<open>
  Property C17. A guarded subscription happens whole or not at all: on success the queue was given the handler and one batch with an entry for every
  pair under the handler's id, and nothing else; on an error the batch was not posted and the handler is either not
  posted, its presence taken back, or followed by its own deregistration, posted or kept for the next flush.
\<close>

theorem guarded_subscription_all_or_nothing:
  assumes "sender_ok tx posted shut" "flag_ok s"
    "register_and_subscribe_guarded tx now ch pairs params cb s = (t, res)" "\<not> shut (wf_queue t)"
  shows "let i = wf_handler_id_alloc s; reg = InHandlerMutation (PostRegister ch i cb); dereg = InHandlerMutation (PostDeregister ch i);
      batch = InRegistryMutation (ws_url_for (wire_channel ch)) (RegisterBatch (subscribe_entries (wire_channel ch) pairs params) (Some i));
      before = mset (posted (wf_queue s)) + mset (wf_pending_teardowns s); after = mset (posted (wf_queue t)) + mset (wf_pending_teardowns t)
    in case res of
         Inr guard \<Rightarrow> guard = (i, ch, pairs) \<and> after = before + {#reg, batch#}
       | Inl e \<Rightarrow> after = before \<and> wf_presence_mirror t = drop_presence ch (bump_presence ch (wf_presence_mirror s)) \<or>
                  after = before + {#reg, dereg#}"
proof -
  obtain s1 r1 where r: "register_handler_id_checked tx now ch cb s = (s1, r1)" by fastforce
  show ?thesis
  proof (cases r1)
    case (Inl ie)
    then have "t = s1" "res = Inl (snd ie)" using assms(3) r by (auto simp: register_and_subscribe_guarded_def split: prod.splits)
    then show ?thesis using register_effects(2)[OF assms(1,2) r] assms(4) Inl by (auto simp: accounted_def Let_def split: prod.splits)
  next
    case (Inr i)
    obtain s2 r2 where sub: "subscribe_with_ref tx now (wire_channel ch) pairs params (Some i) s1 = (s2, r2)" by fastforce
    note f1 = register_effects(1)[OF assms(1,2) r]
    note sub_eff = subscribe_effects[OF assms(1) f1 sub]
    show ?thesis
    proof (cases r2)
      case (Inr u)
      then have t: "t = s2" "res = Inr (i, ch, pairs)" using assms(3) r sub \<open>r1 = Inr i\<close> by (auto simp: register_and_subscribe_guarded_def)
      then have "\<not> shut (wf_queue s1)" using sub_eff(2) assms(4) by blast
      then show ?thesis
        using register_effects(2)[OF assms(1,2) r] sub_eff(3) assms(4) Inr t \<open>r1 = Inr i\<close> by (auto simp: accounted_def Let_def)
    next
      case (Inl e)
      then have t: "t = deregister_handler tx now ch i s2" "res = Inl e"
        using assms(3) r sub \<open>r1 = Inr i\<close> by (auto simp: register_and_subscribe_guarded_def)
      have m: "moves posted shut [InHandlerMutation (PostDeregister ch i)] s2 t"
        unfolding t deregister_handler_def by (rule post_teardown_moves[OF assms(1) sub_eff(1)])
      then have open_: "\<not> shut (wf_queue s2)" "\<not> shut (wf_queue s1)" using assms(4) sub_eff(2) by (auto simp: moves_def)
      have "accounted posted t = add_mset (InHandlerMutation (PostDeregister ch i)) (accounted posted s2)"
        using m assms(4) by (simp add: moves_def)
      moreover have "accounted posted s2 = accounted posted s1" using sub_eff(3)[OF open_(1)] Inl by simp
      moreover have "i = wf_handler_id_alloc s" "accounted posted s1 = add_mset (InHandlerMutation (PostRegister ch i cb)) (accounted posted s)"
        using register_effects(2)[OF assms(1,2) r open_(2)] \<open>r1 = Inr i\<close> by simp_all
      ultimately show ?thesis by (simp add: t(2) accounted_def Let_def)
    qed
  qed
qed

section \<open>Read models\<close>

definition summary_of :: "subscription_info list \<Rightarrow> nat \<times> nat \<times> nat \<times> nat \<times> (channel_name \<Rightarrow> nat)" where
  "summary_of rows = (length rows, length (filter (\<lambda>i. si_state i = SActive) rows), length (filter (\<lambda>i. si_state i = SPending) rows),
     length (filter (\<lambda>i. si_state i \<noteq> SActive \<and> si_state i \<noteq> SPending) rows), \<lambda>ch. length (filter (\<lambda>i. si_channel i = ch) rows))"

definition channel_count :: "(channel_name, nat) hashmap \<Rightarrow> channel_name \<Rightarrow> nat" where
  "channel_count m ch = (case hm_get m ch of None \<Rightarrow> 0 | Some c \<Rightarrow> c)"

definition summary_view :: "subscriptions_summary \<Rightarrow> nat \<times> nat \<times> nat \<times> nat \<times> (channel_name \<Rightarrow> nat)" where
  "summary_view y = (ss_total y, ss_active y, ss_pending y, ss_failed y, channel_count (ss_by_channel y))"

definition info_of :: "('q, 'd, 'cb) ws_surface \<Rightarrow> sub_key \<times> mirror_row \<Rightarrow> subscription_info" where
  "info_of s kr = (case kr of ((channel, pair), row) \<Rightarrow> \<lparr>si_channel = channel, si_pair = pair, si_state = row_projection s channel row\<rparr>)"

lemma summary_fold: "summary_view (foldl (count_row s) y m) =
   (case (summary_view y, summary_of (map (info_of s) m)) of
      ((t, a, p, f, c), (t', a', p', f', c')) \<Rightarrow> (t + t', a + a', p + p', f + f', \<lambda>ch. c ch + c' ch))"
proof (induction m arbitrary: y)
  case (Cons kr m)
  obtain ch pair row where kr: "kr = ((ch, pair), row)" by (metis prod.collapse)
  show ?case
    using Cons[of "count_row s y kr"]
    by (cases "row_projection s ch row")
       (auto simp: kr summary_view_def summary_of_def count_row_def info_of_def channel_count_def hm_simps fun_eq_iff split: option.splits)
qed (simp add: summary_view_def summary_of_def)

lemma summary_of_perm: "mset xs = mset ys \<Longrightarrow> summary_of xs = summary_of ys"
  by (auto simp: summary_of_def fun_eq_iff intro!: mset_eq_length)

text \<open>
  The summary is computed from the mirror in one pass and agrees with the list of subscriptions: it fails exactly when the list does,
  with the same error, and otherwise its totals per state and per channel are those of the rows listed, each row listed once and in order.
\<close>

lemma summary_agrees_with_list:
  "(case list_active s of
      Inl e \<Rightarrow> status_summary s = Inl e
    | Inr rows \<Rightarrow> (\<exists>y. status_summary s = Inr y \<and> summary_view y = summary_of rows) \<and>
        sorted (map (\<lambda>i. subscription_order_key (si_channel i) (si_pair i)) rows) \<and>
        mset rows = mset (map (info_of s) (wf_subscription_mirror s)))"
proof (cases "read_model_mirror s")
  case (Inl e)
  then show ?thesis by (simp add: list_active_def status_summary_def)
next
  case (Inr m)
  let ?rows = "sort_key (\<lambda>i. subscription_order_key (si_channel i) (si_pair i)) (map (info_of s) m)"
  let ?zero = "\<lparr>ss_total = 0, ss_active = 0, ss_pending = 0, ss_failed = 0, ss_by_channel = []\<rparr>"
  have m: "m = wf_subscription_mirror s" using Inr by (auto simp: read_model_mirror_def split: if_splits)
  have rows: "(\<lambda>((channel, pair), row). \<lparr>si_channel = channel, si_pair = pair, si_state = row_projection s channel row\<rparr>) = info_of s"
    by (auto simp: info_of_def fun_eq_iff)
  have l: "list_active s = Inr ?rows" using Inr by (simp add: list_active_def rows)
  have st: "status_summary s = Inr (foldl (count_row s) ?zero m)" using Inr by (simp add: status_summary_def)
  have "summary_view (foldl (count_row s) ?zero m) = summary_of (map (info_of s) m)"
    unfolding summary_fold by (simp add: summary_view_def channel_count_def summary_of_def)
  also have "\<dots> = summary_of ?rows" by (rule summary_of_perm) simp
  finally show ?thesis using l st m by simp
qed

section \<open>A queue of one slot\<close>

definition slot_sender :: "((unit, unit) caller_inbound list, unit, unit) sender" where
  "slot_sender = \<lparr>tx_try_send = \<lambda>x q. if q = [] then ([x], None) else (q, Some RejectFull), tx_capacity = \<lambda>q. if q = [] then 1 else 0\<rparr>"

definition slot_surface :: "((unit, unit) caller_inbound list, unit, unit) ws_surface" where
  "slot_surface = \<lparr>wf_queue = [], wf_pending_teardowns = [], wf_has_pending_teardowns = False, wf_last_teardown_flush_warn_at = None,
     wf_sample_interval_ms = 100, wf_loop_failed = False, wf_shutting_down = False, wf_presence_mirror = [], wf_subscription_mirror = [],
     wf_handler_id_alloc = 1, wf_req_id_counter = 1, wf_resolved = [], wf_connection_failed = (\<lambda>_. False)\<rparr>"

lemma slot_sender_ok: "sender_ok slot_sender (\<lambda>q. q) (\<lambda>_. False)"
  by (simp add: sender_ok_def slot_sender_def)

lemma slot_flag: "flag_ok slot_surface"
  by (simp add: flag_ok_def slot_surface_def)

theorem teardowns_never_lost_witness:
  "mset (wf_queue (post_teardown slot_sender 0 (InAbandonWsRequest 7) slot_surface)) +
   mset (wf_pending_teardowns (post_teardown slot_sender 0 (InAbandonWsRequest 7) slot_surface)) = {#InAbandonWsRequest 7#}"
  using teardowns_never_lost[OF slot_sender_ok slot_flag, of 0 "InAbandonWsRequest 7"] by (simp add: slot_surface_def)

theorem guarded_subscription_all_or_nothing_witness:
  "mset (wf_queue (fst (register_and_subscribe_guarded slot_sender 0 Ticker [] (PTicker None None) () slot_surface))) +
   mset (wf_pending_teardowns (fst (register_and_subscribe_guarded slot_sender 0 Ticker [] (PTicker None None) () slot_surface))) =
   {#InHandlerMutation (PostRegister Ticker 1 ()), InHandlerMutation (PostDeregister Ticker 1)#}"
proof -
  let ?r = "register_and_subscribe_guarded slot_sender 0 Ticker [] (PTicker None None) () slot_surface"
  have run: "snd ?r = Inl SubQueueFull" "wf_queue (fst ?r) = [InHandlerMutation (PostRegister Ticker 1 ())]"
    by (simp_all add: register_and_subscribe_guarded_def register_handler_id_checked_def flush_pending_teardowns_def
        flush_pending_teardowns_leaving_def subscribe_with_ref_def post_or_error_def deregister_handler_def post_teardown_def
        try_post_recovering_kind_def requeue_pending_teardowns_def slot_sender_def slot_surface_def post_reject_to_error_def Let_def)
  have "wf_queue slot_surface = []" "wf_pending_teardowns slot_surface = []" "wf_handler_id_alloc slot_surface = 1"
    by (simp_all add: slot_surface_def)
  then show ?thesis
    using guarded_subscription_all_or_nothing[OF slot_sender_ok slot_flag prod.collapse[symmetric, of ?r]] run by (simp add: Let_def)
qed

end
