(* ===== verification/Token_Lifecycle.thy ===== *)
theory Token_Lifecycle
  imports Rest_Surface
begin

text \<open>
  The cache of the WebSocket token and its refreshes, \<open>src/rust/src/auth/token_lifecycle.rs\<close>. A refresh is a spawned task: it fetches the
  token over REST and stores it, announces the outcome on the bus, sends it to the reactor and ends, dropping the
  single-flight guard if it holds one. A run is a sequence of calls and of such progress of the tasks, in any
  interleaving; a task may also be lost to a panic at any point.
\<close>

section \<open>Tokens\<close>

definition WS_TOKEN_TTL :: duration where
  "WS_TOKEN_TTL = secs (15 * 60)"

definition WS_TOKEN_REFRESH_AT :: duration where
  "WS_TOKEN_REFRESH_AT = secs (7 * 60 + 30)"

record ws_token =
  tok_value :: string
  fetched_at :: instant

definition is_expired :: "ws_token \<Rightarrow> instant \<Rightarrow> bool" where
  "is_expired t now \<longleftrightarrow> now - fetched_at t \<ge> WS_TOKEN_TTL"

definition refresh_due_at :: "ws_token \<Rightarrow> instant" where
  "refresh_due_at t = fetched_at t + WS_TOKEN_REFRESH_AT"

datatype refresh_reason = RefreshScheduled | RefreshHandshakeFailed | RefreshManual

definition decode_token_result :: "json \<Rightarrow> instant \<Rightarrow> auth_error + ws_token" where
  "decode_token_result result now =
     (case Option.bind (json_get result ''token'') as_str of
        None \<Rightarrow> Inl (AuthUnknown ''INTERNAL'' ''GetWebSocketsToken response missing string `token`'')
      | Some token \<Rightarrow>
          if token = [] then Inl (AuthUnknown ''INTERNAL'' ''GetWebSocketsToken returned an empty `token`'')
          else Inr \<lparr>tok_value = token, fetched_at = now\<rparr>)"

fun join_with :: "string \<Rightarrow> string list \<Rightarrow> string" where
  "join_with sep [] = []"
| "join_with sep [x] = x"
| "join_with sep (x # xs) = x @ sep @ join_with sep xs"

text \<open>\<open>show_other\<close> is the derived text of an error.\<close>

definition map_rest_to_auth :: "(rest_error \<Rightarrow> string) \<Rightarrow> rest_error \<Rightarrow> auth_error" where
  "map_rest_to_auth show_other e =
     (case e of
        RestAuth a \<Rightarrow> a
      | RestKraken codes \<Rightarrow>
          (let joined = join_with '','' codes
           in if str_contains ''Invalid key'' joined then InvalidKey
              else if str_contains ''Invalid signature'' joined then InvalidSignature
              else if str_contains ''Invalid nonce'' joined then InvalidNonce
              else if str_contains ''Permission denied'' joined then AuthPermissionDenied None
              else if str_contains ''Temporary lockout'' joined then TemporaryLockout
              else if is_kraken_rate_limit joined \<or> str_contains ''EService:'' joined then AuthTokenRefreshTransient
              else AuthUnknown joined ''GetWebSocketsToken rejected'')
      | RestTransport _ transient \<Rightarrow> if transient then AuthTokenRefreshTransient else TokenRefreshFailed
      | RestRateLimit _ \<Rightarrow> AuthTokenRefreshTransient
      | UnexpectedShape _ \<Rightarrow> AuthUnknown ''INTERNAL'' (''token fetch transport/shape error: '' @ show_other e))"

datatype error_class = ClassAuth | ClassClientClosed | ClassNetwork | ClassUnknown

fun classify_auth_error :: "auth_error \<Rightarrow> error_class" where
  "classify_auth_error InvalidKey = ClassAuth"
| "classify_auth_error InvalidSignature = ClassAuth"
| "classify_auth_error InvalidNonce = ClassAuth"
| "classify_auth_error (AuthPermissionDenied _) = ClassAuth"
| "classify_auth_error TemporaryLockout = ClassAuth"
| "classify_auth_error AuthTokenStale = ClassAuth"
| "classify_auth_error TokenRefreshFailed = ClassNetwork"
| "classify_auth_error AuthTokenRefreshTransient = ClassNetwork"
| "classify_auth_error AuthClientClosed = ClassClientClosed"
| "classify_auth_error (AuthUnknown _ _) = ClassUnknown"

section \<open>The fetch\<close>

definition fetch_and_cache :: "rest_env \<Rightarrow> (rest_error \<Rightarrow> string) \<Rightarrow> rest_surface \<Rightarrow> ws_token option \<Rightarrow>
    rest_surface \<times> ws_token option \<times> (auth_error + ws_token)" where
  "fetch_and_cache env show_other rs cache =
     (let (rs1, request_id) = mint_request_id rs
      in case signed_post env ''/0/private/GetWebSocketsToken'' [] SpotV1 request_id rs1 of
           (rs2, Inl e) \<Rightarrow> (rs2, cache, Inl (map_rest_to_auth show_other e))
         | (rs2, Inr result) \<Rightarrow>
             (case decode_token_result result (rs_now rs2) of
                Inl e \<Rightarrow> (rs_tick rs2, cache, Inl e)
              | Inr token \<Rightarrow> (rs_tick rs2, Some token, Inr token)))"

section \<open>The manager\<close>

datatype task_phase = Fetching | Fetched "auth_error + ws_token" | Announced "auth_error + ws_token"

record refresh_task =
  rt_request_id :: u64
  rt_reason :: refresh_reason
  rt_guarded :: bool
  rt_phase :: task_phase

datatype credential_event =
    CredentialRefreshed string instant refresh_reason
  | CredentialRefreshFailed string u32 error_class "u64 option"

record token_manager =
  tm_cached :: "ws_token option"
  tm_refresh_handle_seq :: u64
  tm_refresh_tx :: bool
  tm_key_id_fingerprint :: string
  tm_proactive_inflight :: bool
  tm_tasks :: "refresh_task list"
  tm_outcomes :: "(u64 \<times> (auth_error + ws_token)) list"
  tm_events :: "(instant \<times> credential_event) list"

definition token_manager_new :: "string \<Rightarrow> token_manager" where
  "token_manager_new fingerprint =
     \<lparr>tm_cached = None, tm_refresh_handle_seq = 1, tm_refresh_tx = False, tm_key_id_fingerprint = fingerprint,
      tm_proactive_inflight = False, tm_tasks = [], tm_outcomes = [], tm_events = []\<rparr>"

definition set_refresh_tx :: "token_manager \<Rightarrow> token_manager" where
  "set_refresh_tx tm = tm\<lparr>tm_refresh_tx := True\<rparr>"

definition invalidate_cached_token :: "token_manager \<Rightarrow> token_manager" where
  "invalidate_cached_token tm = tm\<lparr>tm_cached := None\<rparr>"

definition reactive_refresh :: "refresh_reason \<Rightarrow> token_manager \<Rightarrow> token_manager \<times> u64" where
  "reactive_refresh reason tm =
     (let i = tm_refresh_handle_seq tm
      in (tm\<lparr>tm_refresh_handle_seq := i + 1,
             tm_tasks := tm_tasks tm @ [\<lparr>rt_request_id = i, rt_reason = reason, rt_guarded = False, rt_phase = Fetching\<rparr>]\<rparr>, i))"

definition proactive_refresh :: "token_manager \<Rightarrow> token_manager" where
  "proactive_refresh tm =
     (if tm_proactive_inflight tm then tm
      else tm\<lparr>tm_proactive_inflight := True,
              tm_tasks := tm_tasks tm @ [\<lparr>rt_request_id = 0, rt_reason = RefreshScheduled, rt_guarded = True, rt_phase = Fetching\<rparr>]\<rparr>)"

text \<open>What the fetch of a task gives: \<open>None\<close> when the REST surface is gone, else the answer of \<open>signed_post\<close>.\<close>

definition fetch_outcome :: "(rest_error \<Rightarrow> string) \<Rightarrow> (rest_error + json) option \<Rightarrow> instant \<Rightarrow> auth_error + ws_token" where
  "fetch_outcome show_other answer now =
     (case answer of
        None \<Rightarrow> Inl AuthClientClosed
      | Some (Inl e) \<Rightarrow> Inl (map_rest_to_auth show_other e)
      | Some (Inr v) \<Rightarrow> decode_token_result v now)"

definition finish_fetch :: "nat \<Rightarrow> auth_error + ws_token \<Rightarrow> token_manager \<Rightarrow> token_manager" where
  "finish_fetch i result tm =
     tm\<lparr>tm_cached := (case result of Inl _ \<Rightarrow> tm_cached tm | Inr token \<Rightarrow> Some token),
        tm_tasks := (tm_tasks tm)[i := (tm_tasks tm ! i)\<lparr>rt_phase := Fetched result\<rparr>]\<rparr>"

definition announce :: "nat \<Rightarrow> instant \<Rightarrow> auth_error + ws_token \<Rightarrow> token_manager \<Rightarrow> token_manager" where
  "announce i now result tm =
     tm\<lparr>tm_events := tm_events tm @
          [(now, case result of
                   Inr token \<Rightarrow> CredentialRefreshed (tm_key_id_fingerprint tm) (fetched_at token + WS_TOKEN_TTL) (rt_reason (tm_tasks tm ! i))
                 | Inl e \<Rightarrow> CredentialRefreshFailed (tm_key_id_fingerprint tm) 1 (classify_auth_error e) None)],
        tm_tasks := (tm_tasks tm)[i := (tm_tasks tm ! i)\<lparr>rt_phase := Announced result\<rparr>]\<rparr>"

text \<open>The end of a task; dropping its guard clears the single-flight flag.\<close>

definition drop_task :: "nat \<Rightarrow> token_manager \<Rightarrow> token_manager" where
  "drop_task i tm =
     tm\<lparr>tm_proactive_inflight := (if rt_guarded (tm_tasks tm ! i) then False else tm_proactive_inflight tm),
        tm_tasks := take i (tm_tasks tm) @ drop (Suc i) (tm_tasks tm)\<rparr>"

definition report_outcome :: "nat \<Rightarrow> auth_error + ws_token \<Rightarrow> token_manager \<Rightarrow> token_manager" where
  "report_outcome i result tm =
     (if tm_refresh_tx tm then tm\<lparr>tm_outcomes := tm_outcomes tm @ [(rt_request_id (tm_tasks tm ! i), result)]\<rparr> else tm)"

datatype token_op =
    TokReactive refresh_reason
  | TokProactive
  | TokInvalidate
  | TokSetTx
  | TokFetched nat "(rest_error + json) option" instant
  | TokAnnounced nat instant
  | TokEnded nat
  | TokPanicked nat

fun token_step :: "(rest_error \<Rightarrow> string) \<Rightarrow> token_op \<Rightarrow> token_manager \<Rightarrow> token_manager" where
  "token_step sh (TokReactive reason) tm = fst (reactive_refresh reason tm)"
| "token_step sh TokProactive tm = proactive_refresh tm"
| "token_step sh TokInvalidate tm = invalidate_cached_token tm"
| "token_step sh TokSetTx tm = set_refresh_tx tm"
| "token_step sh (TokFetched i answer now) tm =
     (if i < length (tm_tasks tm) \<and> rt_phase (tm_tasks tm ! i) = Fetching then finish_fetch i (fetch_outcome sh answer now) tm else tm)"
| "token_step sh (TokAnnounced i now) tm =
     (if i < length (tm_tasks tm)
      then (case rt_phase (tm_tasks tm ! i) of Fetched result \<Rightarrow> announce i now result tm | _ \<Rightarrow> tm) else tm)"
| "token_step sh (TokEnded i) tm =
     (if i < length (tm_tasks tm)
      then (case rt_phase (tm_tasks tm ! i) of Announced result \<Rightarrow> drop_task i (report_outcome i result tm) | _ \<Rightarrow> tm) else tm)"
| "token_step sh (TokPanicked i) tm = (if i < length (tm_tasks tm) then drop_task i tm else tm)"

definition token_run :: "(rest_error \<Rightarrow> string) \<Rightarrow> token_op list \<Rightarrow> token_manager \<Rightarrow> token_manager" where
  "token_run sh ops tm = fold (token_step sh) ops tm"

end
