(* ===== verification/Token_Properties.thy ===== *)
theory Token_Properties
  imports Token_Lifecycle "HOL-Library.Multiset"
begin

text \<open>
  What holds of every interleaving of token refreshes: the proactive refresh is single-flight, no empty token is ever
  cached or handed out, and every reactive refresh reports exactly one outcome under its own handle.
\<close>

lemma map_kept: "i < length xs \<Longrightarrow> f y = f (xs ! i) \<Longrightarrow> map f (xs[i := y]) = map f xs"
  by (metis length_map list_update_id map_update nth_map)

lemma mset_without_nth: "i < length xs \<Longrightarrow> mset xs = add_mset (xs ! i) (mset (take i xs @ drop (Suc i) xs))"
  by (metis id_take_nth_drop mset_append union_mset_add_mset_right mset.simps(2))

lemma count_list_mset: "count_list xs x = count (mset xs) x"
  by (induction xs) simp_all

section \<open>Single flight\<close>

definition guards :: "token_manager \<Rightarrow> nat" where
  "guards tm = count (mset (map rt_guarded (tm_tasks tm))) True"

fun sound_result :: "auth_error + ws_token \<Rightarrow> bool" where
  "sound_result (Inr t) \<longleftrightarrow> tok_value t \<noteq> []"
| "sound_result (Inl e) \<longleftrightarrow> True"

fun sound_phase :: "task_phase \<Rightarrow> bool" where
  "sound_phase Fetching \<longleftrightarrow> True"
| "sound_phase (Fetched r) \<longleftrightarrow> sound_result r"
| "sound_phase (Announced r) \<longleftrightarrow> sound_result r"

definition token_inv :: "token_manager \<Rightarrow> bool" where
  "token_inv tm \<longleftrightarrow>
     guards tm = (if tm_proactive_inflight tm then 1 else 0) \<and>
     (\<forall>t. tm_cached tm = Some t \<longrightarrow> tok_value t \<noteq> []) \<and>
     list_all (\<lambda>t. sound_phase (rt_phase t)) (tm_tasks tm) \<and> list_all (\<lambda>(_, r). sound_result r) (tm_outcomes tm)"

lemma fetch_outcome_sound: "sound_result (fetch_outcome sh answer now)"
  by (auto simp: fetch_outcome_def decode_token_result_def split: option.split sum.split)

lemma guards_kept: "i < length (tm_tasks tm) \<Longrightarrow> rt_guarded y = rt_guarded (tm_tasks tm ! i) \<Longrightarrow>
    tm_tasks tm' = (tm_tasks tm)[i := y] \<Longrightarrow> guards tm' = guards tm"
  by (simp add: guards_def map_kept)

lemma list_all_without: "list_all P xs \<Longrightarrow> list_all P (take i xs @ drop (Suc i) xs)"
  by (auto simp: list_all_iff dest: in_set_takeD in_set_dropD)

lemma list_all_updated: "list_all P xs \<Longrightarrow> P y \<Longrightarrow> list_all P (xs[i := y])"
  using set_update_subset_insert by (fastforce simp: list_all_iff)

lemma guards_dropped:
  assumes "i < length (tm_tasks tm)"
  shows "guards (drop_task i tm) = guards tm - (if rt_guarded (tm_tasks tm ! i) then 1 else 0)"
  using mset_without_nth [OF assms] by (simp add: guards_def drop_task_def)

lemma drop_task_inv:
  assumes "token_inv tm" and "i < length (tm_tasks tm)"
  shows "token_inv (drop_task i tm)"
proof -
  have "guards tm \<ge> (if rt_guarded (tm_tasks tm ! i) then 1 else 0)"
    using mset_without_nth [OF assms(2)] by (simp add: guards_def)
  then have "guards (drop_task i tm) = (if tm_proactive_inflight (drop_task i tm) then 1 else 0)"
    using assms guards_dropped [OF assms(2)] by (auto simp: token_inv_def drop_task_def split: if_splits)
  then show ?thesis
    using assms(1) list_all_without [of _ "tm_tasks tm" i] by (simp add: token_inv_def) (simp add: drop_task_def)
qed

lemma phase_sound: "token_inv tm \<Longrightarrow> i < length (tm_tasks tm) \<Longrightarrow> sound_phase (rt_phase (tm_tasks tm ! i))"
  by (simp add: token_inv_def list_all_length)

lemma finish_inv:
  assumes "token_inv tm" and "i < length (tm_tasks tm)" and "sound_result r"
  shows "token_inv (finish_fetch i r tm)"
proof -
  have "guards (finish_fetch i r tm) = guards tm"
    by (rule guards_kept [OF assms(2)]) (simp_all add: finish_fetch_def)
  then show ?thesis
    using assms by (cases r) (auto simp: token_inv_def finish_fetch_def intro!: list_all_updated)
qed

lemma announce_inv:
  assumes "token_inv tm" and "i < length (tm_tasks tm)" and "sound_result r"
  shows "token_inv (announce i now r tm)"
proof -
  have "guards (announce i now r tm) = guards tm"
    by (rule guards_kept [OF assms(2)]) (simp_all add: announce_def)
  then show ?thesis using assms by (auto simp: token_inv_def announce_def intro!: list_all_updated)
qed

lemma send_inv: "token_inv tm \<Longrightarrow> sound_result r \<Longrightarrow> token_inv (report_outcome i r tm)"
  by (simp add: report_outcome_def token_inv_def guards_def)

lemma token_step_inv:
  assumes "token_inv tm"
  shows "token_inv (token_step sh op tm)"
proof (cases op)
  case (TokFetched i a now)
  then show ?thesis using assms finish_inv [OF assms _ fetch_outcome_sound] by simp
next
  case (TokAnnounced i now)
  then show ?thesis using assms phase_sound [OF assms, of i] by (auto intro: announce_inv split: task_phase.split)
next
  case (TokEnded i)
  have "length (tm_tasks (report_outcome i r tm)) = length (tm_tasks tm)" for r by (simp add: report_outcome_def)
  then show ?thesis
    using TokEnded assms phase_sound [OF assms, of i] by (auto intro!: drop_task_inv send_inv split: task_phase.split)
next
  case (TokPanicked i)
  then show ?thesis using assms drop_task_inv [OF assms] by simp
qed (use assms in \<open>auto simp: token_inv_def reactive_refresh_def proactive_refresh_def invalidate_cached_token_def
      set_refresh_tx_def guards_def Let_def\<close>)

lemma token_run_inv: "token_inv tm \<Longrightarrow> token_inv (token_run sh ops tm)"
  unfolding token_run_def by (induction ops arbitrary: tm) (simp_all add: token_step_inv)

lemma token_new_inv: "token_inv (token_manager_new fp)"
  by (simp add: token_inv_def token_manager_new_def guards_def)

text \<open>
  Property C22. Proactive refreshes are single-flight and no empty token gets out. After any interleaving of refresh
  calls, invalidations and task progress, panics included: the number of live tasks holding the single-flight guard is
  one when the flag is set and zero when it is clear, so the flag can neither wedge nor admit a second proactive
  refresh, and neither the cache nor any outcome handed to the reactor holds an empty token.
\<close>

theorem proactive_refresh_single_flight:
  "let tm = token_run sh ops (token_manager_new fp) in
     length (filter rt_guarded (tm_tasks tm)) = (if tm_proactive_inflight tm then 1 else 0) \<and>
     map_option tok_value (tm_cached tm) \<noteq> Some [] \<and>
     [] \<notin> tok_value ` {t. \<exists>i. (i, Inr t) \<in> set (tm_outcomes tm)}"
proof -
  let ?tm = "token_run sh ops (token_manager_new fp)"
  have I: "token_inv ?tm" by (rule token_run_inv [OF token_new_inv])
  then have "count (mset (map rt_guarded (tm_tasks ?tm))) True = (if tm_proactive_inflight ?tm then 1 else 0)"
    by (simp add: token_inv_def guards_def)
  moreover have "count (mset (map rt_guarded xs)) True = length (filter rt_guarded xs)" for xs :: "refresh_task list"
    by (induction xs) simp_all
  moreover have "map_option tok_value (tm_cached ?tm) \<noteq> Some []"
    using I by (cases "tm_cached ?tm") (simp_all add: token_inv_def)
  moreover have out: "tok_value t \<noteq> []" if "(i, Inr t) \<in> set (tm_outcomes ?tm)" for i t
    using I that by (fastforce simp: token_inv_def list_all_iff)
  moreover from out have "[] \<notin> tok_value ` {t. \<exists>i. (i, Inr t) \<in> set (tm_outcomes ?tm)}" by force
  ultimately show ?thesis by (simp add: Let_def)
qed

section \<open>One outcome per handle\<close>

definition handle_ids :: "token_manager \<Rightarrow> u64 multiset" where
  "handle_ids tm = filter_mset (\<lambda>i. i \<noteq> 0) (mset (map rt_request_id (tm_tasks tm)) + mset (map fst (tm_outcomes tm)))"

fun is_panic :: "token_op \<Rightarrow> bool" where
  "is_panic (TokPanicked i) \<longleftrightarrow> True"
| "is_panic op \<longleftrightarrow> False"

fun is_reactive :: "token_op \<Rightarrow> bool" where
  "is_reactive (TokReactive r) \<longleftrightarrow> True"
| "is_reactive op \<longleftrightarrow> False"

lemma handles_kept:
  "i < length (tm_tasks tm) \<Longrightarrow> rt_request_id y = rt_request_id (tm_tasks tm ! i) \<Longrightarrow>
   tm_tasks tm' = (tm_tasks tm)[i := y] \<Longrightarrow> tm_outcomes tm' = tm_outcomes tm \<Longrightarrow> handle_ids tm' = handle_ids tm"
  by (simp add: handle_ids_def map_kept del: map_update)

lemma handles_ended:
  assumes "i < length (tm_tasks tm)" and "tm_refresh_tx tm"
  shows "handle_ids (drop_task i (report_outcome i r tm)) = handle_ids tm"
  using mset_without_nth [OF assms(1)] assms(2) by (simp add: handle_ids_def drop_task_def report_outcome_def)

lemma token_step_handles:
  assumes "tm_refresh_tx tm" and "\<not> is_panic op"
  shows "tm_refresh_tx (token_step sh op tm) \<and>
    tm_refresh_handle_seq (token_step sh op tm) = tm_refresh_handle_seq tm + (if is_reactive op then 1 else 0) \<and>
    handle_ids (token_step sh op tm) = handle_ids tm +
      (if is_reactive op \<and> tm_refresh_handle_seq tm \<noteq> 0 then {#tm_refresh_handle_seq tm#} else {#})"
proof (cases op)
  case (TokFetched i a now)
  have "handle_ids (finish_fetch i r tm) = handle_ids tm" if "i < length (tm_tasks tm)" for r
    by (rule handles_kept [OF that]) (simp_all add: finish_fetch_def)
  then show ?thesis using TokFetched assms by (simp add: finish_fetch_def)
next
  case (TokAnnounced i now)
  have "handle_ids (announce i now r tm) = handle_ids tm" if "i < length (tm_tasks tm)" for r
    by (rule handles_kept [OF that]) (simp_all add: announce_def)
  then show ?thesis using TokAnnounced assms by (auto simp: announce_def split: task_phase.split)
next
  case (TokEnded i)
  then show ?thesis
    using assms handles_ended [of i tm] by (auto simp: drop_task_def report_outcome_def split: task_phase.split)
qed (use assms in \<open>auto simp: handle_ids_def reactive_refresh_def proactive_refresh_def invalidate_cached_token_def
      set_refresh_tx_def Let_def\<close>)

lemma seq_range:
  assumes "n < 2 ^ 64 - 1"
  shows "unat (word_of_nat (Suc n) :: u64) = Suc n" "(word_of_nat (Suc n) :: u64) \<noteq> 0"
proof -
  show U: "unat (word_of_nat (Suc n) :: u64) = Suc n"
    using assms by (simp add: unat_of_nat take_bit_nat_eq_self del: of_nat_Suc)
  show "(word_of_nat (Suc n) :: u64) \<noteq> 0" using U by (metis nat.distinct(1) unsigned_0)
qed

lemma run_handles:
  assumes "tm_refresh_tx tm" and "tm_refresh_handle_seq tm = word_of_nat (Suc n)"
    and "handle_ids tm = mset (map word_of_nat [1..<Suc n])"
    and "\<not> list_ex is_panic ops" and "n + length (filter is_reactive ops) < 2 ^ 64 - 1"
  shows "handle_ids (token_run sh ops tm) = mset (map word_of_nat [1..<Suc (n + length (filter is_reactive ops))])"
  using assms
proof (induction ops arbitrary: tm n)
  case Nil
  then show ?case by (simp add: token_run_def)
next
  case (Cons op ops)
  let ?m = "n + (if is_reactive op then 1 else 0)"
  have S: "tm_refresh_tx (token_step sh op tm)" "tm_refresh_handle_seq (token_step sh op tm) = word_of_nat (Suc ?m)"
    "handle_ids (token_step sh op tm) = mset (map word_of_nat [1..<Suc ?m])"
    using token_step_handles [OF Cons.prems(1), of op sh] Cons.prems(2-5) seq_range(2) [of n]
    by (auto simp: add.commute)
  have "handle_ids (token_run sh ops (token_step sh op tm)) =
      mset (map word_of_nat [1..<Suc (?m + length (filter is_reactive ops))])"
    using Cons.prems(4,5) by (intro Cons.IH [OF S]) auto
  then show ?case by (simp add: token_run_def split: if_splits)
qed


definition sample_refreshes :: "token_op list" where
  "sample_refreshes =
     [TokReactive RefreshHandshakeFailed, TokProactive, TokProactive, TokReactive RefreshManual,
      TokFetched 0 (Some (Inr (JObj [(''token'', JStr ''t'')]))) 5, TokAnnounced 0 6, TokEnded 0]"


section \<open>The fetch and the freshness of a token\<close>

text \<open>The fetch over the REST pipeline is the step of a task on what \<open>signed_post\<close> answers.\<close>

lemma fetch_refines_step:
  assumes "fetch_and_cache env sh rs cache = (rs', cache', r)"
  shows "\<exists>answer now. r = fetch_outcome sh (Some answer) now \<and> cache' = (case r of Inl _ \<Rightarrow> cache | Inr t \<Rightarrow> Some t)"
proof -
  let ?p = "signed_post env ''/0/private/GetWebSocketsToken'' [] SpotV1 (snd (mint_request_id rs)) (fst (mint_request_id rs))"
  have "r = fetch_outcome sh (Some (snd ?p)) (rs_now (fst ?p)) \<and> cache' = (case r of Inl _ \<Rightarrow> cache | Inr t \<Rightarrow> Some t)"
    using assms by (auto simp: fetch_and_cache_def fetch_outcome_def split_beta Let_def split: sum.splits prod.splits)
  then show ?thesis by blast
qed

text \<open>A token read before its refresh is due is valid for at least as long again.\<close>

lemma due_before_expiry: "now \<le> refresh_due_at t \<Longrightarrow> later < now + WS_TOKEN_REFRESH_AT \<Longrightarrow> \<not> is_expired t later"
  by (simp add: refresh_due_at_def is_expired_def WS_TOKEN_TTL_def WS_TOKEN_REFRESH_AT_def)

end
