(* ===== verification/Reactor_Sends.thy ===== *)
theory Reactor_Sends
  imports Connection_Fsm Handler_Registry Event_Bus Ws_Surface Token_Lifecycle
begin

text \<open>
  The state of the I/O reactor and what it sends: \<open>subscribe_send.rs\<close>, \<open>socket_lifecycle.rs\<close> and \<open>send_ready.rs\<close> of
  \<open>src/rust/src/dispatch/io_reactor\<close>.
  \<^item> The reactor owns everything it touches, so its locals are the fields of one record. A borrowed connection is the entry of
    \<open>rx_conns\<close>.
  \<^item> A socket is the number of the \<open>open_socket\<close> call that made it, which stands for its connection id. Whether its
    writer takes a frame is a function of the number of frames offered so far.
  \<^item> Frames are kept as JSON values; log lines are left out, but the throttle of repeated warnings is kept.
  \<^item> \<open>rx_log\<close> lists, in order, the frames offered to sockets, the events and data published, and the completions of callers
    resolved by the reactor itself. Events a connection publishes are in its own trace.
\<close>

section \<open>State and effects\<close>

datatype send_frame_error = Backpressure | WriterClosed

datatype send_outcome = Sent | Backpressured | WriterDead

datatype subscribe_send =
    Resend | FirstSigned | RemainingSigned | RegisterPublic | RegisterWhileOpenAuth | ResubscribeReplay

fun writer_closed_context :: "subscribe_send \<Rightarrow> string" where
  "writer_closed_context Resend = ''outbound writer task terminated (discovered on subscribe resend)''"
| "writer_closed_context FirstSigned = ''outbound writer task terminated (first signed subscribe)''"
| "writer_closed_context RemainingSigned = ''outbound writer task terminated (remaining signed subscribes)''"
| "writer_closed_context RegisterPublic = ''outbound writer task terminated (Register public subscribe)''"
| "writer_closed_context RegisterWhileOpenAuth = ''outbound writer task terminated (Register-while-Open auth subscribe)''"
| "writer_closed_context ResubscribeReplay = ''outbound writer task terminated (resubscribe replay)''"

text \<open>Which call offered a frame: a subscribe path, a teardown, a reseed, or a caller's request.\<close>

datatype send_site = Subscribing subscribe_send sub_key | Unsubscribing sub_key | Reseeding sub_key | Requesting u64

datatype gap_cause = FrameDropDueToQueueFull | OrderBookCrcMismatch | SequenceGapDetected | MalformedFrame

datatype rx_event =
    SendReadyEvent ws_url instant
  | TerminatedEvent channel_name "string option" termination_cause instant
  | HandshakeFailedEvent ws_url u32 bool string
  | SubscriptionGapEvent channel_name string u32 gap_cause
  | OrderBookGapEvent channel_name string gap_cause
  | ChannelGapEvent channel_name u32 gap_cause
  | MessageDroppedEvent channel_name u32 duration
  | HandlerPanicEvent channel_name nat string
  | ClientReadyEvent
  | ClientClosedEvent instant

datatype ('d, 'p) data_payload = TypedBook "'d order_book_update" | Decoded 'p

datatype ('d, 'p) rx_effect =
    Offered ws_url nat send_site json "send_frame_error option"
  | RxPublished nat instant rx_event
  | RxDelivered u64 instant rx_event
  | DataPublished channel_name nat "('d, 'p) data_payload"
  | Completed u64 connection_error
  | Warned string "channel_name option"

record ('d, 'cb, 'p) reactor =
  rx_conns :: "(ws_url, managed_connection) hashmap"
  rx_registry :: "'d subscription_registry"
  rx_handlers :: "'cb handler_registry"
  rx_presence :: presence_mirror
  rx_sockets :: "(ws_url, nat) hashmap"
  rx_upgrade_guards :: "(ws_url, nat) hashmap"
  rx_state_mirrors :: "(ws_url, u8) hashmap"
  rx_tokens :: token_manager
  rx_auth_send_ready :: bool
  rx_auth_has_subscriptions :: bool
  rx_connect_id_allocator :: u64
  rx_bus :: bool
  rx_knobs :: knobs
  rx_clock :: "nat \<Rightarrow> instant"
  rx_reads :: nat
  rx_process_now :: instant
  rx_writer :: "nat \<Rightarrow> send_frame_error option"
  rx_offers :: nat
  rx_drop_tracker :: "(channel_name, instant \<times> u32) hashmap"
  rx_warn_tracker :: "(string \<times> channel_name option, instant) hashmap"
  rx_pending_client_close :: "(u64 \<times> instant) option"
  rx_last_liveness_epoch :: nat
  rx_exited :: bool
  rx_log :: "('d, 'p) rx_effect list"

definition on_conn :: "ws_url \<Rightarrow> (managed_connection \<Rightarrow> managed_connection) \<Rightarrow> ('d, 'cb, 'p) reactor \<Rightarrow> ('d, 'cb, 'p) reactor" where
  "on_conn url f rx =
     (case hm_get (rx_conns rx) url of None \<Rightarrow> rx | Some m \<Rightarrow> rx\<lparr>rx_conns := hm_insert url (f m) (rx_conns rx)\<rparr>)"

definition rx_act :: "('d, 'p) rx_effect \<Rightarrow> ('d, 'cb, 'p) reactor \<Rightarrow> ('d, 'cb, 'p) reactor" where
  "rx_act e rx = rx\<lparr>rx_log := rx_log rx @ [e]\<rparr>"

text \<open>The clock of the bus, or the process clock when the bus is gone.\<close>

definition rx_now :: "('d, 'cb, 'p) reactor \<Rightarrow> instant" where
  "rx_now rx = (if rx_bus rx then rx_clock rx (rx_reads rx) else rx_process_now rx)"

definition rx_tick :: "('d, 'cb, 'p) reactor \<Rightarrow> ('d, 'cb, 'p) reactor" where
  "rx_tick rx = (if rx_bus rx then rx\<lparr>rx_reads := Suc (rx_reads rx)\<rparr> else rx)"

text \<open>An event published with one reading of the bus clock, if the bus is still there.\<close>

definition rx_publish :: "nat \<Rightarrow> (instant \<Rightarrow> rx_event) \<Rightarrow> ('d, 'cb, 'p) reactor \<Rightarrow> ('d, 'cb, 'p) reactor" where
  "rx_publish v ev rx = (if rx_bus rx then rx_act (RxPublished v (rx_now rx) (ev (rx_now rx))) (rx_tick rx) else rx)"

definition mirror_state :: "ws_url \<Rightarrow> connection_state \<Rightarrow> ('d, 'cb, 'p) reactor \<Rightarrow> ('d, 'cb, 'p) reactor" where
  "mirror_state url st rx =
     (case hm_get (rx_state_mirrors rx) url of
        None \<Rightarrow> rx
      | Some _ \<Rightarrow> rx\<lparr>rx_state_mirrors := hm_insert url (as_u8 st) (rx_state_mirrors rx)\<rparr>)"

definition write_mirror :: "ws_url \<Rightarrow> ('d, 'cb, 'p) reactor \<Rightarrow> ('d, 'cb, 'p) reactor" where
  "write_mirror url rx =
     (case hm_get (rx_conns rx) url of None \<Rightarrow> rx | Some m \<Rightarrow> mirror_state url (mc_state m) rx)"

definition rx_force_refresh :: "('d, 'cb, 'p) reactor \<Rightarrow> ('d, 'cb, 'p) reactor" where
  "rx_force_refresh rx = rx\<lparr>rx_tokens := fst (reactive_refresh RefreshHandshakeFailed (rx_tokens rx))\<rparr>"

definition valid_token :: "instant \<Rightarrow> ('d, 'cb, 'p) reactor \<Rightarrow> string option" where
  "valid_token now rx =
     (case tm_cached (rx_tokens rx) of
        Some t \<Rightarrow> if is_expired t now then None else Some (tok_value t)
      | None \<Rightarrow> None)"

definition offer :: "ws_url \<Rightarrow> nat \<Rightarrow> send_site \<Rightarrow> json \<Rightarrow> ('d, 'cb, 'p) reactor \<Rightarrow>
    ('d, 'cb, 'p) reactor \<times> send_frame_error option" where
  "offer url sock site frame rx =
     (let r = rx_writer rx (rx_offers rx)
      in (rx_act (Offered url sock site frame r) (rx\<lparr>rx_offers := Suc (rx_offers rx)\<rparr>), r))"

section \<open>Sockets\<close>

text \<open>\<open>prev\<close> is the id of the socket the connection held before; the bridge is wired anew only for a fresh one.\<close>

definition project_socket_and_wire_bridge :: "ws_url \<Rightarrow> nat option \<Rightarrow> ('d, 'cb, 'p) reactor \<Rightarrow> ('d, 'cb, 'p) reactor" where
  "project_socket_and_wire_bridge url prev rx =
     (case hm_get (rx_conns rx) url of
        None \<Rightarrow> rx
      | Some m \<Rightarrow>
          (case socket m of
             Some s \<Rightarrow>
               (let rx1 = rx\<lparr>rx_sockets := hm_insert url s (rx_sockets rx)\<rparr>
                in if Some s \<noteq> prev \<and> rx_bus rx then rx1\<lparr>rx_upgrade_guards := hm_insert url s (rx_upgrade_guards rx1)\<rparr> else rx1)
           | None \<Rightarrow>
               rx\<lparr>rx_sockets := hm_remove url (rx_sockets rx), rx_upgrade_guards := hm_remove url (rx_upgrade_guards rx)\<rparr>))"

definition channel_ws_url :: "channel_name \<Rightarrow> ws_url" where
  "channel_ws_url channel = (if channel \<in> {Executions, Balances} then Auth else Public)"

definition compose_unsubscribe_frame :: "channel_name \<Rightarrow> string option \<Rightarrow> subscribe_params option \<Rightarrow> string option \<Rightarrow> json" where
  "compose_unsubscribe_frame channel pair params token =
     (let pairs = (case pair of None \<Rightarrow> [] | Some s \<Rightarrow> [s]);
          frame = (case params of
                     Some p \<Rightarrow> build_subscribe_frame ''unsubscribe'' channel pairs p 0
                   | None \<Rightarrow>
                       (let p1 = obj_insert ''channel'' (JStr (channel_str channel)) [];
                            p2 = (case pair of None \<Rightarrow> p1 | Some s \<Rightarrow> obj_insert ''symbol'' (JArr [JStr s]) p1)
                        in JObj [(''method'', JStr ''unsubscribe''), (''params'', JObj p2), (''req_id'', JNum 0)]))
      in case token of None \<Rightarrow> frame | Some t \<Rightarrow> inject_token t frame)"

definition unsubscribe_and_terminate :: "sub_key \<Rightarrow> subscribe_params option \<Rightarrow> ('d, 'cb, 'p) reactor \<Rightarrow> ('d, 'cb, 'p) reactor" where
  "unsubscribe_and_terminate key params rx =
     (let url = channel_ws_url (fst key);
          token = (if url = Auth then map_option tok_value (tm_cached (rx_tokens rx)) else None);
          rx1 = (case hm_get (rx_sockets rx) url of
                   None \<Rightarrow> rx
                 | Some s \<Rightarrow> fst (offer url s (Unsubscribing key) (compose_unsubscribe_frame (fst key) (snd key) params token) rx))
      in rx_publish 2 (TerminatedEvent (fst key) (snd key) ClientClosed) rx1)"

definition send_single_unsubscribe :: "ws_url \<Rightarrow> sub_key \<Rightarrow> subscribe_params \<Rightarrow> ('d, 'cb, 'p) reactor \<Rightarrow> ('d, 'cb, 'p) reactor" where
  "send_single_unsubscribe url key params rx =
     (case hm_get (rx_sockets rx) url of
        None \<Rightarrow> rx
      | Some s \<Rightarrow> fst (offer url s (Reseeding key) (compose_unsubscribe_frame (fst key) (snd key) (Some params) None) rx))"

section \<open>Send-ready\<close>

text \<open>The connection's clock is read first, whatever the other conditions are.\<close>

definition store_send_ready :: "ws_url \<Rightarrow> ('d, 'cb, 'p) reactor \<Rightarrow> ('d, 'cb, 'p) reactor \<times> bool" where
  "store_send_ready url rx =
     (case hm_get (rx_conns rx) url of
        None \<Rightarrow> (rx, False)
      | Some m \<Rightarrow>
          (let ready = (url = Auth \<and> mc_state m = Authenticating \<and> \<not> has_url_entry Auth (rx_registry rx) \<and>
                        valid_token (now_of m) rx \<noteq> None)
           in ((on_conn url tick rx)\<lparr>rx_auth_send_ready := ready\<rparr>, ready)))"

definition refresh_send_ready :: "ws_url \<Rightarrow> ('d, 'cb, 'p) reactor \<Rightarrow> ('d, 'cb, 'p) reactor" where
  "refresh_send_ready url rx =
     (case store_send_ready url rx of
        (rx1, False) \<Rightarrow> rx1
      | (rx1, True) \<Rightarrow> rx_publish 1 (SendReadyEvent url) rx1)"

section \<open>Subscribe frames\<close>

definition subscribe_ack_timeout :: "('d, 'cb, 'p) reactor \<Rightarrow> duration" where
  "subscribe_ack_timeout rx = millis (if rx_bus rx then unat (k_subscribe_ack_timeout_ms (rx_knobs rx)) else 5000)"

definition arm_subscribe_ack_timer_with_req_id :: "ws_url \<Rightarrow> sub_key \<Rightarrow> u64 \<Rightarrow> ('d, 'cb, 'p) reactor \<Rightarrow> ('d, 'cb, 'p) reactor" where
  "arm_subscribe_ack_timer_with_req_id url key req_id rx =
     on_conn url (\<lambda>m. arm_subscribe_ack key (now_of m + subscribe_ack_timeout rx)
       (record_subscribe_req_id req_id key (tick m))) rx"

definition drive_writer_closed_abnormal :: "string \<Rightarrow> managed_connection \<Rightarrow> managed_connection" where
  "drive_writer_closed_abnormal ctx = handle_event (WireAbnormalClose (AbnormalClose ctx))"

definition send_subscribe_frame :: "ws_url \<Rightarrow> nat \<Rightarrow> sub_key \<Rightarrow> json \<Rightarrow> subscribe_send \<Rightarrow> ('d, 'cb, 'p) reactor \<Rightarrow>
    ('d, 'cb, 'p) reactor \<times> send_outcome" where
  "send_subscribe_frame url sock key frame send rx =
     (case offer url sock (Subscribing send key) frame rx of
        (rx1, None) \<Rightarrow> (rx1, Sent)
      | (rx1, Some Backpressure) \<Rightarrow> (on_conn url (handle_subscribe_failure (fst key) (snd key) True None) rx1, Backpressured)
      | (rx1, Some WriterClosed) \<Rightarrow> (on_conn url (drive_writer_closed_abnormal (writer_closed_context send)) rx1, WriterDead))"

text \<open>The req id is drawn before the send, so a failed send uses one up.\<close>

definition take_req_id :: "ws_url \<Rightarrow> ('d, 'cb, 'p) reactor \<Rightarrow> ('d, 'cb, 'p) reactor \<times> u64" where
  "take_req_id url rx =
     (on_conn url (fst \<circ> next_subscribe_req_id) rx,
      case hm_get (rx_conns rx) url of None \<Rightarrow> 0 | Some m \<Rightarrow> snd (next_subscribe_req_id m))"

definition key_pairs :: "sub_key \<Rightarrow> string list" where
  "key_pairs key = (case snd key of Some s \<Rightarrow> [s] | None \<Rightarrow> [])"

text \<open>Compose, send and, when the writer took the frame, arm the ack timer: the common tail of the senders.\<close>

definition send_and_arm :: "ws_url \<Rightarrow> nat \<Rightarrow> sub_key \<Rightarrow> (u64 \<Rightarrow> json) \<Rightarrow> subscribe_send \<Rightarrow> ('d, 'cb, 'p) reactor \<Rightarrow>
    ('d, 'cb, 'p) reactor \<times> send_outcome" where
  "send_and_arm url sock key compose send rx =
     (let (rx1, req_id) = take_req_id url rx
      in case send_subscribe_frame url sock key (compose req_id) send rx1 of
           (rx2, Sent) \<Rightarrow> (arm_subscribe_ack_timer_with_req_id url key req_id rx2, Sent)
         | (rx2, failed) \<Rightarrow> (rx2, failed))"

text \<open>No valid token: record the deferral, and start a refresh unless one is awaited.\<close>

definition kick_refresh_once :: "ws_url \<Rightarrow> ('d, 'cb, 'p) reactor \<Rightarrow> ('d, 'cb, 'p) reactor" where
  "kick_refresh_once url rx =
     (case hm_get (rx_conns rx) url of
        None \<Rightarrow> rx
      | Some m \<Rightarrow>
          if awaiting_token_refresh m then rx
          else rx_force_refresh (on_conn url (\<lambda>m. m\<lparr>awaiting_token_refresh := True\<rparr>) rx))"

text \<open>The token the connection may use now; reading it takes one reading of the connection's clock.\<close>

definition token_now :: "ws_url \<Rightarrow> ('d, 'cb, 'p) reactor \<Rightarrow> ('d, 'cb, 'p) reactor \<times> string option" where
  "token_now url rx =
     (on_conn url tick rx,
      case hm_get (rx_conns rx) url of None \<Rightarrow> None | Some m \<Rightarrow> valid_token (now_of m) rx)"

definition handle_subscribe_resend :: "ws_url \<Rightarrow> sub_key \<Rightarrow> ('d, 'cb, 'p) reactor \<Rightarrow> ('d, 'cb, 'p) reactor" where
  "handle_subscribe_resend url key rx =
     (case params_for (rx_registry rx) (fst key) (snd key) of
        None \<Rightarrow> rx
      | Some params \<Rightarrow>
          (let (rx1, token) = (if url = Auth then token_now url rx else (rx, None))
           in if url = Auth \<and> token = None
              then kick_refresh_once url
                     (on_conn url (complete_resubscribe_if_empty \<circ> defer_open_auth_subscribe key params) rx1)
              else (case hm_get (rx_sockets rx1) url of
                      None \<Rightarrow> rx1
                    | Some sock \<Rightarrow>
                        fst (send_and_arm url sock key
                          (\<lambda>req_id. let payload = build_subscribe_frame ''subscribe'' (fst key) (key_pairs key) params (unat req_id)
                            in case token of None \<Rightarrow> payload | Some t \<Rightarrow> inject_token t payload) Resend rx1))))"

definition send_first_signed_subscribe :: "ws_url \<Rightarrow> ('d, 'cb, 'p) reactor \<Rightarrow> ('d, 'cb, 'p) reactor" where
  "send_first_signed_subscribe url rx =
     (case token_now url rx of
        (rx1, None) \<Rightarrow> rx_force_refresh (on_conn url (\<lambda>m. m\<lparr>awaiting_token_refresh := True\<rparr>) rx1)
      | (rx1, Some token) \<Rightarrow>
          (case hm_get (rx_sockets rx1) url of
             None \<Rightarrow> rx1
           | Some sock \<Rightarrow>
               (case compose_first_signed_subscribe_authed url token (rx_registry rx1) of
                  None \<Rightarrow> refresh_send_ready url rx1
                | Some (channel, pair, payload) \<Rightarrow>
                    fst (send_and_arm url sock (channel, pair) (\<lambda>req_id. stamp_req_id (unat req_id) payload) FirstSigned rx1))))"

fun send_all_signed :: "ws_url \<Rightarrow> nat \<Rightarrow> keyed_frame list \<Rightarrow> ('d, 'cb, 'p) reactor \<Rightarrow> ('d, 'cb, 'p) reactor" where
  "send_all_signed url sock [] rx = rx"
| "send_all_signed url sock ((channel, pair, payload) # frames) rx =
     (case send_and_arm url sock (channel, pair) (\<lambda>req_id. stamp_req_id (unat req_id) payload) RemainingSigned rx of
        (rx1, Sent) \<Rightarrow> send_all_signed url sock frames rx1
      | (rx1, Backpressured) \<Rightarrow>
          if map_option mc_state (hm_get (rx_conns rx1) url) \<noteq> Some Resubscribing then rx1
          else send_all_signed url sock frames rx1
      | (rx1, WriterDead) \<Rightarrow> rx1)"

definition send_remaining_signed_subscribes :: "ws_url \<Rightarrow> sub_key option \<Rightarrow> ('d, 'cb, 'p) reactor \<Rightarrow> ('d, 'cb, 'p) reactor" where
  "send_remaining_signed_subscribes url already_sent rx =
     (case token_now url rx of
        (rx1, None) \<Rightarrow>
          kick_refresh_once url
            (fold (\<lambda>(channel, pair, params). on_conn url (defer_open_auth_subscribe (channel, pair) params))
              (live_subscribe_keys_for_url url already_sent (rx_registry rx1)) rx1)
      | (rx1, Some token) \<Rightarrow>
          (case hm_get (rx_sockets rx1) url of
             None \<Rightarrow> rx1
           | Some sock \<Rightarrow>
               send_all_signed url sock
                 (case already_sent of
                    Some key \<Rightarrow> compose_remaining_signed_subscribes_authed url token key (rx_registry rx1)
                  | None \<Rightarrow> compose_subscribe_frames_for_url_authed url token (rx_registry rx1)) rx1))"

definition send_single_subscribe :: "ws_url \<Rightarrow> sub_key \<Rightarrow> subscribe_params \<Rightarrow> ('d, 'cb, 'p) reactor \<Rightarrow> ('d, 'cb, 'p) reactor" where
  "send_single_subscribe url key params rx =
     (case hm_get (rx_sockets rx) url of
        None \<Rightarrow> rx
      | Some sock \<Rightarrow>
          fst (send_and_arm url sock key
            (\<lambda>req_id. build_subscribe_frame ''subscribe'' (fst key) (key_pairs key) params (unat req_id)) RegisterPublic rx))"

definition send_single_signed_subscribe :: "ws_url \<Rightarrow> sub_key \<Rightarrow> subscribe_params \<Rightarrow> ('d, 'cb, 'p) reactor \<Rightarrow> ('d, 'cb, 'p) reactor" where
  "send_single_signed_subscribe url key params rx =
     (case token_now url rx of
        (rx1, None) \<Rightarrow> kick_refresh_once url (on_conn url (defer_open_auth_subscribe key params) rx1)
      | (rx1, Some token) \<Rightarrow>
          (case hm_get (rx_sockets rx1) url of
             None \<Rightarrow> rx1
           | Some sock \<Rightarrow>
               fst (send_and_arm url sock key
                 (\<lambda>req_id. inject_token token (build_subscribe_frame ''subscribe'' (fst key) (key_pairs key) params (unat req_id)))
                 RegisterWhileOpenAuth rx1)))"

text \<open>A connection event, its mirror, and the projection of the socket it may have opened.\<close>

definition drive_conn :: "ws_url \<Rightarrow> fsm_event \<Rightarrow> ('d, 'cb, 'p) reactor \<Rightarrow> ('d, 'cb, 'p) reactor" where
  "drive_conn url ev rx =
     (case hm_get (rx_conns rx) url of
        None \<Rightarrow> rx
      | Some m \<Rightarrow> project_socket_and_wire_bridge url (socket m) (write_mirror url (on_conn url (handle_event ev) rx)))"

definition auto_connect :: "ws_url \<Rightarrow> ('d, 'cb, 'p) reactor \<Rightarrow> ('d, 'cb, 'p) reactor" where
  "auto_connect url rx =
     (if map_option mc_state (hm_get (rx_conns rx) url) = Some Idle
      then drive_conn url (CallStartConnect (rx_connect_id_allocator rx))
             (rx\<lparr>rx_connect_id_allocator := rx_connect_id_allocator rx + 1\<rparr>)
      else rx)"

definition emit_first_holder :: "ws_url \<Rightarrow> sub_key \<Rightarrow> subscribe_params \<Rightarrow> ('d, 'cb, 'p) reactor \<Rightarrow> ('d, 'cb, 'p) reactor" where
  "emit_first_holder url key params rx =
     (case hm_get (rx_conns rx) url of
        None \<Rightarrow> rx
      | Some m \<Rightarrow>
          (case url of
             Auth \<Rightarrow>
               if mc_state m \<in> {Open, Resubscribing} \<or> authenticating_nothing_in_flight m
               then send_single_signed_subscribe url key params rx else rx
           | Public \<Rightarrow> send_single_subscribe url key params rx))"

definition register_one_and_emit :: "ws_url \<Rightarrow> 'd subscription_entry \<Rightarrow> nat option \<Rightarrow> ('d, 'cb, 'p) reactor \<Rightarrow>
    ('d, 'cb, 'p) reactor" where
  "register_one_and_emit url entry ref_id rx =
     (let key = (e_channel entry, e_pair entry);
          (reg, count) = register entry (rx_now rx) (ref_id \<noteq> None) (rx_registry rx);
          reg1 = (case ref_id of None \<Rightarrow> reg | Some i \<Rightarrow> record_guard_ref i (fst key) (snd key) reg);
          rx1 = auto_connect url ((rx_tick rx)\<lparr>rx_registry := reg1\<rparr>);
          rx2 = (if count = 1 then emit_first_holder url key (e_params entry) rx1 else rx1)
      in if url = Auth then refresh_send_ready url rx2 else rx2)"

end
