(* ===== verification/Reactor_Inbound.thy ===== *)
theory Reactor_Inbound
  imports Reactor_Sends
begin

text \<open>
  What the reactor does with the messages of callers, \<open>src/rust/src/dispatch/io_reactor/inbound_dispatch.rs\<close>: connection events,
  subscriptions and their teardown, handlers, order requests. Request ids are kept at 64 bits on the connection; a
  completion sender is the id of its request, and sending an error on it is a \<open>Completed\<close> entry of the log.
\<close>

section \<open>Teardown of a released key\<close>

definition teardown_released_key :: "sub_key \<Rightarrow> subscribe_params option \<Rightarrow> bool \<Rightarrow> ('d, 'cb, 'p) reactor \<Rightarrow> ('d, 'cb, 'p) reactor" where
  "teardown_released_key key params was_tombstone rx =
     (let rx1 = on_conn (channel_ws_url (fst key))
                  (remove_deferred_open_auth_subscribe key \<circ> disarm_book_reseed_snapshot key \<circ> disarm_subscribe_ack key) rx
      in if was_tombstone then rx1 else unsubscribe_and_terminate key params rx1)"

text \<open>The short-circuit after a teardown, with its mirror.\<close>

definition settle_resubscribe :: "ws_url \<Rightarrow> ('d, 'cb, 'p) reactor \<Rightarrow> ('d, 'cb, 'p) reactor" where
  "settle_resubscribe url rx = write_mirror url (on_conn url complete_resubscribe_if_empty rx)"

definition deregister_one :: "channel_name \<Rightarrow> string option \<Rightarrow> ('d, 'cb, 'p) reactor \<Rightarrow> ('d, 'cb, 'p) reactor" where
  "deregister_one channel0 pair rx =
     (let channel = wire_channel channel0;
          params = params_for (rx_registry rx) channel pair;
          was_tombstone = is_terminated (rx_registry rx) channel pair;
          (reg, remaining) = release channel pair (rx_registry rx);
          rx1 = rx\<lparr>rx_registry := reg\<rparr>
      in if remaining \<noteq> 0 \<or> params = None then rx1
         else settle_resubscribe (channel_ws_url channel) (teardown_released_key (channel, pair) params was_tombstone rx1))"

definition deregister_everything :: "channel_name option \<Rightarrow> ('d, 'cb, 'p) reactor \<Rightarrow> ('d, 'cb, 'p) reactor" where
  "deregister_everything channel rx =
     (let (reg, removed) = deregister_all (map_option wire_channel channel) (rx_registry rx);
          rx1 = fold (\<lambda>(entry, kind). teardown_released_key (e_channel entry, e_pair entry) (Some (e_params entry)) (kind = Tombstone))
                  removed (rx\<lparr>rx_registry := reg\<rparr>);
          touched = (\<lambda>u. list_ex (\<lambda>(entry, _). channel_ws_url (e_channel entry) = u) removed);
          rx2 = (if touched Public then settle_resubscribe Public rx1 else rx1)
      in if touched Auth then settle_resubscribe Auth rx2 else rx2)"

text \<open>One target of a dropped guard: the new state and whether the key was torn down.\<close>

definition drop_guard_target :: "nat \<Rightarrow> channel_name \<Rightarrow> string option \<Rightarrow> ('d, 'cb, 'p) reactor \<Rightarrow> ('d, 'cb, 'p) reactor \<times> bool" where
  "drop_guard_target i wire pair rx =
     (let params = params_for (rx_registry rx) wire pair;
          was_tombstone = is_terminated (rx_registry rx) wire pair;
          (reg, remaining) = release_guard_ref i wire pair (rx_registry rx);
          rx1 = rx\<lparr>rx_registry := reg\<rparr>
      in if params \<noteq> None \<and> remaining = 0 then (teardown_released_key (wire, pair) params was_tombstone rx1, True)
         else (rx1, False))"

fun drop_guard_targets :: "nat \<Rightarrow> channel_name \<Rightarrow> string option list \<Rightarrow> bool \<Rightarrow> ('d, 'cb, 'p) reactor \<Rightarrow> ('d, 'cb, 'p) reactor \<times> bool" where
  "drop_guard_targets i wire [] torn rx = (rx, torn)"
| "drop_guard_targets i wire (pair # pairs) torn rx =
     (case drop_guard_target i wire pair rx of (rx1, t) \<Rightarrow> drop_guard_targets i wire pairs (torn \<or> t) rx1)"

definition subscription_guard_drop :: "nat \<Rightarrow> channel_name \<Rightarrow> string list \<Rightarrow> ('d, 'cb, 'p) reactor \<Rightarrow> ('d, 'cb, 'p) reactor" where
  "subscription_guard_drop i channel symbols rx =
     (let (hr, pm) = deregister_id channel i (rx_handlers rx, rx_presence rx);
          wire = wire_channel channel;
          targets = (if symbols = [] then [None] else map Some symbols);
          (rx1, torn) = drop_guard_targets i wire targets False (rx\<lparr>rx_handlers := hr, rx_presence := pm\<rparr>)
      in if torn then settle_resubscribe (channel_ws_url wire) rx1 else rx1)"

section \<open>Order requests\<close>

definition is_order_method :: "ws_op \<Rightarrow> bool" where
  "is_order_method op \<longleftrightarrow> op \<in> {AddOrder, AmendOrder, CancelOrder, CancelAll, CancelAllOrdersAfter, BatchAdd}"

definition request_admitted :: "ws_op \<Rightarrow> 'd subscription_registry \<Rightarrow> managed_connection \<Rightarrow> bool" where
  "request_admitted op reg m \<longleftrightarrow>
     mc_state m = Open \<or> mc_state m = Authenticating \<and> \<not> has_url_entry Auth reg \<and> is_order_method op"

definition with_token :: "string \<Rightarrow> json \<Rightarrow> json" where
  "with_token token params =
     (case params of JObj m \<Rightarrow> JObj (obj_insert ''token'' (JStr token) m) | _ \<Rightarrow> JObj [(''token'', JStr token)])"

definition handle_ws_request_frame :: "u64 \<Rightarrow> string \<Rightarrow> ws_op \<Rightarrow> json \<Rightarrow> ('d, 'cb, 'p) reactor \<Rightarrow> ('d, 'cb, 'p) reactor" where
  "handle_ws_request_frame req_id mth op params rx =
     (case hm_get (rx_conns rx) Auth of
        None \<Rightarrow> rx_act (Completed req_id NotOpen) rx
      | Some m \<Rightarrow>
          if \<not> request_admitted op (rx_registry rx) m then rx_act (Completed req_id NotOpen) rx
          else (let now = now_of m; rx1 = on_conn Auth tick rx
                in case valid_token now rx of
                     None \<Rightarrow>
                       rx_act (Completed req_id NotOpen)
                         (rx_force_refresh
                           (on_conn Auth (\<lambda>m. m\<lparr>awaiting_token_refresh := True\<rparr>)
                             (rx1\<lparr>rx_tokens := invalidate_cached_token (rx_tokens rx1)\<rparr>)))
                   | Some token \<Rightarrow>
                       (let composed = JObj [(''method'', JStr mth), (''params'', with_token token params), (''req_id'', JNum (unat req_id))];
                            rx2 = on_conn Auth (record_pending_request \<lparr>p_req_id = req_id, p_op = op, p_sent_at = now\<rparr>) rx1;
                            (rx3, failed) = (case hm_get (rx_sockets rx2) Auth of
                                               Some s \<Rightarrow> (case offer Auth s (Requesting req_id) composed rx2 of (rx', r) \<Rightarrow> (rx', r \<noteq> None))
                                             | None \<Rightarrow> (rx2, True))
                        in if failed then on_conn Auth (fail_pending_request req_id NotOpen) rx3 else rx3)))"

section \<open>Caller messages\<close>

fun caller_fsm_event :: "caller_event \<Rightarrow> fsm_event" where
  "caller_fsm_event (StartConnect i) = CallStartConnect i"
| "caller_fsm_event (CallerClose i) = CallClose i"
| "caller_fsm_event (CallerForceReconnect i) = CallForceReconnect i"

text \<open>After each entry of a batch a socket the connection has given up is dropped.\<close>

definition register_batch_entry :: "ws_url \<Rightarrow> nat option \<Rightarrow> 'd subscription_entry \<Rightarrow> ('d, 'cb, 'p) reactor \<Rightarrow> ('d, 'cb, 'p) reactor" where
  "register_batch_entry url ref_id entry rx =
     (let rx1 = register_one_and_emit url entry ref_id rx
      in case hm_get (rx_conns rx1) url of
           None \<Rightarrow> rx1
         | Some m \<Rightarrow>
             if socket m = None
             then rx1\<lparr>rx_sockets := hm_remove url (rx_sockets rx1), rx_upgrade_guards := hm_remove url (rx_upgrade_guards rx1)\<rparr>
             else rx1)"

fun registry_mutation :: "ws_url \<Rightarrow> 'd registry_mutation_op \<Rightarrow> ('d, 'cb, 'p) reactor \<Rightarrow> ('d, 'cb, 'p) reactor" where
  "registry_mutation url (RegisterBatch es ref_id) rx = fold (register_batch_entry url ref_id) es rx"
| "registry_mutation url (DeregisterOne channel pair) rx = deregister_one channel pair rx"
| "registry_mutation url (DeregisterBatch channel pairs) rx = fold (\<lambda>pair. deregister_one channel (Some pair)) pairs rx"
| "registry_mutation url (DeregisterAll channel) rx = deregister_everything channel rx"

fun handle_inbound :: "('d, 'cb) caller_inbound \<Rightarrow> ('d, 'cb, 'p) reactor \<Rightarrow> ('d, 'cb, 'p) reactor" where
  "handle_inbound (InFsmEvent url ev) rx = drive_conn url (caller_fsm_event ev) rx"
| "handle_inbound (InClientClose i t) rx = rx"
| "handle_inbound (InRegistryMutation url mutation) rx = registry_mutation url mutation rx"
| "handle_inbound (InHandlerMutation post) rx =
     (case handle_post post (rx_handlers rx, rx_presence rx) of (hr, pm) \<Rightarrow> rx\<lparr>rx_handlers := hr, rx_presence := pm\<rparr>)"
| "handle_inbound (InSubscriptionGuardDrop i channel symbols) rx = subscription_guard_drop i channel symbols rx"
| "handle_inbound (InWsRequestFrame req_id mth op params) rx = handle_ws_request_frame (word_of_nat req_id) mth op params rx"
| "handle_inbound (InAbandonWsRequest req_id) rx = on_conn Auth (fail_pending_request (word_of_nat req_id) ResponseTimeout) rx"

definition refresh_auth_send_ready_hint :: "('d, 'cb, 'p) reactor \<Rightarrow> ('d, 'cb, 'p) reactor" where
  "refresh_auth_send_ready_hint rx =
     refresh_send_ready Auth (rx\<lparr>rx_auth_has_subscriptions := has_url_entry Auth (rx_registry rx)\<rparr>)"

end
