(* ===== verification/Reactor_Frames.thy ===== *)
theory Reactor_Frames
  imports Reactor_Inbound
begin

text \<open>
  Inbound frames, \<open>src/rust/src/dispatch/io_reactor/frame_routing.rs\<close>: responses to requests, subscribe acks, data with
  its fan-out to handlers, book gaps and their recovery. A text frame is the JSON value \<open>serde_json\<close> reads from it, or
  nothing when it does not parse. \<open>env\<close> holds the code outside: the CRC hasher, the deserialiser of book
  data, the decimal parser, and the decoders registered with the handlers. The count of dropped messages is 32 bits wide.
\<close>

section \<open>Environment and readers\<close>

datatype 'p decode_outcome = Deliver 'p | DecodeFailed | DecodePanicked panic_payload

record ('h, 'd, 'cb, 'p) rx_env =
  env_hasher :: "'h hasher"
  env_deser :: "json \<Rightarrow> raw_book_data option"
  env_dec :: "string \<Rightarrow> 'd option"
  env_decode :: "'cb \<Rightarrow> json \<Rightarrow> 'p decode_outcome"

datatype frame_result =
    TextFrame "json option"
  | OtherFrame
  | FrameError transport_error_kind

fun as_bool :: "json \<Rightarrow> bool option" where
  "as_bool (JBool b) = Some b"
| "as_bool _ = None"

fun as_u64 :: "json \<Rightarrow> u64 option" where
  "as_u64 (JNum n) = (if n < 2 ^ 64 then Some (word_of_nat n) else None)"
| "as_u64 (JNumber s) = map_option word_of_nat (parse_u64 s)"
| "as_u64 _ = None"

definition str_field :: "json \<Rightarrow> string \<Rightarrow> string option" where
  "str_field j k = Option.bind (json_get j k) as_str"

definition symbol_of :: "string \<Rightarrow> string option" where
  "symbol_of s = (case symbol_new s of Inl _ \<Rightarrow> None | Inr v \<Rightarrow> Some v)"

section \<open>Classification of errors\<close>

definition classify_auth_class :: "string \<Rightarrow> auth_error_kind option" where
  "classify_auth_class err =
     (if str_contains ''EAPI:Invalid token'' err \<or> str_contains ''ESession:Invalid session'' err \<or>
         str_contains ''token'' err \<and>
           (str_contains ''stale'' err \<or> str_contains ''expired'' err \<or> str_contains ''expir'' err \<or>
            str_contains ''Invalid'' err \<or> str_contains ''invalid'' err)
      then Some TokenStale
      else if str_contains ''EAPI:Permission denied'' err then Some BadCreds
      else if str_contains ''Permission denied'' err \<or> str_contains ''permission denied'' err \<or>
         str_contains ''EGeneral:Permission'' err
      then Some PermissionDenied
      else if str_contains ''EAPI:Invalid'' err \<or> str_contains ''EAuth:'' err \<or> str_contains ''EAPI:Bad'' err \<or>
         str_contains ''Invalid key'' err \<or> str_contains ''Invalid signature'' err
      then Some BadCreds
      else None)"

definition classify_auth_handshake_error :: "string \<Rightarrow> auth_error_kind" where
  "classify_auth_handshake_error err = (case classify_auth_class err of Some k \<Rightarrow> k | None \<Rightarrow> Transient)"

datatype order_ack_auth = Authenticated | AuthFailed auth_error_kind

definition classify_order_ack_auth :: "bool \<Rightarrow> string option \<Rightarrow> order_ack_auth" where
  "classify_order_ack_auth success err =
     (if success then Authenticated
      else case Option.bind err classify_auth_class of Some kind \<Rightarrow> AuthFailed kind | None \<Rightarrow> Authenticated)"

definition order_ack_default_authenticated_is_unrecognized :: "bool \<Rightarrow> string option \<Rightarrow> bool" where
  "order_ack_default_authenticated_is_unrecognized success err \<longleftrightarrow>
     \<not> success \<and> Option.bind err classify_auth_class = None \<and>
     (case err of None \<Rightarrow> True | Some e \<Rightarrow> \<not> starts_with ''E'' e)"

definition classify_order_ack_warned :: "bool \<Rightarrow> string option \<Rightarrow> ('d, 'cb, 'p) reactor \<Rightarrow> ('d, 'cb, 'p) reactor \<times> order_ack_auth" where
  "classify_order_ack_warned success err rx =
     (if order_ack_default_authenticated_is_unrecognized success err then rx_act (Warned ''order-ack-unrecognized'' None) rx else rx,
      classify_order_ack_auth success err)"

definition subscribe_rejection_is_transient :: "string \<Rightarrow> bool" where
  "subscribe_rejection_is_transient err = is_kraken_rate_limit err"

section \<open>Throttled warnings and drop reports\<close>

definition MESSAGE_DROPPED_PERIOD :: duration where
  "MESSAGE_DROPPED_PERIOD = secs 1"

definition suppress_warn_throttled :: "string \<Rightarrow> channel_name option \<Rightarrow> ('d, 'cb, 'p) reactor \<Rightarrow> ('d, 'cb, 'p) reactor" where
  "suppress_warn_throttled site channel rx =
     (let now = rx_now rx; rx1 = rx_tick rx;
          should_warn = (case hm_get (rx_warn_tracker rx1) (site, channel) of
                           None \<Rightarrow> True | Some prev \<Rightarrow> now \<ge> prev + MESSAGE_DROPPED_PERIOD)
      in if should_warn
         then rx_act (Warned site channel) (rx1\<lparr>rx_warn_tracker := hm_insert (site, channel) now (rx_warn_tracker rx1)\<rparr>)
         else rx1)"

text \<open>The report is stamped with the reading that decided it.\<close>

definition emit_message_dropped :: "channel_name \<Rightarrow> instant \<Rightarrow> u32 \<Rightarrow> ('d, 'cb, 'p) reactor \<Rightarrow> ('d, 'cb, 'p) reactor" where
  "emit_message_dropped channel now n rx =
     (if rx_bus rx then rx_act (RxPublished 1 now (MessageDroppedEvent channel n MESSAGE_DROPPED_PERIOD)) rx else rx)"

definition record_drop_and_maybe_emit :: "channel_name \<Rightarrow> ('d, 'cb, 'p) reactor \<Rightarrow> ('d, 'cb, 'p) reactor" where
  "record_drop_and_maybe_emit channel rx =
     (let now = rx_now rx; rx1 = rx_tick rx
      in case hm_get (rx_drop_tracker rx1) channel of
           None \<Rightarrow>
             emit_message_dropped channel now 1 (rx1\<lparr>rx_drop_tracker := hm_insert channel (now, 0) (rx_drop_tracker rx1)\<rparr>)
         | Some (last_emit, pending) \<Rightarrow>
             if now \<ge> last_emit + MESSAGE_DROPPED_PERIOD
             then emit_message_dropped channel now (pending + 1)
                    (rx1\<lparr>rx_drop_tracker := hm_insert channel (now, 0) (rx_drop_tracker rx1)\<rparr>)
             else rx1\<lparr>rx_drop_tracker := hm_insert channel (last_emit, pending + 1) (rx_drop_tracker rx1)\<rparr>)"

section \<open>Book gaps\<close>

definition emit_book_gap_events :: "string \<Rightarrow> ('d, 'cb, 'p) reactor \<Rightarrow> ('d, 'cb, 'p) reactor" where
  "emit_book_gap_events symbol rx =
     (if rx_bus rx
      then (let now = rx_now rx
            in rx_act (RxPublished 2 now (SubscriptionGapEvent Book symbol 0 OrderBookCrcMismatch))
                 (rx_act (RxPublished 2 now (OrderBookGapEvent Book symbol OrderBookCrcMismatch)) (rx_tick rx)))
      else rx)"

definition emit_channel_gap_event :: "channel_name \<Rightarrow> u32 \<Rightarrow> ('d, 'cb, 'p) reactor \<Rightarrow> ('d, 'cb, 'p) reactor" where
  "emit_channel_gap_event channel dropped = rx_publish 1 (\<lambda>_. ChannelGapEvent channel dropped SequenceGapDetected)"

definition send_book_reseed :: "ws_url \<Rightarrow> string \<Rightarrow> subscribe_params \<Rightarrow> ('d, 'cb, 'p) reactor \<Rightarrow> ('d, 'cb, 'p) reactor" where
  "send_book_reseed url symbol params rx =
     (let key = (Book, Some symbol);
          rx1 = send_single_subscribe url key params (send_single_unsubscribe url key params rx)
      in on_conn url (\<lambda>m. arm_book_reseed_snapshot key (now_of m + subscribe_ack_timeout rx1) (tick m)) rx1)"

definition recover_book_gap :: "ws_url \<Rightarrow> string \<Rightarrow> ('d, 'cb, 'p) reactor \<Rightarrow> ('d, 'cb, 'p) reactor" where
  "recover_book_gap url symbol rx =
     (let rx1 = rx\<lparr>rx_registry := begin_book_resync Book symbol (rx_registry rx)\<rparr>
      in case (params_for (rx_registry rx1) Book (Some symbol), hm_get (rx_conns rx1) url) of
           (Some params, Some _) \<Rightarrow> send_book_reseed url symbol params rx1
         | _ \<Rightarrow> rx1)"

definition handle_book_reseed_timeout :: "ws_url \<Rightarrow> string option \<Rightarrow> ('d, 'cb, 'p) reactor \<Rightarrow> ('d, 'cb, 'p) reactor" where
  "handle_book_reseed_timeout url pair rx =
     (case pair of
        None \<Rightarrow> rx
      | Some symbol \<Rightarrow>
          (case note_reseed_timeout Book symbol (rx_registry rx) of
             (reg, StaleNoOp) \<Rightarrow> rx\<lparr>rx_registry := reg\<rparr>
           | (reg, Subscription_Registry.Retry) \<Rightarrow>
               (case params_for reg Book (Some symbol) of
                  None \<Rightarrow> rx\<lparr>rx_registry := reg\<rparr>
                | Some params \<Rightarrow> send_book_reseed url symbol params (rx\<lparr>rx_registry := reg\<rparr>))
           | (reg, Exhausted) \<Rightarrow> emit_book_gap_events symbol (rx\<lparr>rx_registry := reg\<rparr>)))"

section \<open>Data frames\<close>

definition publish_to_handlers :: "channel_name \<Rightarrow> ('d, 'p) data_payload \<Rightarrow> 'cb handler_entry list \<Rightarrow> ('d, 'cb, 'p) reactor \<Rightarrow>
    ('d, 'cb, 'p) reactor" where
  "publish_to_handlers ch payload hs rx = fold (\<lambda>h. rx_act (DataPublished ch (he_id h) payload)) hs rx"

fun freezes_book :: "'d book_drive_outcome \<Rightarrow> bool" where
  "freezes_book (Gap _ _) = True"
| "freezes_book AwaitingSnapshot = True"
| "freezes_book GapBudgetExhausted = True"
| "freezes_book _ = False"

definition decode_and_deliver :: "('h, 'd, 'cb, 'p) rx_env \<Rightarrow> channel_name \<Rightarrow> string option \<Rightarrow> string option \<Rightarrow> json \<Rightarrow>
    'cb handler_entry \<Rightarrow> 'cb handler_entry list \<Rightarrow> ('d, 'cb, 'p) reactor \<Rightarrow> ('d, 'cb, 'p) reactor" where
  "decode_and_deliver env ch msg_type symbol entry h hs rx =
     (case env_decode env (he_callback h)
             (JObj [(''type'', case msg_type of None \<Rightarrow> JNull | Some t \<Rightarrow> JStr t), (''data'', entry)]) of
        Deliver payload \<Rightarrow> publish_to_handlers ch (Decoded payload) (h # hs) rx
      | DecodeFailed \<Rightarrow>
          (case symbol of
             Some s \<Rightarrow> rx_publish 2 (\<lambda>_. SubscriptionGapEvent ch s 0 MalformedFrame) rx
           | None \<Rightarrow> suppress_warn_throttled ''decode-fail-no-symbol'' (Some ch) rx)
      | DecodePanicked panic \<Rightarrow> rx_publish 1 (\<lambda>_. HandlerPanicEvent ch (he_id h) (truncate_panic_message panic)) rx)"

definition fan_out_to :: "('h, 'd, 'cb, 'p) rx_env \<Rightarrow> channel_name \<Rightarrow> string option \<Rightarrow> string option \<Rightarrow> json \<Rightarrow> 'd book_drive_outcome \<Rightarrow>
    channel_name \<Rightarrow> ('d, 'cb, 'p) reactor \<Rightarrow> ('d, 'cb, 'p) reactor" where
  "fan_out_to env channel msg_type symbol entry outcome fan rx =
     (if fan = Book \<and> freezes_book outcome then rx
      else case handlers_for (rx_handlers rx) fan of
             [] \<Rightarrow>
               if fan = channel \<and> channel \<noteq> Status \<and> (channel \<noteq> Book \<or> handlers_for (rx_handlers rx) BookRaw = [])
               then record_drop_and_maybe_emit channel rx else rx
           | h # hs \<Rightarrow>
               if \<not> rx_bus rx then rx
               else (case (fan, outcome) of
                       (Book, Maintained update) \<Rightarrow> publish_to_handlers fan (TypedBook update) (h # hs) rx
                     | _ \<Rightarrow> decode_and_deliver env fan msg_type symbol entry h hs rx))"

text \<open>The gap events of one data row, and the symbol to reseed.\<close>

definition report_book_gap :: "'d book_drive_outcome \<Rightarrow> string option \<Rightarrow> ('d, 'cb, 'p) reactor \<Rightarrow> ('d, 'cb, 'p) reactor \<times> string list" where
  "report_book_gap outcome symbol rx =
     (case outcome of
        Gap _ _ \<Rightarrow>
          (case symbol of
             Some s \<Rightarrow> (emit_book_gap_events s rx, [s])
           | None \<Rightarrow> (suppress_warn_throttled ''crc-gap-no-symbol'' None rx, []))
      | GapBudgetExhausted \<Rightarrow>
          (case symbol of
             Some s \<Rightarrow> (emit_book_gap_events s rx, [])
           | None \<Rightarrow> (suppress_warn_throttled ''crc-gap-no-symbol'' None rx, []))
      | _ \<Rightarrow> (rx, []))"

definition route_row :: "('h, 'd::linorder, 'cb, 'p) rx_env \<Rightarrow> channel_name \<Rightarrow> string option \<Rightarrow> json \<Rightarrow> ('d, 'cb, 'p) reactor \<Rightarrow>
    ('d, 'cb, 'p) reactor \<times> string list" where
  "route_row env channel msg_type entry rx =
     (let symbol = Option.bind (str_field entry ''symbol'') symbol_of;
          (reg, outcome) = handle_update (env_hasher env) (env_deser env) (env_dec env) channel symbol
                             (msg_type = Some ''snapshot'') entry (rx_registry rx);
          (rx1, gaps) = report_book_gap outcome symbol (rx\<lparr>rx_registry := reg\<rparr>)
      in (fold (fan_out_to env channel msg_type symbol entry outcome) (if channel = Book then [Book, BookRaw] else [channel]) rx1, gaps))"

fun route_rows :: "('h, 'd::linorder, 'cb, 'p) rx_env \<Rightarrow> channel_name \<Rightarrow> string option \<Rightarrow> json list \<Rightarrow> ('d, 'cb, 'p) reactor \<Rightarrow>
    ('d, 'cb, 'p) reactor \<times> string list" where
  "route_rows env channel msg_type [] rx = (rx, [])"
| "route_rows env channel msg_type (entry # rows) rx =
     (let (rx1, gaps) = route_row env channel msg_type entry rx;
          (rx2, more) = route_rows env channel msg_type rows rx1
      in (rx2, gaps @ more))"

definition detect_sequence_gap :: "channel_name \<Rightarrow> string option \<Rightarrow> json \<Rightarrow> ('d, 'cb, 'p) reactor \<Rightarrow> ('d, 'cb, 'p) reactor" where
  "detect_sequence_gap channel msg_type j rx =
     (if channel \<in> {Executions, Balances}
      then (case Option.bind (json_get j ''sequence'') as_u64 of
              None \<Rightarrow> rx
            | Some seq \<Rightarrow>
                (case note_sequence channel seq (msg_type = Some ''snapshot'') (rx_registry rx) of
                   (reg, None) \<Rightarrow> rx\<lparr>rx_registry := reg\<rparr>
                 | (reg, Some dropped) \<Rightarrow> emit_channel_gap_event channel dropped (rx\<lparr>rx_registry := reg\<rparr>)))
      else rx)"

definition route_text_frame :: "('h, 'd::linorder, 'cb, 'p) rx_env \<Rightarrow> json \<Rightarrow> ('d, 'cb, 'p) reactor \<Rightarrow> ('d, 'cb, 'p) reactor \<times> string list" where
  "route_text_frame env j rx =
     (let msg_type = str_field j ''type''
      in case Option.bind (str_field j ''channel'') from_wire_str of
           None \<Rightarrow> (rx, [])
         | Some channel \<Rightarrow>
             if msg_type \<noteq> Some ''update'' \<and> msg_type \<noteq> Some ''snapshot'' then (rx, [])
             else (let rx1 = detect_sequence_gap channel msg_type j rx
                   in case Option.bind (json_get j ''data'') as_array of
                        None \<Rightarrow> (suppress_warn_throttled ''non-array-data'' (Some channel) rx1, [])
                      | Some data \<Rightarrow> route_rows env channel msg_type data rx1))"

section \<open>Responses to requests\<close>

definition probe_acked :: "('d, 'cb, 'p) reactor \<Rightarrow> ('d, 'cb, 'p) reactor" where
  "probe_acked rx =
     (if has_url_entry Auth (rx_registry rx)
      then (let rx1 = on_conn Auth (handle_event WireAuthHandshakeOk) rx
            in if map_option mc_state (hm_get (rx_conns rx1) Auth) = Some Resubscribing
               then on_conn Auth complete_resubscribe_if_empty (send_remaining_signed_subscribes Auth None rx1)
               else rx1)
      else on_conn Auth (handle_event WireOrderAuthOk) rx)"

definition probe_response :: "u64 \<Rightarrow> order_ack_auth \<Rightarrow> ('d, 'cb, 'p) reactor \<Rightarrow> ('d, 'cb, 'p) reactor" where
  "probe_response req_id ack rx =
     (let rx1 = (case ack of
                   Authenticated \<Rightarrow> probe_acked rx
                 | AuthFailed kind \<Rightarrow>
                     (let rx' = on_conn Auth (handle_event (WireAuthHandshakeFailed kind)) rx
                      in if kind = TokenStale then on_conn Auth (drain_one_retryable req_id) rx' else rx'))
      in fst (store_send_ready Auth (write_mirror Auth rx1)))"

definition open_token_stale :: "u64 \<Rightarrow> ('d, 'cb, 'p) reactor \<Rightarrow> ('d, 'cb, 'p) reactor" where
  "open_token_stale req_id rx =
     (let rx1 = on_conn Auth (handle_event WireOrderAckTokenStale) rx;
          rx2 = on_conn Auth (\<lambda>m. m\<lparr>awaiting_token_refresh := True\<rparr>) (rx1\<lparr>rx_tokens := invalidate_cached_token (rx_tokens rx1)\<rparr>)
      in write_mirror Auth (on_conn Auth (drain_one_retryable req_id) (rx_force_refresh rx2)))"

definition settle_response :: "ws_response \<Rightarrow> ('d, 'cb, 'p) reactor \<Rightarrow> ('d, 'cb, 'p) reactor" where
  "settle_response resp rx =
     (case hm_get (rx_conns rx) Auth of
        None \<Rightarrow> rx
      | Some m0 \<Rightarrow>
          (let (rx1, ack) = classify_order_ack_warned (r_success resp) (r_error resp) rx;
               rx2 = (if mc_state m0 = Authenticating then probe_response (r_req_id resp) ack rx1 else rx1);
               rx3 = (if map_option mc_state (hm_get (rx_conns rx2) Auth) = Some Open \<and> ack = AuthFailed TokenStale
                      then open_token_stale (r_req_id resp) rx2 else rx2)
           in on_conn Auth (\<lambda>m. if pending_requests_contains (r_req_id resp) m then resolve_pending_request resp m else m) rx3))"

definition handle_request_response :: "ws_url \<Rightarrow> json \<Rightarrow> ('d, 'cb, 'p) reactor \<Rightarrow> ('d, 'cb, 'p) reactor \<times> bool" where
  "handle_request_response url j rx =
     (if url \<noteq> Auth \<or> Option.bind (str_field j ''method'') from_method = None then (rx, False)
      else case Option.bind (json_get j ''req_id'') as_u64 of
             None \<Rightarrow> (suppress_warn_throttled ''req-resp-no-req-id'' None rx, True)
           | Some req_id \<Rightarrow>
               (let success = Option.bind (json_get j ''success'') as_bool;
                    rx1 = (if success = None then suppress_warn_throttled ''req-resp-no-success'' None rx else rx);
                    resp = \<lparr>r_req_id = req_id, r_success = (success = Some True),
                            r_result = (case json_get j ''result'' of Some v \<Rightarrow> v | None \<Rightarrow> JNull),
                            r_error = str_field j ''error''\<rparr>
                in (settle_response resp rx1, True)))"

section \<open>Subscribe acks\<close>

definition ack_field :: "json \<Rightarrow> string \<Rightarrow> json option" where
  "ack_field j k =
     (case Option.bind (json_get j ''result'') (\<lambda>r. json_get r k) of Some v \<Rightarrow> Some v | None \<Rightarrow> json_get j k)"

definition handshake_ack :: "ws_url \<Rightarrow> sub_key \<Rightarrow> ('d, 'cb, 'p) reactor \<Rightarrow> ('d, 'cb, 'p) reactor" where
  "handshake_ack url key rx =
     (let rx1 = on_conn url (disarm_subscribe_ack key \<circ> handle_event WireAuthHandshakeOk) rx;
          rx2 = rx1\<lparr>rx_registry := note_acked (fst key) (snd key) (rx_registry rx1)\<rparr>;
          rx3 = on_conn url (remove_deferred_open_auth_subscribe key) rx2
      in if map_option mc_state (hm_get (rx_conns rx3) url) = Some Resubscribing
         then on_conn url complete_resubscribe_if_empty (send_remaining_signed_subscribes url (Some key) rx3)
         else rx3)"

definition handshake_rejected :: "ws_url \<Rightarrow> sub_key \<Rightarrow> json \<Rightarrow> ('d, 'cb, 'p) reactor \<Rightarrow> ('d, 'cb, 'p) reactor" where
  "handshake_rejected url key j rx =
     (let err = (case str_field j ''error'' of Some e \<Rightarrow> e | None \<Rightarrow> ''auth handshake rejected'');
          kind = classify_auth_handshake_error err;
          attempt = (case hm_get (rx_conns rx) url of Some m \<Rightarrow> attempt_count m | None \<Rightarrow> 0);
          rx1 = rx_publish 1 (\<lambda>_. HandshakeFailedEvent url attempt (kind = Transient) err) rx;
          rx2 = on_conn url (disarm_subscribe_ack key \<circ> handle_event (WireAuthHandshakeFailed kind)) rx1
      in case hm_get (rx_conns rx2) url of
           Some m \<Rightarrow> if mc_state m = Authenticating \<and> awaiting_token_refresh m then rx_force_refresh rx2 else rx2
         | None \<Rightarrow> rx2)"

definition ack_accepted :: "ws_url \<Rightarrow> sub_key \<Rightarrow> ('d, 'cb, 'p) reactor \<Rightarrow> ('d, 'cb, 'p) reactor" where
  "ack_accepted url key rx =
     (let rx1 = rx\<lparr>rx_registry := note_acked (fst key) (snd key) (rx_registry rx)\<rparr>
      in on_conn url (\<lambda>m. handle_event (WireSubscribeAck (fst key) (snd key) (pending_subscribe_ack_count m \<le> 1))
           (remove_deferred_open_auth_subscribe key m)) rx1)"

definition ack_rejected :: "ws_url \<Rightarrow> sub_key \<Rightarrow> json \<Rightarrow> ('d, 'cb, 'p) reactor \<Rightarrow> ('d, 'cb, 'p) reactor" where
  "ack_rejected url key j rx =
     (let err = (case str_field j ''error'' of Some e \<Rightarrow> e | None \<Rightarrow> ''subscribe rejected'');
          transient = subscribe_rejection_is_transient err;
          rx1 = (if transient then rx
                 else on_conn url (disarm_book_reseed_snapshot key)
                        (rx\<lparr>rx_registry := note_terminated (fst key) (snd key) NonTransientWireRejection (Some err) (rx_registry rx)\<rparr>))
      in on_conn url (handle_event (WireSubscribeFailed (fst key) (snd key) (SubscribeRejected err transient))) rx1)"

definition settle_sub_ack :: "ws_url \<Rightarrow> sub_key \<Rightarrow> bool \<Rightarrow> json \<Rightarrow> managed_connection \<Rightarrow> ('d, 'cb, 'p) reactor \<Rightarrow> ('d, 'cb, 'p) reactor" where
  "settle_sub_ack url key success j m rx =
     (if mc_state m = Authenticating
      then refresh_send_ready url (write_mirror url (if success then handshake_ack url key rx else handshake_rejected url key j rx))
      else if \<not> is_subscribe_ack_armed key m
      then (if success
            then write_mirror url (on_conn url (complete_resubscribe_if_empty \<circ> remove_deferred_open_auth_subscribe key \<circ>
                   disarm_subscribe_ack key) rx)
            else rx)
      else (let quirk = (fst key = Status \<and> \<not> success \<and>
                  (case str_field j ''error'' of Some e \<Rightarrow> str_contains ''Symbol(s) not found'' e | None \<Rightarrow> False))
            in write_mirror url (if success \<or> quirk then ack_accepted url key rx else ack_rejected url key j rx)))"

definition handle_sub_ack :: "ws_url \<Rightarrow> json \<Rightarrow> ('d, 'cb, 'p) reactor \<Rightarrow> ('d, 'cb, 'p) reactor \<times> bool" where
  "handle_sub_ack url j rx =
     (case str_field j ''method'' of
        None \<Rightarrow> (rx, False)
      | Some mth \<Rightarrow>
          if mth = ''unsubscribe'' then (rx, True)
          else if mth \<noteq> ''subscribe'' then (rx, False)
          else (let success = Option.bind (json_get j ''success'') as_bool;
                    rx1 = (if success = None
                           then suppress_warn_throttled
                                  (case url of Auth \<Rightarrow> ''sub-ack-no-success-auth'' | Public \<Rightarrow> ''sub-ack-no-success-public'') None rx
                           else rx);
                    wire = Option.bind (Option.bind (ack_field j ''channel'') as_str) from_wire_str;
                    echoed = Option.bind (Option.bind (ack_field j ''symbol'') as_str) symbol_of;
                    req_id = Option.bind (json_get j ''req_id'') as_u64
                in case hm_get (rx_conns rx1) url of
                     None \<Rightarrow> (rx1, True)
                   | Some m \<Rightarrow>
                       (case (case wire of
                                Some ch \<Rightarrow> Some (ch, echoed)
                              | None \<Rightarrow> Option.bind req_id (\<lambda>i. resolve_subscribe_req_id i m)) of
                          None \<Rightarrow> (rx1, True)
                        | Some key \<Rightarrow> (settle_sub_ack url key (success = Some True) j m rx1, True))))"

section \<open>One frame\<close>

definition drive_wire_close :: "ws_url \<Rightarrow> fsm_event \<Rightarrow> ('d, 'cb, 'p) reactor \<Rightarrow> ('d, 'cb, 'p) reactor" where
  "drive_wire_close url ev rx =
     (let dead = hm_get (rx_sockets rx) url;
          rx1 = write_mirror url (on_conn url (handle_event ev)
                  (rx\<lparr>rx_sockets := hm_remove url (rx_sockets rx), rx_upgrade_guards := hm_remove url (rx_upgrade_guards rx)\<rparr>))
      in case Option.bind (hm_get (rx_conns rx1) url) socket of
           None \<Rightarrow> rx1
         | Some s \<Rightarrow>
             if Some s = dead then rx1
             else (let rx2 = rx1\<lparr>rx_sockets := hm_insert url s (rx_sockets rx1)\<rparr>
                   in if rx_bus rx2 then rx2\<lparr>rx_upgrade_guards := hm_insert url s (rx_upgrade_guards rx2)\<rparr> else rx2))"

definition handle_text :: "('h, 'd::linorder, 'cb, 'p) rx_env \<Rightarrow> ws_url \<Rightarrow> json \<Rightarrow> ('d, 'cb, 'p) reactor \<Rightarrow> ('d, 'cb, 'p) reactor" where
  "handle_text env url j rx =
     (case handle_request_response url j rx of
        (rx1, True) \<Rightarrow> rx1
      | (rx1, False) \<Rightarrow>
          (case handle_sub_ack url j rx1 of
             (rx2, True) \<Rightarrow> rx2
           | (rx2, False) \<Rightarrow>
               (case route_text_frame env j rx2 of (rx3, gaps) \<Rightarrow> fold (recover_book_gap url) gaps rx3)))"

fun handle_frame :: "('h, 'd::linorder, 'cb, 'p) rx_env \<Rightarrow> ws_url \<Rightarrow> frame_result \<Rightarrow> ('d, 'cb, 'p) reactor \<Rightarrow> ('d, 'cb, 'p) reactor" where
  "handle_frame env url (TextFrame v) rx =
     (let rx1 = on_conn url note_inbound_activity rx in case v of None \<Rightarrow> rx1 | Some j \<Rightarrow> handle_text env url j rx1)"
| "handle_frame env url OtherFrame rx = on_conn url note_inbound_activity rx"
| "handle_frame env url (FrameError kind) rx =
     drive_wire_close url (case kind of CloseFrame code reason \<Rightarrow> WireCloseReceived code (Some reason) | _ \<Rightarrow> WireAbnormalClose kind) rx"

end
