(* ===== verification/Reactor.thy ===== *)
theory Reactor
  imports Reactor_Frames
begin

text \<open>
  The loop of the I/O reactor, \<open>src/rust/src/dispatch/io_reactor/mod.rs\<close>. One iteration of the \<open>select!\<close> is one step on what it
  received: a caller's message, the outcome of an upgrade or of a token refresh, a frame, or the earliest timer. What
  the spawned token tasks do in between and the bus going away are steps of their own. Which of several ready
  sources the loop takes is left open. Posting back the deferred teardowns at the top of the loop is part of \<open>Ws_Surface\<close>.
\<close>

section \<open>Upgrades\<close>

datatype upgrade_outcome = UpgradeOk ws_url nat | UpgradeFailed ws_url transport_error_kind bool

fun upgrade_failure_event :: "transport_error_kind \<Rightarrow> bool \<Rightarrow> fsm_event" where
  "upgrade_failure_event (HttpUpgradeRejected status) transient = WireUpgradeFailed status"
| "upgrade_failure_event kind transient = WireConnectError kind transient"

definition upgrade_ok_is_live :: "ws_url \<Rightarrow> nat \<Rightarrow> ('d, 'cb, 'p) reactor \<Rightarrow> bool" where
  "upgrade_ok_is_live url cid rx \<longleftrightarrow> hm_get (rx_sockets rx) url = Some cid"

text \<open>The replay after a reconnect. A book still resyncing gets its liveness timer back.\<close>

definition arm_replayed :: "ws_url \<Rightarrow> sub_key \<Rightarrow> u64 \<Rightarrow> duration \<Rightarrow> ('d, 'cb, 'p) reactor \<Rightarrow> ('d, 'cb, 'p) reactor" where
  "arm_replayed url key req_id timeout rx =
     (let arm_reseed = (fst key = Book \<and> is_book_resyncing (rx_registry rx) (fst key) (snd key))
      in on_conn url (\<lambda>m. let due = now_of m + timeout;
             m1 = arm_subscribe_ack key due (record_subscribe_req_id req_id key (tick m))
           in if arm_reseed then arm_book_reseed_snapshot key due m1 else m1) rx)"

fun replay_frames :: "ws_url \<Rightarrow> nat \<Rightarrow> duration \<Rightarrow> keyed_frame list \<Rightarrow> ('d, 'cb, 'p) reactor \<Rightarrow> ('d, 'cb, 'p) reactor" where
  "replay_frames url sock timeout [] rx = rx"
| "replay_frames url sock timeout ((channel, pair, payload) # frames) rx =
     (let (rx1, req_id) = take_req_id url rx
      in case send_subscribe_frame url sock (channel, pair) (stamp_req_id (unat req_id) payload) ResubscribeReplay rx1 of
           (rx2, Sent) \<Rightarrow> replay_frames url sock timeout frames (arm_replayed url (channel, pair) req_id timeout rx2)
         | (rx2, Backpressured) \<Rightarrow>
             if map_option mc_state (hm_get (rx_conns rx2) url) \<noteq> Some Resubscribing then rx2
             else replay_frames url sock timeout frames rx2
         | (rx2, WriterDead) \<Rightarrow> rx2)"

text \<open>Mirror the state and project the socket, when no fresh socket can have been opened.\<close>

definition mirror_and_project :: "ws_url \<Rightarrow> ('d, 'cb, 'p) reactor \<Rightarrow> ('d, 'cb, 'p) reactor" where
  "mirror_and_project url rx =
     (let rx1 = write_mirror url rx
      in project_socket_and_wire_bridge url (Option.bind (hm_get (rx_conns rx1) url) socket) rx1)"

definition resubscribe_replay :: "ws_url \<Rightarrow> ('d, 'cb, 'p) reactor \<Rightarrow> ('d, 'cb, 'p) reactor" where
  "resubscribe_replay url rx =
     (let frames = compose_subscribe_frames_for_url url (rx_registry rx);
          rx1 = (case hm_get (rx_sockets rx) url of
                   None \<Rightarrow> rx
                 | Some sock \<Rightarrow> replay_frames url sock (subscribe_ack_timeout rx) frames rx)
      in mirror_and_project url (on_conn url complete_resubscribe_if_empty rx1))"

definition upgrade_arrived :: "ws_url \<Rightarrow> nat \<Rightarrow> ('d, 'cb, 'p) reactor \<Rightarrow> ('d, 'cb, 'p) reactor" where
  "upgrade_arrived url cid rx =
     (let rx1 = write_mirror url (on_conn url (handle_event (WireUpgradeOk (Some (word_of_nat cid)))) rx);
          rx2 = (case hm_get (rx_conns rx1) url of
                   Some m \<Rightarrow> if mc_state m = Resubscribing \<and> has_been_open m then resubscribe_replay url rx1 else rx1
                 | None \<Rightarrow> rx1)
      in if map_option mc_state (hm_get (rx_conns rx2) url) = Some Authenticating
         then write_mirror url (send_first_signed_subscribe url rx2) else rx2)"

fun upgrade_arm :: "upgrade_outcome \<Rightarrow> ('d, 'cb, 'p) reactor \<Rightarrow> ('d, 'cb, 'p) reactor" where
  "upgrade_arm (UpgradeOk url cid) rx =
     (if \<not> upgrade_ok_is_live url cid rx \<or> hm_get (rx_conns rx) url = None then rx else upgrade_arrived url cid rx)"
| "upgrade_arm (UpgradeFailed url kind transient) rx =
     (if hm_get (rx_conns rx) url = None then rx
      else (let rx1 = write_mirror url (on_conn url (handle_event (upgrade_failure_event kind transient)) rx)
            in if Option.bind (hm_get (rx_conns rx1) url) socket = None
               then rx1\<lparr>rx_sockets := hm_remove url (rx_sockets rx1), rx_upgrade_guards := hm_remove url (rx_upgrade_guards rx1)\<rparr>
               else rx1))"

section \<open>Token refreshes\<close>

definition rearm_token_refresh :: "('d, 'cb, 'p) reactor \<Rightarrow> ('d, 'cb, 'p) reactor" where
  "rearm_token_refresh rx =
     (case tm_cached (rx_tokens rx) of
        Some t \<Rightarrow> on_conn Auth (arm_token_refresh (refresh_due_at t)) rx
      | None \<Rightarrow> on_conn Auth disarm_token_refresh rx)"

definition drainable :: "('d, 'cb, 'p) reactor \<Rightarrow> bool" where
  "drainable rx \<longleftrightarrow> map_option mc_state (hm_get (rx_conns rx) Auth) \<in> {Some Open, Some Resubscribing}"

fun reissue_deferred :: "(channel_name \<times> string option \<times> subscribe_params) list \<Rightarrow> ('d, 'cb, 'p) reactor \<Rightarrow> ('d, 'cb, 'p) reactor" where
  "reissue_deferred [] rx = rx"
| "reissue_deferred ((channel, pair, params) # deferred) rx =
     (if params_for (rx_registry rx) channel pair = None \<or> is_terminated (rx_registry rx) channel pair \<or>
         (case hm_get (rx_conns rx) Auth of None \<Rightarrow> False | Some m \<Rightarrow> is_subscribe_ack_armed (channel, pair) m)
      then reissue_deferred deferred rx
      else (let rx1 = send_single_signed_subscribe Auth (channel, pair) params rx
            in if drainable rx1 then reissue_deferred deferred rx1 else rx1))"

definition drain_deferred :: "('d, 'cb, 'p) reactor \<Rightarrow> ('d, 'cb, 'p) reactor" where
  "drain_deferred rx =
     (case hm_get (rx_conns rx) Auth of
        None \<Rightarrow> rx
      | Some m \<Rightarrow>
          write_mirror Auth (reissue_deferred (deferred_open_auth_subscribes m)
            (on_conn Auth (fst \<circ> drain_deferred_open_auth_subscribes) rx)))"

definition refresh_event :: "u64 \<Rightarrow> auth_error + ws_token \<Rightarrow> fsm_event" where
  "refresh_event request_id result =
     (case result of Inr _ \<Rightarrow> BusTokenRefreshed request_id | Inl e \<Rightarrow> BusTokenRefreshFailed request_id e)"

definition deliver_refresh :: "u64 \<Rightarrow> auth_error + ws_token \<Rightarrow> ('d, 'cb, 'p) reactor \<Rightarrow> ('d, 'cb, 'p) reactor" where
  "deliver_refresh request_id result rx =
     (let rx1 = write_mirror Auth (on_conn Auth (handle_event (refresh_event request_id result)) rx)
      in case hm_get (rx_conns rx1) Auth of
           Some m \<Rightarrow>
             if \<not> isl result \<and> authenticating_nothing_in_flight m
             then write_mirror Auth (send_first_signed_subscribe Auth rx1) else rx1
         | None \<Rightarrow> rx1)"

definition project_socket :: "ws_url \<Rightarrow> ('d, 'cb, 'p) reactor \<Rightarrow> ('d, 'cb, 'p) reactor" where
  "project_socket url rx =
     (case Option.bind (hm_get (rx_conns rx) url) socket of
        Some s \<Rightarrow> rx\<lparr>rx_sockets := hm_insert url s (rx_sockets rx)\<rparr>
      | None \<Rightarrow> rx\<lparr>rx_sockets := hm_remove url (rx_sockets rx), rx_upgrade_guards := hm_remove url (rx_upgrade_guards rx)\<rparr>)"

definition refresh_arm :: "u64 \<Rightarrow> auth_error + ws_token \<Rightarrow> ('d, 'cb, 'p) reactor \<Rightarrow> ('d, 'cb, 'p) reactor" where
  "refresh_arm request_id result rx =
     (if hm_get (rx_conns rx) Auth = None then rx
      else (let rx1 = (if request_id \<noteq> 0 \<or> drainable rx then deliver_refresh request_id result rx else rx);
                awaiting = (case hm_get (rx_conns rx1) Auth of Some m \<Rightarrow> awaiting_token_refresh m | None \<Rightarrow> False);
                rx2 = (if \<not> isl result \<and> drainable rx1 \<and> \<not> awaiting then drain_deferred rx1 else rx1);
                rx3 = refresh_send_ready Auth rx2;
                rx4 = (if \<not> isl result \<or> tm_cached (rx_tokens rx3) = None then rearm_token_refresh rx3 else rx3)
            in project_socket Auth rx4))"

section \<open>Timers\<close>

definition token_refresh_tick :: "ws_url \<Rightarrow> ('d, 'cb, 'p) reactor \<Rightarrow> ('d, 'cb, 'p) reactor" where
  "token_refresh_tick url rx =
     (case hm_get (rx_conns rx) url of
        None \<Rightarrow> rx
      | Some m \<Rightarrow>
          if mc_state m \<in> {Closed, Failed} then rx
          else on_conn url (\<lambda>m. arm_token_refresh (now_of m + WS_TOKEN_REFRESH_AT) (tick m))
                 (rx\<lparr>rx_tokens := proactive_refresh (rx_tokens rx)\<rparr>))"

text \<open>Three timers are handled by the reactor itself, the others go to the state machine; the timer is popped first. A \<open>continue\<close>
  skips the check for the end of a client close, which the flag records.\<close>

definition timer_arm :: "ws_url \<Rightarrow> fsm_event \<Rightarrow> ('d, 'cb, 'p) reactor \<Rightarrow> ('d, 'cb, 'p) reactor \<times> bool" where
  "timer_arm url ev rx =
     (case hm_get (rx_conns rx) url of
        None \<Rightarrow> (rx, True)
      | Some _ \<Rightarrow>
          (let rx1 = on_conn url (pop_timer_for_event ev) rx
           in case ev of
                TimerSubscribeResendDue channel pair \<Rightarrow>
                  (mirror_and_project url (handle_subscribe_resend url (channel, pair) rx1), False)
              | TimerBookReseedSnapshot _ pair \<Rightarrow> (mirror_and_project url (handle_book_reseed_timeout url pair rx1), False)
              | TimerTokenRefreshDue \<Rightarrow> (token_refresh_tick url rx1, False)
              | _ \<Rightarrow> (drive_conn url ev rx1, True)))"

section \<open>The loop\<close>

datatype ('d, 'cb) rx_input =
    GotCaller "('d, 'cb) caller_inbound"
  | CallersGone
  | GotUpgrade upgrade_outcome
  | GotRefresh u64 "auth_error + ws_token"
  | GotFrame ws_url frame_result
  | GotTimer
  | TokenTask token_op
  | BusGone

definition client_close_marker :: "u64 \<Rightarrow> instant \<Rightarrow> ('d, 'cb, 'p) reactor \<Rightarrow> ('d, 'cb, 'p) reactor" where
  "client_close_marker request_id initiated_at rx =
     fold (\<lambda>url rx. handle_inbound (InFsmEvent url (CallerClose (rx_connect_id_allocator rx)))
         (rx\<lparr>rx_connect_id_allocator := rx_connect_id_allocator rx + 1\<rparr>)) [Public, Auth]
       (rx\<lparr>rx_pending_client_close := Some (request_id, initiated_at)\<rparr>)"

definition caller_arm :: "('d, 'cb) caller_inbound \<Rightarrow> ('d, 'cb, 'p) reactor \<Rightarrow> ('d, 'cb, 'p) reactor" where
  "caller_arm msg rx =
     (case msg of
        InClientClose request_id initiated_at \<Rightarrow> client_close_marker request_id initiated_at rx
      | _ \<Rightarrow> handle_inbound msg rx)"

text \<open>The end of a client close: the waiter is resolved directly, the broadcast carries no request id.\<close>

definition finish_client_close :: "('d, 'cb, 'p) reactor \<Rightarrow> ('d, 'cb, 'p) reactor" where
  "finish_client_close rx =
     (case rx_pending_client_close rx of
        None \<Rightarrow> rx
      | Some (request_id, initiated_at) \<Rightarrow>
          if list_all (\<lambda>(_, m). mc_state m = Closed) (rx_conns rx)
          then (let rx1 = (if rx_bus rx
                           then rx_act (RxPublished 1 (rx_now rx) (ClientClosedEvent initiated_at))
                                  (rx_act (RxDelivered request_id (rx_now rx) (ClientClosedEvent initiated_at)) (rx_tick rx))
                           else rx)
                in rx1\<lparr>rx_exited := True\<rparr>)
          else rx)"

definition sync_liveness :: "('d, 'cb, 'p) reactor \<Rightarrow> ('d, 'cb, 'p) reactor" where
  "sync_liveness rx =
     (if liveness_epoch (rx_registry rx) \<noteq> rx_last_liveness_epoch rx
      then refresh_auth_send_ready_hint (rx\<lparr>rx_last_liveness_epoch := liveness_epoch (rx_registry rx)\<rparr>)
      else rx)"

definition select_arm :: "('h, 'd::linorder, 'cb, 'p) rx_env \<Rightarrow> ('d, 'cb) rx_input \<Rightarrow> ('d, 'cb, 'p) reactor \<Rightarrow>
    ('d, 'cb, 'p) reactor \<times> bool" where
  "select_arm env input rx =
     (case input of
        GotCaller msg \<Rightarrow> (caller_arm msg rx, True)
      | CallersGone \<Rightarrow> (rx\<lparr>rx_exited := True\<rparr>, False)
      | GotUpgrade outcome \<Rightarrow> (upgrade_arm outcome rx, True)
      | GotRefresh request_id result \<Rightarrow> (refresh_arm request_id result rx, True)
      | GotFrame url frame \<Rightarrow> (handle_frame env url frame rx, True)
      | GotTimer \<Rightarrow> (case earliest_timer (rx_conns rx) of None \<Rightarrow> (rx, False) | Some (url, _, ev) \<Rightarrow> timer_arm url ev rx)
      | _ \<Rightarrow> (rx, False))"

definition rx_step :: "('h, 'd::linorder, 'cb, 'p) rx_env \<Rightarrow> (rest_error \<Rightarrow> string) \<Rightarrow> ('d, 'cb) rx_input \<Rightarrow>
    ('d, 'cb, 'p) reactor \<Rightarrow> ('d, 'cb, 'p) reactor" where
  "rx_step env sh input rx =
     (if rx_exited rx then rx
      else case input of
             TokenTask op \<Rightarrow> rx\<lparr>rx_tokens := token_step sh op (rx_tokens rx)\<rparr>
           | BusGone \<Rightarrow> rx\<lparr>rx_bus := False\<rparr>
           | _ \<Rightarrow>
               if \<not> rx_bus rx then rx\<lparr>rx_exited := True\<rparr>
               else (case select_arm env input (sync_liveness rx) of
                       (rx1, checked) \<Rightarrow> if checked then finish_client_close rx1 else rx1))"

definition rx_run :: "('h, 'd::linorder, 'cb, 'p) rx_env \<Rightarrow> (rest_error \<Rightarrow> string) \<Rightarrow> ('d, 'cb) rx_input list \<Rightarrow>
    ('d, 'cb, 'p) reactor \<Rightarrow> ('d, 'cb, 'p) reactor" where
  "rx_run env sh inputs rx = fold (rx_step env sh) inputs rx"

text \<open>The first thing the task does: the waiter of \<open>ready()\<close> is resolved directly, the broadcast follows.\<close>

definition announce_ready :: "u64 \<Rightarrow> ('d, 'cb, 'p) reactor \<Rightarrow> ('d, 'cb, 'p) reactor" where
  "announce_ready request_id rx =
     (if rx_bus rx
      then rx_act (RxPublished 1 (rx_now rx) ClientReadyEvent) (rx_act (RxDelivered request_id (rx_now rx) ClientReadyEvent) (rx_tick rx))
      else rx)"

definition reactor_init :: "(ws_url \<times> managed_connection) list \<Rightarrow> 'd subscription_registry \<Rightarrow> token_manager \<Rightarrow> knobs \<Rightarrow>
    (nat \<Rightarrow> instant) \<Rightarrow> (nat \<Rightarrow> send_frame_error option) \<Rightarrow> u64 \<Rightarrow> instant \<Rightarrow> ('d, 'cb, 'p) reactor" where
  "reactor_init conns reg tokens k clock writer next_id pnow =
     \<lparr>rx_conns = conns, rx_registry = reg, rx_handlers = [], rx_presence = [], rx_sockets = [], rx_upgrade_guards = [],
      rx_state_mirrors = map (\<lambda>(url, m). (url, as_u8 (mc_state m))) conns, rx_tokens = set_refresh_tx tokens,
      rx_auth_send_ready = False, rx_auth_has_subscriptions = False, rx_connect_id_allocator = next_id, rx_bus = True,
      rx_knobs = k, rx_clock = clock, rx_reads = 0, rx_process_now = pnow, rx_writer = writer, rx_offers = 0,
      rx_drop_tracker = [], rx_warn_tracker = [], rx_pending_client_close = None,
      rx_last_liveness_epoch = liveness_epoch reg, rx_exited = False, rx_log = []\<rparr>"

end
