(* ===== verification/Reactor_Frame_Rules.thy ===== *)
theory Reactor_Frame_Rules
  imports Reactor Connection_Properties
begin

text \<open>
  What a reactor operation may do to the connections and to the log, proved once for every relation between
  connections that the state machine and the bookkeeping respect, and every class of log entries that contains the
  harmless ones and the books the registry maintains: the locale \<open>conn_frame\<close>. Left out are the steps that do more: forwarding an order request,
  taking the marker of a client close, and ending the loop.
\<close>

section \<open>Bookkeeping on a connection\<close>

text \<open>Everything of a connection but its clock readings, timers, subscribe bookkeeping and the token flag.\<close>

definition core :: "managed_connection \<Rightarrow> _" where
  "core m = ((mc_url m, mc_state m, attempt_count m, auth_handshake_fail_count m, has_been_open m, server_connection_id m,
     socket m, pending_requests m, monitor m, mc_knobs m),
    (mc_clock m, process_now m, jitter_state m, sockets_opened m, rate_budget m, pending_connect_request_id m,
     pending_close_request_id m, pending_reconnect_request_id m, additional_close_request_ids m,
     additional_connect_request_ids m, trace m))"

lemma core_ops [simp]:
  "core (tick m) = core m" "core (m\<lparr>awaiting_token_refresh := b\<rparr>) = core m"
  "core (fst (next_subscribe_req_id m)) = core m" "core (record_subscribe_req_id i k m) = core m"
  "core (arm_subscribe_ack k due m) = core m" "core (disarm_subscribe_ack k m) = core m"
  "core (arm_book_reseed_snapshot k due m) = core m" "core (disarm_book_reseed_snapshot k m) = core m"
  "core (defer_open_auth_subscribe k ps m) = core m" "core (remove_deferred_open_auth_subscribe k m) = core m"
  "core (fst (drain_deferred_open_auth_subscribes m)) = core m"
  "core (arm_token_refresh due m) = core m" "core (disarm_token_refresh m) = core m"
  "core (pop_timer_for_event ev m) = core m"
  by (simp_all add: core_def tick_def next_subscribe_req_id_def record_subscribe_req_id_def arm_subscribe_ack_def
      disarm_subscribe_ack_def drop_entry_timers_def forget_subscribe_req_id_for_key_def arm_book_reseed_snapshot_def
      disarm_book_reseed_snapshot_def defer_open_auth_subscribe_def remove_deferred_open_auth_subscribe_def
      drain_deferred_open_auth_subscribes_def arm_token_refresh_def disarm_token_refresh_def pop_timer_for_event_def
      set_timers_def Let_def split: option.split)

section \<open>The frame\<close>

fun forwards :: "send_site \<Rightarrow> bool" where
  "forwards (Requesting i) \<longleftrightarrow> True"
| "forwards site \<longleftrightarrow> False"

fun harmless :: "('d, 'p) rx_effect \<Rightarrow> bool" where
  "harmless (Completed i e) \<longleftrightarrow> False"
| "harmless (Offered url s site f r) \<longleftrightarrow> \<not> forwards site"
| "harmless (RxDelivered i t ev) \<longleftrightarrow> False"
| "harmless e \<longleftrightarrow> True"

text \<open>The maintained book a delivery carries.\<close>

fun typed_update :: "('d, 'p) rx_effect \<Rightarrow> 'd order_book_update option" where
  "typed_update (DataPublished ch i (TypedBook u)) = Some u"
| "typed_update e = None"

definition keeps :: "(managed_connection \<Rightarrow> managed_connection \<Rightarrow> bool) \<Rightarrow> (token_manager \<Rightarrow> token_manager \<Rightarrow> bool) \<Rightarrow> (('d, 'p) rx_effect \<Rightarrow> bool) \<Rightarrow>
    ('d, 'cb, 'p) reactor \<Rightarrow> ('d, 'cb, 'p) reactor \<Rightarrow> bool" where
  "keeps R T P rx rx' \<longleftrightarrow>
     (\<forall>url. rel_option R (hm_get (rx_conns rx) url) (hm_get (rx_conns rx') url)) \<and> T (rx_tokens rx) (rx_tokens rx') \<and>
     (\<exists>t. rx_log rx' = rx_log rx @ t \<and> list_all P t) \<and>
     rx_pending_client_close rx' = rx_pending_client_close rx \<and> rx_exited rx' = rx_exited rx \<and> rx_bus rx' = rx_bus rx"

lemma keeps_fields [simp]:
  "keeps R T P rx (x\<lparr>rx_registry := a1\<rparr>) = keeps R T P rx x" "keeps R T P rx (x\<lparr>rx_handlers := a2\<rparr>) = keeps R T P rx x"
  "keeps R T P rx (x\<lparr>rx_presence := a3\<rparr>) = keeps R T P rx x" "keeps R T P rx (x\<lparr>rx_sockets := a4\<rparr>) = keeps R T P rx x"
  "keeps R T P rx (x\<lparr>rx_upgrade_guards := a4\<rparr>) = keeps R T P rx x" "keeps R T P rx (x\<lparr>rx_state_mirrors := a5\<rparr>) = keeps R T P rx x"
  "keeps R T P rx (x\<lparr>rx_auth_send_ready := b\<rparr>) = keeps R T P rx x"
  "keeps R T P rx (x\<lparr>rx_auth_has_subscriptions := b\<rparr>) = keeps R T P rx x"
  "keeps R T P rx (x\<lparr>rx_connect_id_allocator := a7\<rparr>) = keeps R T P rx x"
  "keeps R T P rx (x\<lparr>rx_reads := n\<rparr>) = keeps R T P rx x" "keeps R T P rx (x\<lparr>rx_offers := n\<rparr>) = keeps R T P rx x"
  "keeps R T P rx (x\<lparr>rx_drop_tracker := a8\<rparr>) = keeps R T P rx x" "keeps R T P rx (x\<lparr>rx_warn_tracker := a9\<rparr>) = keeps R T P rx x"
  "keeps R T P rx (x\<lparr>rx_last_liveness_epoch := n\<rparr>) = keeps R T P rx x"
  by (simp_all add: keeps_def)

lemma hm_get_on_conn [simp]:
  "hm_get (rx_conns (on_conn url f rx)) u = (if u = url then map_option f (hm_get (rx_conns rx) u) else hm_get (rx_conns rx) u)"
  by (simp add: on_conn_def hm_simps split: option.split)

lemma on_conn_fields [simp]:
  "rx_registry (on_conn url f rx) = rx_registry rx" "rx_handlers (on_conn url f rx) = rx_handlers rx"
  "rx_presence (on_conn url f rx) = rx_presence rx" "rx_sockets (on_conn url f rx) = rx_sockets rx"
  "rx_upgrade_guards (on_conn url f rx) = rx_upgrade_guards rx" "rx_state_mirrors (on_conn url f rx) = rx_state_mirrors rx"
  "rx_tokens (on_conn url f rx) = rx_tokens rx" "rx_bus (on_conn url f rx) = rx_bus rx" "rx_knobs (on_conn url f rx) = rx_knobs rx"
  "rx_clock (on_conn url f rx) = rx_clock rx" "rx_reads (on_conn url f rx) = rx_reads rx"
  "rx_writer (on_conn url f rx) = rx_writer rx" "rx_offers (on_conn url f rx) = rx_offers rx"
  "rx_drop_tracker (on_conn url f rx) = rx_drop_tracker rx" "rx_warn_tracker (on_conn url f rx) = rx_warn_tracker rx"
  "rx_exited (on_conn url f rx) = rx_exited rx" "rx_log (on_conn url f rx) = rx_log rx"
  "rx_pending_client_close (on_conn url f rx) = rx_pending_client_close rx"
  by (simp_all add: on_conn_def split: option.split)

text \<open>The inputs that do more: an order request, the marker of a client close, the end of the callers.\<close>

fun forwarding :: "('d, 'cb) rx_input \<Rightarrow> bool" where
  "forwarding (GotCaller (InWsRequestFrame i mth op ps)) \<longleftrightarrow> True"
| "forwarding (GotCaller (InClientClose i t)) \<longleftrightarrow> True"
| "forwarding CallersGone \<longleftrightarrow> True"
| "forwarding inp \<longleftrightarrow> False"

locale conn_frame =
  fixes R :: "managed_connection \<Rightarrow> managed_connection \<Rightarrow> bool"
    and T :: "token_manager \<Rightarrow> token_manager \<Rightarrow> bool"
    and P :: "('d::linorder, 'p) rx_effect \<Rightarrow> bool"
    and env :: "('h, 'd, 'cb, 'p) rx_env"
  assumes same: "R m m"
    and trans: "R m m1 \<Longrightarrow> R m1 m2 \<Longrightarrow> R m m2"
    and event: "R m (handle_event ev m)"
    and failure: "R m (handle_subscribe_failure ch p True None m)"
    and complete: "R m (complete_resubscribe_if_empty m)"
    and inbound: "R m (note_inbound_activity m)"
    and kept: "core m' = core m \<Longrightarrow> R m m'"
    and failed: "R m (fail_pending_request i err m)"
    and drained: "R m (drain_one_retryable i m)"
    and resolved: "R m (resolve_pending_request resp m)"
    and logged: "harmless e \<Longrightarrow> typed_update e = None \<Longrightarrow> P e"
    and maintained: "handle_update (env_hasher env) (env_deser env) (env_dec env) ch symbol snap entry reg = (reg', Maintained u) \<Longrightarrow>
      P (DataPublished c h (TypedBook u))"
    and token_same: "T tm tm"
    and token_trans: "T tm tm1 \<Longrightarrow> T tm1 tm2 \<Longrightarrow> T tm tm2"
    and token_ops: "T tm (fst (reactive_refresh r tm))" "T tm (proactive_refresh tm)" "T tm (invalidate_cached_token tm)"
begin

abbreviation K where "K \<equiv> keeps R T P"

lemma refl: "K rx rx"
  using same token_same by (auto simp: keeps_def option.rel_refl)

lemma via:
  assumes "K rx x" and "K x y"
  shows "K rx y"
proof -
  have "rel_option R (hm_get (rx_conns rx) url) (hm_get (rx_conns y) url)" for url
    using assms trans by (auto simp: keeps_def elim!: option.rel_cases allE [of _ url])
  moreover obtain t u where "rx_log x = rx_log rx @ t" "list_all P t" "rx_log y = rx_log x @ u" "list_all P u"
    using assms by (auto simp: keeps_def)
  moreover have "T (rx_tokens rx) (rx_tokens y)"
    using assms by (auto simp: keeps_def intro: token_trans)
  moreover have "rx_pending_client_close y = rx_pending_client_close rx" "rx_exited y = rx_exited rx" "rx_bus y = rx_bus rx"
    using assms by (simp_all add: keeps_def)
  ultimately show ?thesis by (auto simp: keeps_def)
qed

lemma conn:
  assumes "K rx x" and "\<And>m. R m (f m)"
  shows "K rx (on_conn url f x)"
proof (rule via [OF assms(1)])
  show "K x (on_conn url f x)" using assms(2) same token_same by (auto simp: keeps_def option.rel_refl rel_option_iff split: option.split)
qed

lemma entered: "K rx x \<Longrightarrow> P e \<Longrightarrow> K rx (rx_act e x)"
  by (auto simp: keeps_def rx_act_def)

lemma act: "K rx x \<Longrightarrow> harmless e \<Longrightarrow> typed_update e = None \<Longrightarrow> K rx (rx_act e x)"
  by (simp add: entered logged)

lemmas conn_rules = same event failure complete inbound failed drained resolved

lemma comp: "(\<And>m. R m (g m)) \<Longrightarrow> (\<And>m. R m (f m)) \<Longrightarrow> R m ((f \<circ> g) m)"
  by (auto intro: trans)

lemma foldI: "(\<And>x r. K rx r \<Longrightarrow> K rx (f x r)) \<Longrightarrow> K rx y \<Longrightarrow> K rx (fold f xs y)"
  by (induction xs arbitrary: y) auto

lemma tick: "K rx x \<Longrightarrow> K rx (rx_tick x)"
  by (simp add: rx_tick_def)

lemma publish: "K rx x \<Longrightarrow> K rx (rx_publish v ev x)"
  by (simp add: rx_publish_def act tick)

lemma tokens: "K rx x \<Longrightarrow> T (rx_tokens x) tm \<Longrightarrow> K rx (x\<lparr>rx_tokens := tm\<rparr>)"
  by (auto simp: keeps_def intro: token_trans)

lemma mirror: "K rx x \<Longrightarrow> K rx (write_mirror url x)"
  by (simp add: write_mirror_def mirror_state_def split: option.split)

lemma force_refresh: "K rx x \<Longrightarrow> K rx (rx_force_refresh x)"
  by (simp add: rx_force_refresh_def tokens token_ops)

lemma offered: "K rx x \<Longrightarrow> \<not> forwards site \<Longrightarrow> K rx (fst (offer url s site f x))"
  by (simp add: offer_def Let_def act)

lemma project: "K rx x \<Longrightarrow> K rx (project_socket_and_wire_bridge url prev x)"
  by (simp add: project_socket_and_wire_bridge_def Let_def split: option.split)

lemma unsubscribe: "K rx x \<Longrightarrow> K rx (unsubscribe_and_terminate key params x)"
  by (simp add: unsubscribe_and_terminate_def Let_def publish offered split: option.split)

lemma single_unsubscribe: "K rx x \<Longrightarrow> K rx (send_single_unsubscribe url key params x)"
  by (simp add: send_single_unsubscribe_def offered split: option.split)

lemma bookkeeping: "K rx x \<Longrightarrow> (\<And>m. core (f m) = core m) \<Longrightarrow> K rx (on_conn url f x)"
  by (rule conn) (auto intro: kept)

lemma store_ready: "K rx x \<Longrightarrow> K rx (fst (store_send_ready url x))"
  by (simp add: store_send_ready_def bookkeeping Let_def split: option.split)

lemma refresh_ready: "K rx x \<Longrightarrow> K rx (refresh_send_ready url x)"
  using store_ready [of rx x url]
  by (auto simp: refresh_send_ready_def intro: publish split: prod.split bool.split)

lemma arm_timer: "K rx x \<Longrightarrow> K rx (arm_subscribe_ack_timer_with_req_id url key i x)"
  by (simp add: arm_subscribe_ack_timer_with_req_id_def bookkeeping)

lemma send_subscribe: "K rx x \<Longrightarrow> K rx (fst (send_subscribe_frame url s key f send x))"
  using offered [of rx x "Subscribing send key" url s f]
  by (auto simp: send_subscribe_frame_def drive_writer_closed_abnormal_def event failure intro!: conn
      split: prod.split option.split send_frame_error.split)

lemma take_id: "K rx x \<Longrightarrow> K rx (fst (take_req_id url x))"
  by (simp add: take_req_id_def bookkeeping)

lemma send_arm: "K rx x \<Longrightarrow> K rx (fst (send_and_arm url s key c send x))"
proof -
  assume k: "K rx x"
  obtain i where i: "snd (take_req_id url x) = i" by blast
  have "K rx (fst (send_subscribe_frame url s key (c i) send (fst (take_req_id url x))))"
    by (rule send_subscribe [OF take_id [OF k]])
  then show ?thesis
    by (auto simp: send_and_arm_def split_beta Let_def i split: prod.split send_outcome.split intro: arm_timer)
qed

lemma kick: "K rx x \<Longrightarrow> K rx (kick_refresh_once url x)"
  by (simp add: kick_refresh_once_def force_refresh bookkeeping split: option.split)

lemma token: "K rx x \<Longrightarrow> K rx (fst (token_now url x))"
  by (simp add: token_now_def bookkeeping)

lemmas sends = conn_rules kept comp conn act tick publish mirror force_refresh project unsubscribe single_unsubscribe bookkeeping
  store_ready refresh_ready arm_timer send_subscribe take_id send_arm kick token

lemma defer_settled: "R m ((complete_resubscribe_if_empty \<circ> defer_open_auth_subscribe key params) m)"
  by (rule comp) (auto intro: complete kept)

lemma resend: "K rx x \<Longrightarrow> K rx (handle_subscribe_resend url key x)"
  by (auto simp: handle_subscribe_resend_def split_beta Let_def intro!: kick send_arm token conn defer_settled
      split: option.split)

lemma first_signed: "K rx x \<Longrightarrow> K rx (send_first_signed_subscribe url x)"
  using token [of rx x url]
  by (auto simp: send_first_signed_subscribe_def intro!: force_refresh bookkeeping send_arm refresh_ready
      split: option.split prod.split)

lemma all_signed: "K rx x \<Longrightarrow> K rx (send_all_signed url s frames x)"
proof (induction url s frames x rule: send_all_signed.induct)
  case (2 url s ch pair payload frames x)
  obtain y o1 where y: "send_and_arm url s (ch, pair) (\<lambda>i. stamp_req_id (unat i) payload) RemainingSigned x = (y, o1)" by fastforce
  then have "K rx y" using send_arm [OF 2(3), of url s "(ch, pair)"] by (metis fst_conv)
  then show ?case using 2(1,2) [OF y [symmetric]] y by (cases o1) auto
qed simp

lemma remaining: "K rx x \<Longrightarrow> K rx (send_remaining_signed_subscribes url sent x)"
  using token [of rx x url]
  by (auto simp: send_remaining_signed_subscribes_def intro!: kick foldI all_signed bookkeeping split: option.split prod.split)

lemma single: "K rx x \<Longrightarrow> K rx (send_single_subscribe url key params x)"
  by (simp add: send_single_subscribe_def send_arm split: option.split)

lemma single_signed: "K rx x \<Longrightarrow> K rx (send_single_signed_subscribe url key params x)"
  using token [of rx x url]
  by (auto simp: send_single_signed_subscribe_def intro!: kick bookkeeping send_arm split: option.split prod.split)

lemma drive: "K rx x \<Longrightarrow> K rx (drive_conn url ev x)"
  by (auto simp: drive_conn_def intro!: project mirror conn event split: option.split)

lemma connect: "K rx x \<Longrightarrow> K rx (auto_connect url x)"
  by (simp add: auto_connect_def drive)

lemma first_holder: "K rx x \<Longrightarrow> K rx (emit_first_holder url key params x)"
  by (simp add: emit_first_holder_def single single_signed split: option.split ws_url.split)

lemma register_one: "K rx x \<Longrightarrow> K rx (register_one_and_emit url entry ref x)"
  by (simp add: register_one_and_emit_def split_beta Let_def refresh_ready first_holder connect tick)

section \<open>Callers\<close>

lemma released_conn: "R m ((remove_deferred_open_auth_subscribe k \<circ> disarm_book_reseed_snapshot k \<circ> disarm_subscribe_ack k) m)"
  by (rule kept) simp

lemma teardown: "K rx x \<Longrightarrow> K rx (teardown_released_key key params tomb x)"
  by (auto simp: teardown_released_key_def Let_def intro!: conn released_conn unsubscribe)

lemma settle: "K rx x \<Longrightarrow> K rx (settle_resubscribe url x)"
  by (simp add: settle_resubscribe_def mirror conn complete)

lemma deregister: "K rx x \<Longrightarrow> K rx (deregister_one ch pair x)"
  by (simp add: deregister_one_def split_beta Let_def settle teardown)

lemma deregister_all: "K rx x \<Longrightarrow> K rx (deregister_everything ch x)"
  by (auto simp: deregister_everything_def split_beta Let_def intro!: settle foldI teardown)

lemma guard_targets: "K rx x \<Longrightarrow> K rx (fst (drop_guard_targets i wire pairs torn x))"
proof (induction pairs arbitrary: torn x)
  case (Cons pair pairs)
  have "K rx (fst (drop_guard_target i wire pair x))"
    using Cons.prems by (simp add: drop_guard_target_def split_beta Let_def teardown)
  then show ?case using Cons.IH by (simp add: split_beta)
qed simp

lemma guard_drop: "K rx x \<Longrightarrow> K rx (subscription_guard_drop i ch symbols x)"
  by (simp add: subscription_guard_drop_def split_beta Let_def settle guard_targets)

lemma batch_entry: "K rx x \<Longrightarrow> K rx (register_batch_entry url ref entry x)"
  using register_one [of rx x url entry ref] by (simp add: register_batch_entry_def Let_def split: option.split)

lemma mutation: "K rx x \<Longrightarrow> K rx (registry_mutation url op x)"
  by (cases op) (auto intro!: foldI batch_entry deregister deregister_all)

lemma caller: "K rx x \<Longrightarrow> (\<And>i mth op ps. msg \<noteq> InWsRequestFrame i mth op ps) \<Longrightarrow> K rx (handle_inbound msg x)"
  by (cases msg) (auto simp: split_beta intro!: drive mutation guard_drop conn failed)

lemma hint: "K rx x \<Longrightarrow> K rx (refresh_auth_send_ready_hint x)"
  by (simp add: refresh_auth_send_ready_hint_def refresh_ready)

section \<open>Frames\<close>

lemma warn: "K rx x \<Longrightarrow> K rx (suppress_warn_throttled site ch x)"
  by (auto simp: suppress_warn_throttled_def Let_def intro!: act tick)

lemma drop_report: "K rx x \<Longrightarrow> K rx (record_drop_and_maybe_emit ch x)"
  by (auto simp: record_drop_and_maybe_emit_def emit_message_dropped_def Let_def intro!: act tick split: option.split)

lemma gap_events: "K rx x \<Longrightarrow> K rx (emit_book_gap_events s x)"
  by (auto simp: emit_book_gap_events_def Let_def intro!: act tick)

lemma reseed: "K rx x \<Longrightarrow> K rx (send_book_reseed url s params x)"
  by (simp add: send_book_reseed_def Let_def bookkeeping single single_unsubscribe)

lemma recover: "K rx x \<Longrightarrow> K rx (recover_book_gap url s x)"
  by (simp add: recover_book_gap_def Let_def reseed split: option.split)

lemma reseed_timeout: "K rx x \<Longrightarrow> K rx (handle_book_reseed_timeout url pair x)"
  by (simp add: handle_book_reseed_timeout_def reseed gap_events split: option.split prod.split reseed_timeout_outcome.split)

lemma to_handlers: "K rx x \<Longrightarrow> (\<And>c i. P (DataPublished c i payload)) \<Longrightarrow> K rx (publish_to_handlers ch payload hs x)"
  by (auto simp: publish_to_handlers_def intro!: foldI entered)

lemma deliver: "K rx x \<Longrightarrow> K rx (decode_and_deliver env ch mt symbol entry h hs x)"
  by (simp add: decode_and_deliver_def to_handlers logged publish warn split: decode_outcome.split option.split)

lemma fan: "K rx x \<Longrightarrow> (\<And>u c i. outcome = Maintained u \<Longrightarrow> P (DataPublished c i (TypedBook u))) \<Longrightarrow>
    K rx (fan_out_to env ch mt symbol entry outcome f x)"
  by (auto simp: fan_out_to_def intro!: drop_report to_handlers deliver
      split: list.split channel_name.split book_drive_outcome.split)

lemma report_gap: "K rx x \<Longrightarrow> K rx (fst (report_book_gap outcome symbol x))"
  by (simp add: report_book_gap_def gap_events warn split: book_drive_outcome.split option.split)

lemma row: "K rx x \<Longrightarrow> K rx (fst (route_row env ch mt entry x))"
  by (auto simp: route_row_def split_beta Let_def intro!: foldI fan report_gap maintained prod_eqI)

lemma rows: "K rx x \<Longrightarrow> K rx (fst (route_rows env ch mt es x))"
  by (induction es arbitrary: x) (simp_all add: split_beta Let_def row)

lemma sequence_gap: "K rx x \<Longrightarrow> K rx (detect_sequence_gap ch mt j x)"
  by (simp add: detect_sequence_gap_def emit_channel_gap_event_def publish split: option.split prod.split)

lemma data_frame: "K rx x \<Longrightarrow> K rx (fst (route_text_frame env j x))"
  by (simp add: route_text_frame_def Let_def rows warn sequence_gap split: option.split)

lemma probe_ack: "K rx x \<Longrightarrow> K rx (probe_acked x)"
  by (simp add: probe_acked_def Let_def conn event complete remaining)

lemma probe: "K rx x \<Longrightarrow> K rx (probe_response i ack x)"
  by (simp add: probe_response_def Let_def store_ready mirror conn drained event probe_ack split: order_ack_auth.split)

lemma token_stale: "K rx x \<Longrightarrow> K rx (open_token_stale i x)"
  by (simp add: open_token_stale_def tokens token_ops Let_def mirror conn drained force_refresh bookkeeping event)

lemma ack_class: "K rx x \<Longrightarrow> K rx (fst (classify_order_ack_warned ok err x))"
  by (simp add: classify_order_ack_warned_def act)

lemma resolve_if: "R m (if pending_requests_contains i m then resolve_pending_request resp m else m)"
  by (simp add: resolved same)

lemma response: "K rx x \<Longrightarrow> K rx (settle_response resp x)"
  by (auto simp: settle_response_def split_beta Let_def intro!: conn resolve_if token_stale probe ack_class split: option.split)

lemma request_response: "K rx x \<Longrightarrow> K rx (fst (handle_request_response url j x))"
  by (simp add: handle_request_response_def Let_def response warn split: option.split)

lemma hand_ack: "K rx x \<Longrightarrow> K rx (handshake_ack url key x)"
proof -
  assume k: "K rx x"
  have "R m ((disarm_subscribe_ack key \<circ> handle_event WireAuthHandshakeOk) m)" for m
    by (rule comp) (simp_all add: event kept)
  then show ?thesis using k by (simp add: handshake_ack_def Let_def conn complete remaining bookkeeping)
qed

lemma hand_rejected: "K rx x \<Longrightarrow> K rx (handshake_rejected url key j x)"
proof -
  assume k: "K rx x"
  have "R m ((disarm_subscribe_ack key \<circ> handle_event ev) m)" for ev m
    by (rule comp) (simp_all add: event kept)
  then show ?thesis using k by (simp add: handshake_rejected_def Let_def conn publish force_refresh split: option.split)
qed

lemma accepted: "K rx x \<Longrightarrow> K rx (ack_accepted url key x)"
proof -
  assume k: "K rx x"
  have "R m (handle_event ev (remove_deferred_open_auth_subscribe key m))" for ev m
    by (rule trans [OF kept event]) simp
  then show ?thesis using k by (simp add: ack_accepted_def Let_def conn)
qed

lemma rejected: "K rx x \<Longrightarrow> K rx (ack_rejected url key j x)"
  by (simp add: ack_rejected_def Let_def conn event bookkeeping)

lemma late_ack: "R m ((complete_resubscribe_if_empty \<circ> remove_deferred_open_auth_subscribe key \<circ> disarm_subscribe_ack key) m)"
proof -
  have "R m ((remove_deferred_open_auth_subscribe key \<circ> disarm_subscribe_ack key) m)" by (rule kept) simp
  then show ?thesis using complete trans unfolding comp_def by blast
qed

lemma sub_ack_settled: "K rx x \<Longrightarrow> K rx (settle_sub_ack url key ok j m x)"
  by (auto simp: settle_sub_ack_def Let_def intro!: refresh_ready mirror hand_ack hand_rejected accepted rejected conn late_ack)

lemma sub_ack: "K rx x \<Longrightarrow> K rx (fst (handle_sub_ack url j x))"
  by (simp add: handle_sub_ack_def Let_def sub_ack_settled warn split: option.split)

lemma wire_close: "K rx x \<Longrightarrow> K rx (drive_wire_close url ev x)"
  by (simp add: drive_wire_close_def Let_def mirror conn event split: option.split)

lemma text_frame: "K rx x \<Longrightarrow> K rx (handle_text env url j x)"
proof -
  assume "K rx x"
  then have 1: "K rx (fst (handle_request_response url j x))" by (rule request_response)
  then have 2: "K rx (fst (handle_sub_ack url j (fst (handle_request_response url j x))))" by (rule sub_ack)
  then have "K rx (fst (route_text_frame env j (fst (handle_sub_ack url j (fst (handle_request_response url j x))))))"
    by (rule data_frame)
  with 1 2 show ?thesis by (auto simp: handle_text_def intro!: foldI recover split: prod.split bool.split)
qed

lemma frame: "K rx x \<Longrightarrow> K rx (handle_frame env url f x)"
  by (cases f) (simp_all add: Let_def conn inbound text_frame wire_close split: option.split)

section \<open>The loop\<close>

lemma replay: "K rx x \<Longrightarrow> K rx (replay_frames url s timeout frames x)"
proof (induction url s timeout frames x rule: replay_frames.induct)
  case (2 url s timeout ch pair payload frames x)
  obtain y i where y: "take_req_id url x = (y, i)" by fastforce
  obtain z o1 where z: "send_subscribe_frame url s (ch, pair) (stamp_req_id (unat i) payload) ResubscribeReplay y = (z, o1)" by fastforce
  have "K rx z" using send_subscribe [OF take_id [OF 2(3)], of url s "(ch, pair)"] y z by (metis fst_conv)
  moreover have "K rx (arm_replayed url (ch, pair) i timeout z)"
    using \<open>K rx z\<close> by (simp add: arm_replayed_def Let_def bookkeeping)
  ultimately show ?case using 2(1,2) [OF y [symmetric] HOL.refl z [symmetric]] y z by (cases o1) auto
qed simp

lemma mirrored_project: "K rx x \<Longrightarrow> K rx (mirror_and_project url x)"
  by (simp add: mirror_and_project_def Let_def project mirror)

lemma resubscribe: "K rx x \<Longrightarrow> K rx (resubscribe_replay url x)"
  by (auto simp: resubscribe_replay_def Let_def intro!: mirrored_project conn complete replay split: option.split)

lemma arrived: "K rx x \<Longrightarrow> K rx (upgrade_arrived url cid x)"
  by (auto simp: upgrade_arrived_def Let_def intro!: mirror first_signed resubscribe conn event split: option.split)

lemma upgrade: "K rx x \<Longrightarrow> K rx (upgrade_arm outcome x)"
  by (cases outcome) (simp_all add: Let_def arrived mirror conn event)

lemma reissue: "K rx x \<Longrightarrow> K rx (reissue_deferred ds x)"
  by (induction ds x rule: reissue_deferred.induct) (auto simp: Let_def single_signed)

lemma drain: "K rx x \<Longrightarrow> K rx (drain_deferred x)"
  by (auto simp: drain_deferred_def intro!: mirror reissue bookkeeping split: option.split)

lemma refresh_delivered: "K rx x \<Longrightarrow> K rx (deliver_refresh i result x)"
  by (auto simp: deliver_refresh_def Let_def intro!: mirror first_signed conn event split: option.split)

lemma rearm: "K rx x \<Longrightarrow> K rx (rearm_token_refresh x)"
  by (simp add: rearm_token_refresh_def bookkeeping split: option.split)

lemma projected: "K rx x \<Longrightarrow> K rx (project_socket url x)"
  by (simp add: project_socket_def split: option.split)

lemma refresh_outcome: "K rx x \<Longrightarrow> K rx (refresh_arm i result x)"
  by (auto simp: refresh_arm_def Let_def intro!: projected rearm refresh_ready drain refresh_delivered)

lemma token_tick: "K rx x \<Longrightarrow> K rx (token_refresh_tick url x)"
  by (simp add: token_refresh_tick_def bookkeeping tokens token_ops split: option.split)

lemma timer: "K rx x \<Longrightarrow> K rx (fst (timer_arm url ev x))"
  by (auto simp: timer_arm_def Let_def intro!: mirrored_project resend reseed_timeout token_tick drive bookkeeping
      split: option.split fsm_event.split)

lemma close_marker: "K (rx\<lparr>rx_pending_client_close := Some (i, t)\<rparr>) (client_close_marker i t rx)"
  by (simp add: client_close_marker_def drive refl)

lemma sync: "K rx x \<Longrightarrow> K rx (sync_liveness x)"
  by (simp add: sync_liveness_def hint)

lemma select: "K rx x \<Longrightarrow> \<not> forwarding inp \<Longrightarrow> K rx (fst (select_arm env inp x))"
proof (cases inp)
  case (GotCaller msg)
  assume "K rx x" "\<not> forwarding inp"
  then show ?thesis using GotCaller by (cases msg) (simp_all add: select_arm_def caller_arm_def caller close_marker del: handle_inbound.simps)
qed (simp_all add: select_arm_def upgrade refresh_outcome frame timer split: option.split)

end

end
