(* ===== verification/Reactor_Orders.thy ===== *)
theory Reactor_Orders
  imports Reactor_Frame_Rules Token_Properties
begin

text \<open>
  Order requests over whole runs of the reactor: every request is answered exactly once or still in flight, a request is
  offered to the socket at most once and never after it was refused, and every order frame carries a token.
\<close>

section \<open>Accounts\<close>

fun answers :: "u64 \<Rightarrow> ('d, 'p) rx_effect \<Rightarrow> bool" where
  "answers i (Completed j e) \<longleftrightarrow> i = j"
| "answers i e \<longleftrightarrow> False"

fun offers_request :: "u64 \<Rightarrow> ('d, 'p) rx_effect \<Rightarrow> bool" where
  "offers_request i (Offered url s (Requesting j) f r) \<longleftrightarrow> i = j"
| "offers_request i e \<longleftrightarrow> False"

definition completions :: "u64 \<Rightarrow> ('d, 'p) rx_effect list \<Rightarrow> nat" where
  "completions i t = length (filter (answers i) t)"

definition request_offers :: "u64 \<Rightarrow> ('d, 'p) rx_effect list \<Rightarrow> nat" where
  "request_offers i t = length (filter (offers_request i) t)"

fun tokened :: "('d, 'p) rx_effect \<Rightarrow> bool" where
  "tokened (Offered url s (Requesting j) f r) \<longleftrightarrow>
     url = Auth \<and> (\<exists>t. t \<noteq> [] \<and> Option.bind (json_get f ''params'') (\<lambda>ps. json_get ps ''token'') = Some (JStr t))"
| "tokened e \<longleftrightarrow> True"

lemma accounts_append [simp]:
  "completions i (s @ t) = completions i s + completions i t" "request_offers i (s @ t) = request_offers i s + request_offers i t"
  by (simp_all add: completions_def request_offers_def)

lemma harmless_accounts:
  "list_all harmless t \<Longrightarrow> completions i t = 0" "list_all harmless t \<Longrightarrow> request_offers i t = 0" "list_all harmless t \<Longrightarrow> list_all tokened t"
proof -
  have "harmless e \<Longrightarrow> \<not> answers i e \<and> \<not> offers_request i e \<and> tokened e" for e :: "('d, 'p) rx_effect"
  proof (cases e)
    case (Offered url s site f r)
    then show "harmless e \<Longrightarrow> ?thesis" by (cases site) simp_all
  qed simp_all
  then show "list_all harmless t \<Longrightarrow> completions i t = 0" "list_all harmless t \<Longrightarrow> request_offers i t = 0"
    "list_all harmless t \<Longrightarrow> list_all tokened t"
    by (auto simp: completions_def request_offers_def list_all_iff filter_empty_conv)
qed

definition conn_ledger :: "u64 \<Rightarrow> ('d, 'cb, 'p) reactor \<Rightarrow> nat" where
  "conn_ledger i rx =
     (case hm_get (rx_conns rx) Auth of
        None \<Rightarrow> 0
      | Some m \<Rightarrow> resolutions i (trace m) + (if pending_requests_contains i m then 1 else 0))"

lemma conn_ledger_acct: "hm_get (rx_conns rx) Auth = Some m \<Longrightarrow> conn_ledger i rx = ledger i (acct m)"
  by (simp add: conn_ledger_def ledger_acct pending_requests_contains_def)

section \<open>Everything but forwarding\<close>

definition order_kept :: "managed_connection \<Rightarrow> managed_connection \<Rightarrow> bool" where
  "order_kept m m' \<longleftrightarrow> (pend_ok (pending_requests m) \<longrightarrow> settles m m')"

definition tokens_kept :: "token_manager \<Rightarrow> token_manager \<Rightarrow> bool" where
  "tokens_kept tm tm' \<longleftrightarrow> (token_inv tm \<longrightarrow> token_inv tm')"

lemma core_acct: "core m' = core m \<Longrightarrow> acct m' = acct m"
  by (simp add: core_def acct_def)

lemma settles_trans: "settles m m1 \<Longrightarrow> settles m1 m2 \<Longrightarrow> settles m m2"
  by (simp add: settles_def)

interpretation ord: conn_frame order_kept tokens_kept harmless env for env
proof
  show "order_kept m m" for m by (simp add: order_kept_def settles_same)
  show "order_kept m m1 \<Longrightarrow> order_kept m1 m2 \<Longrightarrow> order_kept m m2" for m m1 m2
    by (simp add: order_kept_def settles_def)
  show "order_kept m (handle_event ev m)" for m ev
    unfolding order_kept_def using settles_event by blast
  show "order_kept m (handle_subscribe_failure ch p True None m)" for m ch p
    unfolding order_kept_def by (rule impI) (rule settles_drained [OF _ acct_subscribe_failure])
  show "order_kept m (complete_resubscribe_if_empty m)" for m
    by (simp add: order_kept_def settles_same complete_resubscribe_if_empty_def)
  show "order_kept m (note_inbound_activity m)" for m by (simp add: order_kept_def settles_same)
  show "core m' = core m \<Longrightarrow> order_kept m m'" for m m'
    unfolding order_kept_def using settles_same core_acct by blast
  show "order_kept m (fail_pending_request i err m)" for m i err
    using settles_step [of m "OpFail i err"] by (simp add: order_kept_def)
  show "order_kept m (drain_one_retryable i m)" for m i using settles_step [of m "OpDrainOne i"] by (simp add: order_kept_def)
  show "order_kept m (resolve_pending_request r m)" for m r using settles_step [of m "OpResponse r"] by (simp add: order_kept_def)
  show "tokens_kept tm (fst (reactive_refresh r tm))" for tm r
    using token_step_inv [of tm _ "TokReactive r"] by (simp add: tokens_kept_def)
  show "tokens_kept tm (proactive_refresh tm)" for tm using token_step_inv [of tm _ TokProactive] by (simp add: tokens_kept_def)
  show "tokens_kept tm (invalidate_cached_token tm)" for tm
    using token_step_inv [of tm _ TokInvalidate] by (simp add: tokens_kept_def)
qed (simp_all add: tokens_kept_def)

section \<open>The invariant\<close>

definition orders_inv :: "u64 list \<Rightarrow> ('d, 'cb, 'p) reactor \<Rightarrow> bool" where
  "orders_inv ids rx \<longleftrightarrow>
     (\<forall>m. hm_get (rx_conns rx) Auth = Some m \<longrightarrow> pend_ok (pending_requests m)) \<and>
     (\<forall>i. completions i (rx_log rx) + conn_ledger i rx = count_list ids i) \<and>
     (\<forall>i. completions i (rx_log rx) + request_offers i (rx_log rx) \<le> count_list ids i) \<and>
     token_inv (rx_tokens rx) \<and> list_all tokened (rx_log rx)"

lemma orders_inv_flags [simp]:
  "orders_inv ids (rx\<lparr>rx_pending_client_close := c\<rparr>) = orders_inv ids rx" "orders_inv ids (rx\<lparr>rx_exited := b\<rparr>) = orders_inv ids rx"
  by (simp_all add: orders_inv_def conn_ledger_def)

lemma keeps_orders:
  assumes k: "keeps order_kept tokens_kept harmless rx rx'" and inv: "orders_inv ids rx"
  shows "orders_inv ids rx'"
proof -
  obtain t where t: "rx_log rx' = rx_log rx @ t" "list_all harmless t" using k by (auto simp: keeps_def)
  have rel: "rel_option order_kept (hm_get (rx_conns rx) Auth) (hm_get (rx_conns rx') Auth)" using k by (simp add: keeps_def)
  have S: "settles m m'" if "hm_get (rx_conns rx) Auth = Some m" "hm_get (rx_conns rx') Auth = Some m'" for m m'
    using rel that inv by (simp add: orders_inv_def order_kept_def)
  have "conn_ledger i rx' = conn_ledger i rx" for i
  proof (cases "hm_get (rx_conns rx) Auth")
    case None
    then show ?thesis using rel by (simp add: conn_ledger_def)
  next
    case (Some m)
    then obtain m' where "hm_get (rx_conns rx') Auth = Some m'" using rel by (auto elim: option.rel_cases)
    with S [OF Some this] Some show ?thesis by (simp add: conn_ledger_acct settles_def)
  qed
  moreover have "pend_ok (pending_requests m')" if "hm_get (rx_conns rx') Auth = Some m'" for m'
    using rel S that by (auto simp: settles_def elim: option.rel_cases)
  moreover have "token_inv (rx_tokens rx')" using k inv by (simp add: keeps_def orders_inv_def tokens_kept_def)
  ultimately show ?thesis using inv t harmless_accounts [OF t(2)] by (simp add: orders_inv_def)
qed

lemma finish_orders: "orders_inv ids rx \<Longrightarrow> orders_inv ids (finish_client_close rx)"
  by (auto simp: orders_inv_def finish_client_close_def conn_ledger_def rx_act_def rx_tick_def completions_def request_offers_def
      Let_def split: option.split)

section \<open>Forwarding\<close>

lemma with_token_get: "json_get (with_token t ps) ''token'' = Some (JStr t)"
  by (cases ps) (simp_all add: with_token_def)

lemma valid_token_sound: "token_inv (rx_tokens rx) \<Longrightarrow> valid_token now rx = Some t \<Longrightarrow> t \<noteq> []"
  by (auto simp: valid_token_def token_inv_def split: option.splits if_splits)

lemma account_one [simp]:
  "completions j [Completed i e] = (if j = i then 1 else 0)" "request_offers j [Completed i e] = 0"
  "completions j [Offered url s (Requesting i) f r] = 0"
  "request_offers j [Offered url s (Requesting i) f r] = (if j = i then 1 else 0)"
  by (simp_all add: completions_def request_offers_def)

lemma conn_ledger_act [simp]: "conn_ledger i (rx_act e rx) = conn_ledger i rx" "conn_ledger i (rx\<lparr>rx_offers := n\<rparr>) = conn_ledger i rx"
  by (simp_all add: conn_ledger_def rx_act_def)

lemma act_fields [simp]: "rx_log (rx_act e rx) = rx_log rx @ [e]" "rx_conns (rx_act e rx) = rx_conns rx" "rx_tokens (rx_act e rx) = rx_tokens rx"
  by (simp_all add: rx_act_def)

lemma untouched: "orders_inv ids rx \<Longrightarrow> i \<notin> set ids \<Longrightarrow>
    completions i (rx_log rx) = 0 \<and> request_offers i (rx_log rx) = 0 \<and> conn_ledger i rx = 0"
  by (auto simp: orders_inv_def dest: spec [of _ i] simp flip: count_list_0_iff)

lemma refuse_orders:
  assumes "orders_inv ids rx" and "keeps order_kept tokens_kept harmless rx x" and "i \<notin> set ids"
  shows "orders_inv (ids @ [i]) (rx_act (Completed i e) x)"
proof -
  have "orders_inv ids x" by (rule keeps_orders [OF assms(2,1)])
  then show ?thesis
    by (simp add: orders_inv_def)
qed

lemma record_orders:
  assumes inv: "orders_inv ids rx" and fresh: "p_req_id p \<notin> set ids" and conn: "hm_get (rx_conns rx) Auth = Some m"
  shows "orders_inv (ids @ [p_req_id p]) (on_conn Auth (record_pending_request p) rx)"
proof -
  let ?m = "record_pending_request p m"
  have ok: "pend_ok (pending_requests m)" using inv conn by (simp add: orders_inv_def)
  have "hm_get (pending_requests m) (p_req_id p) = None"
    using untouched [OF inv fresh] conn by (simp add: conn_ledger_def pending_requests_contains_def split: if_splits)
  then have "ledger j (acct ?m) = ledger j (acct m) + (if j = p_req_id p then 1 else 0)" for j
    by (simp add: ledger_acct record_pending_request_def hm_simps)
  then have "conn_ledger j (on_conn Auth (record_pending_request p) rx) = conn_ledger j rx + (if j = p_req_id p then 1 else 0)" for j
    using conn conn_ledger_acct [of "on_conn Auth (record_pending_request p) rx" ?m j] conn_ledger_acct [OF conn, of j] by simp
  moreover have "pend_ok (pending_requests ?m)" using ok by (simp add: record_pending_request_def pend_ok_ops)
  ultimately show ?thesis using inv conn by (auto simp: orders_inv_def trans_le_add1)
qed

lemma offer_orders:
  assumes inv: "orders_inv (ids @ [i]) rx" and fresh: "completions i (rx_log rx) = 0" "request_offers i (rx_log rx) = 0"
    and tok: "tokened (Offered Auth s (Requesting i) f (rx_writer rx (rx_offers rx)))"
  shows "orders_inv (ids @ [i]) (fst (offer Auth s (Requesting i) f rx))"
proof -
  have "completions j (rx_log rx) + (request_offers j (rx_log rx) + (if j = i then 1 else 0)) \<le> count_list (ids @ [i]) j" for j
  proof -
    have "completions j (rx_log rx) + request_offers j (rx_log rx) \<le> count_list (ids @ [i]) j"
      using inv by (simp only: orders_inv_def)
    then show ?thesis using fresh by (cases "j = i") simp_all
  qed
  then show ?thesis using inv tok by (simp add: orders_inv_def offer_def Let_def)
qed

lemma forward_orders:
  fixes rx :: "('d::linorder, 'cb, 'p) reactor"
  assumes inv: "orders_inv ids rx" and fresh: "i \<notin> set ids"
  shows "orders_inv (ids @ [i]) (handle_ws_request_frame i mth op ps rx)"
proof (cases "hm_get (rx_conns rx) Auth")
  case None
  then show ?thesis using refuse_orders [OF inv ord.refl fresh] by (simp add: handle_ws_request_frame_def)
next
  case (Some m)
  let ?rx1 = "on_conn Auth tick rx"
  have k1: "keeps order_kept tokens_kept harmless rx ?rx1" by (rule ord.bookkeeping [OF ord.refl]) simp
  note inv1 = keeps_orders [OF k1 inv]
  show ?thesis
  proof (cases "request_admitted op (rx_registry rx) m")
    case False
    then show ?thesis using Some refuse_orders [OF inv ord.refl fresh] by (simp add: handle_ws_request_frame_def)
  next
    case adm: True
    show ?thesis
    proof (cases "valid_token (now_of m) rx")
      case None
      have "keeps order_kept tokens_kept harmless rx (rx_force_refresh (on_conn Auth (awaiting_token_refresh_update (\<lambda>_. True))
          (?rx1\<lparr>rx_tokens := invalidate_cached_token (rx_tokens ?rx1)\<rparr>)))"
        by (intro ord.force_refresh ord.bookkeeping ord.tokens k1 ord.token_ops) simp
      then show ?thesis
        using refuse_orders [OF inv _ fresh] Some adm None by (simp add: handle_ws_request_frame_def Let_def)
    next
      case tok: (Some t)
      define p where "p = \<lparr>p_req_id = i, p_op = op, p_sent_at = now_of m\<rparr>"
      define f where "f = JObj [(''method'', JStr mth), (''params'', with_token t ps), (''req_id'', JNum (unat i))]"
      let ?rx2 = "on_conn Auth (record_pending_request p) ?rx1"
      have inv2: "orders_inv (ids @ [i]) ?rx2"
        using record_orders [OF inv1, of p "tick m"] fresh Some by (simp add: p_def)
      have failed: "orders_inv (ids @ [i]) (on_conn Auth (fail_pending_request i NotOpen) x)" 
        if "orders_inv (ids @ [i]) x" for x :: "('d, 'cb, 'p) reactor"
        by (rule keeps_orders [OF ord.conn [OF ord.refl ord.failed] that])
      show ?thesis
      proof (cases "hm_get (rx_sockets rx) Auth")
        case None
        then show ?thesis using Some adm tok failed [OF inv2] by (simp add: handle_ws_request_frame_def Let_def p_def)
      next
        case sock: (Some s)
        have "t \<noteq> []" using valid_token_sound [OF _ tok] inv by (simp add: orders_inv_def)
        then have "orders_inv (ids @ [i]) (fst (offer Auth s (Requesting i) f ?rx2))"
          using untouched [OF inv fresh] by (intro offer_orders inv2) (simp_all add: f_def with_token_get)
        then show ?thesis
          using Some adm tok sock failed by (simp add: handle_ws_request_frame_def Let_def p_def f_def split_beta)
      qed
    qed
  qed
qed

section \<open>Runs\<close>

fun request_of :: "('d, 'cb) rx_input \<Rightarrow> u64 list" where
  "request_of (GotCaller (InWsRequestFrame i mth op ps)) = [word_of_nat i]"
| "request_of inp = []"

text \<open>The requests the loop took from its queue.\<close>

fun taken :: "('h, 'd::linorder, 'cb, 'p) rx_env \<Rightarrow> (rest_error \<Rightarrow> string) \<Rightarrow> ('d, 'cb) rx_input list \<Rightarrow> ('d, 'cb, 'p) reactor \<Rightarrow>
    u64 list" where
  "taken env sh [] rx = []"
| "taken env sh (inp # inps) rx = (if rx_exited rx \<or> \<not> rx_bus rx then [] else request_of inp) @ taken env sh inps (rx_step env sh inp rx)"

lemma taken_requests: "set (taken env sh inps rx) \<subseteq> set (concat (map request_of inps))"
  by (induction inps arbitrary: rx) auto

lemma plain_request_of: "\<not> forwarding inp \<Longrightarrow> request_of inp = []"
  by (cases inp rule: request_of.cases) simp_all

lemma loop_orders:
  fixes rx :: "('d::linorder, 'cb, 'p) reactor"
  assumes inv: "orders_inv ids rx" and live: "\<not> rx_exited rx" "rx_bus rx" and fresh: "set (request_of inp) \<inter> set ids = {}"
  shows "orders_inv (ids @ request_of inp) (fst (select_arm env inp (sync_liveness rx)))"
proof -
  have inv1: "orders_inv ids (sync_liveness rx)" by (rule keeps_orders [OF ord.sync [OF ord.refl] inv])
  show ?thesis
  proof (cases "forwarding inp")
    case True
    then show ?thesis
    proof (cases inp rule: forwarding.cases)
      case (1 i mth op ps)
      then show ?thesis using forward_orders [OF inv1, of "word_of_nat i"] fresh by (simp add: select_arm_def caller_arm_def)
    next
      case (2 i t)
      then show ?thesis using keeps_orders [OF ord.close_marker [of i t "sync_liveness rx"]] inv1 by (simp add: select_arm_def caller_arm_def)
    next
      case 3
      then show ?thesis using inv1 by (simp add: select_arm_def)
    qed simp_all
  next
    case False
    then show ?thesis using keeps_orders [OF ord.select [OF ord.refl] inv1] by (simp add: plain_request_of)
  qed
qed

lemma step_orders:
  assumes inv: "orders_inv ids rx" and fresh: "set (request_of inp) \<inter> set ids = {}"
  shows "orders_inv (ids @ (if rx_exited rx \<or> \<not> rx_bus rx then [] else request_of inp)) (rx_step env sh inp rx)"
proof (cases "rx_exited rx")
  case False
  have other: "orders_inv (ids @ (if \<not> rx_bus rx then [] else request_of inp)) (rx_step env sh inp rx)"
    if "\<And>op. inp \<noteq> TokenTask op" "inp \<noteq> BusGone"
  proof (cases "rx_bus rx")
    case True
    then show ?thesis
      using that False loop_orders [OF inv False True fresh, of env] finish_orders
      by (auto simp: rx_step_def split_beta split: rx_input.split prod.split)
  next
    case False
    then show ?thesis
      using that inv \<open>\<not> rx_exited rx\<close> by (cases inp) (auto simp: rx_step_def orders_inv_def conn_ledger_def)
  qed
  show ?thesis
  proof (cases inp)
    case (TokenTask op)
    then show ?thesis using inv False token_step_inv by (auto simp: rx_step_def orders_inv_def conn_ledger_def)
  next
    case BusGone
    then show ?thesis using inv False by (auto simp: rx_step_def orders_inv_def conn_ledger_def)
  qed (use other False in auto)
qed (use inv in \<open>simp add: rx_step_def\<close>)

lemma run_orders:
  assumes "orders_inv ids rx" and "distinct (concat (map request_of inps))" and "set (concat (map request_of inps)) \<inter> set ids = {}"
  shows "orders_inv (ids @ taken env sh inps rx) (rx_run env sh inps rx)"
  using assms
proof (induction inps arbitrary: ids rx)
  case Nil
  then show ?case by (simp add: rx_run_def)
next
  case (Cons inp inps)
  let ?new = "if rx_exited rx \<or> \<not> rx_bus rx then [] else request_of inp"
  have "orders_inv (ids @ ?new) (rx_step env sh inp rx)"
    using Cons.prems by (intro step_orders) auto
  then have "orders_inv ((ids @ ?new) @ taken env sh inps (rx_step env sh inp rx)) (rx_run env sh inps (rx_step env sh inp rx))"
    using Cons.prems by (intro Cons.IH) auto
  then show ?case by (simp add: rx_run_def)
qed

definition fresh_reactor :: "knobs \<Rightarrow> (nat \<Rightarrow> instant) \<Rightarrow> (nat \<Rightarrow> send_frame_error option) \<Rightarrow> ('d, 'cb, 'p) reactor" where
  "fresh_reactor k clock writer =
     reactor_init (map (\<lambda>url. (url, mc_new url k (with_knobs 150 600) clock 0 0)) [Public, Auth]) registry_new
       (token_manager_new []) k clock writer 1 0"

lemma fresh_orders: "orders_inv [] (fresh_reactor k clock writer)"
proof -
  have "token_inv (token_step (\<lambda>e. []) TokSetTx (token_manager_new []))" by (rule token_step_inv [OF token_new_inv])
  then show ?thesis
    by (simp add: orders_inv_def fresh_reactor_def reactor_init_def conn_ledger_def mc_new_def pend_ok_ops resolutions_def
        completions_def request_offers_def pending_requests_contains_def)
qed

lemma count_taken: "distinct (concat (map request_of inps)) \<Longrightarrow>
    count_list (taken env sh inps rx) i = (if i \<in> set (taken env sh inps rx) then 1 else 0)"
proof -
  assume "distinct (concat (map request_of inps))"
  then have "distinct (taken env sh inps rx)"
  proof (induction inps arbitrary: rx)
    case (Cons inp inps)
    then show ?case using taken_requests [of env sh inps "rx_step env sh inp rx"] by auto
  qed simp
  then show ?thesis by (rule count_distinct)
qed

text \<open>
  Property C4. Every order request is answered exactly once, through the whole reactor. Over any sequence of caller
  messages, upgrade and refresh outcomes, frames, timers, token-task progress and socket failures, in which callers draw
  fresh request ids: for each id, the answers given by the reactor itself, plus the answers given by the connection, plus
  one if the request is still in flight, are one when the loop took the request and zero otherwise.
\<close>

theorem orders_answered_once:
  assumes "distinct (concat (map request_of inps))"
  shows "let rx0 = fresh_reactor k clock writer; rx = rx_run env sh inps rx0 in
    completions i (rx_log rx) + conn_ledger i rx = (if i \<in> set (taken env sh inps rx0) then 1 else 0)"
  using run_orders [OF fresh_orders, of inps env sh k clock writer] assms
  by (simp add: Let_def orders_inv_def count_taken [OF assms])

text \<open>
  Property C5. No order is sent twice, sent after a refusal, or sent without a token. Over any such run, for each request id the number of times the
  reactor refused the request itself plus the number of times it offered its frame to a socket is at most one; and every
  order frame it offered went to the authenticated socket with a non-empty token.
\<close>

theorem orders_sent_at_most_once:
  assumes "distinct (concat (map request_of inps))"
  shows "let rx = rx_run env sh inps (fresh_reactor k clock writer) in
    completions i (rx_log rx) + request_offers i (rx_log rx) \<le> 1 \<and> list_all tokened (rx_log rx)"
proof -
  have I: "orders_inv (taken env sh inps (fresh_reactor k clock writer)) (rx_run env sh inps (fresh_reactor k clock writer))"
    using run_orders [OF fresh_orders, of inps env sh k clock writer] assms by simp
  then have "completions i (rx_log (rx_run env sh inps (fresh_reactor k clock writer))) +
      request_offers i (rx_log (rx_run env sh inps (fresh_reactor k clock writer))) \<le>
      count_list (taken env sh inps (fresh_reactor k clock writer)) i" by (simp add: orders_inv_def)
  also have "\<dots> \<le> 1" by (simp add: count_taken [OF assms])
  finally show ?thesis using I by (simp add: Let_def orders_inv_def)
qed

section \<open>A run with one order\<close>

text \<open>The authenticated connection is dialled and upgraded, its token is fetched, and an order is forwarded before any subscription exists.\<close>

definition sample_env :: "(u32, nat, nat, nat) rx_env" where
  "sample_env = \<lparr>env_hasher = crc32_ieee, env_deser = (\<lambda>j. None), env_dec = (\<lambda>s. None), env_decode = (\<lambda>cb j. DecodeFailed)\<rparr>"

definition sample_reactor :: "(nat, nat, nat) reactor" where
  "sample_reactor = fresh_reactor knobs_defaults (\<lambda>n. 0) (\<lambda>n. None)"

definition sample_conn :: managed_connection where
  "sample_conn = mc_new Auth knobs_defaults (with_knobs 150 600) (\<lambda>n. 0) 0 0"

definition probe_steps :: "(nat, nat) rx_input list" where
  "probe_steps =
     [GotCaller (InFsmEvent Auth (StartConnect 1)), GotUpgrade (UpgradeOk Auth 0),
      TokenTask (TokFetched 0 (Some (Inr (JObj [(''token'', JStr ''t'')]))) 5)]"

definition probe_order :: "(nat, nat) rx_input" where
  "probe_order = GotCaller (InWsRequestFrame 7 ''add_order'' AddOrder JNull)"

lemma sample_connecting:
  "mc_state (handle_event (CallStartConnect 1) sample_conn) = Connecting" "socket (handle_event (CallStartConnect 1) sample_conn) = Some 0"
  "mc_url (handle_event (CallStartConnect 1) sample_conn) = Auth" "mc_clock (handle_event (CallStartConnect 1) sample_conn) = (\<lambda>n. 0)"
  by (simp_all add: sample_conn_def mc_new_def handle_event_def idle_event_def consult_shape try_consume_def with_knobs_def prune_def mc_defs Let_def)

lemma sample_authenticating:
  "mc_state m = Connecting \<Longrightarrow> mc_url m = Auth \<Longrightarrow> mc_state (handle_event (WireUpgradeOk c) m) = Authenticating \<and>
    mc_clock (handle_event (WireUpgradeOk c) m) = mc_clock m \<and> socket (handle_event (WireUpgradeOk c) m) = socket m"
  by (simp add: handle_event_def connecting_event_def mc_defs Let_def)

lemma reactor_parts:
  "rx_registry (write_mirror u rx) = rx_registry rx" "rx_sockets (write_mirror u rx) = rx_sockets rx" "rx_tokens (write_mirror u rx) = rx_tokens rx"
  "rx_bus (write_mirror u rx) = rx_bus rx" "rx_exited (write_mirror u rx) = rx_exited rx" "rx_log (write_mirror u rx) = rx_log rx"
  "rx_writer (write_mirror u rx) = rx_writer rx" "rx_conns (write_mirror u rx) = rx_conns rx"
  "rx_last_liveness_epoch (write_mirror u rx) = rx_last_liveness_epoch rx" "rx_last_liveness_epoch (on_conn u f rx) = rx_last_liveness_epoch rx"
  "rx_pending_client_close (write_mirror u rx) = rx_pending_client_close rx" "rx_pending_client_close (on_conn u f rx) = rx_pending_client_close rx"
  "rx_sockets (on_conn u f rx) = rx_sockets rx" "rx_pending_client_close (rx_act e rx) = rx_pending_client_close rx"
  by (simp_all add: write_mirror_def mirror_state_def on_conn_def rx_act_def split: option.split)

definition probing :: "(nat, nat, nat) reactor \<Rightarrow> bool" where
  "probing rx \<longleftrightarrow> rx_registry rx = registry_new \<and> hm_get (rx_sockets rx) Auth = Some 0 \<and> rx_bus rx \<and> \<not> rx_exited rx \<and>
     rx_last_liveness_epoch rx = 0 \<and> rx_pending_client_close rx = None"

lemma probe_started:
  "let rx = rx_step sample_env (\<lambda>e. []) (GotCaller (InFsmEvent Auth (StartConnect 1))) sample_reactor in
     probing rx \<and> hm_get (rx_conns rx) Auth = Some (handle_event (CallStartConnect 1) sample_conn) \<and> tm_tasks (rx_tokens rx) = [] \<and> tm_cached (rx_tokens rx) = None"
  by (simp add: sample_reactor_def fresh_reactor_def reactor_init_def rx_step_def sync_liveness_def select_arm_def caller_arm_def
      finish_client_close_def drive_conn_def project_socket_and_wire_bridge_def sample_connecting reactor_parts probing_def Let_def registry_new_def
      sample_conn_def [symmetric] token_manager_new_def set_refresh_tx_def)

lemma probe_upgraded:
  assumes "probing rx" and "hm_get (rx_conns rx) Auth = Some m" and "mc_state m = Connecting" and "mc_url m = Auth" "mc_clock m = (\<lambda>n. 0)"
    and "tm_tasks (rx_tokens rx) = []" and "tm_cached (rx_tokens rx) = None"
  shows "let rx' = rx_step sample_env (\<lambda>e. []) (GotUpgrade (UpgradeOk Auth 0)) rx in probing rx' \<and>
    (\<exists>m'. hm_get (rx_conns rx') Auth = Some m' \<and> mc_state m' = Authenticating \<and> mc_clock m' = (\<lambda>n. 0)) \<and>
    (\<exists>t. tm_tasks (rx_tokens rx') = [t] \<and> rt_phase t = Fetching)"
  using assms sample_authenticating [OF assms(3,4)]
  by (simp add: rx_step_def sync_liveness_def select_arm_def finish_client_close_def probing_def Let_def upgrade_ok_is_live_def
      upgrade_arrived_def reactor_parts send_first_signed_subscribe_def token_now_def valid_token_def rx_force_refresh_def reactive_refresh_def registry_new_def)

lemma probe_fetched:
  assumes "probing rx" and "tm_tasks (rx_tokens rx) = [t]" and "rt_phase t = Fetching"
  shows "let rx' = rx_step sample_env (\<lambda>e. []) (TokenTask (TokFetched 0 (Some (Inr (JObj [(''token'', JStr ''t'')]))) 5)) rx in
    probing rx' \<and> rx_conns rx' = rx_conns rx \<and> tm_cached (rx_tokens rx') = Some \<lparr>tok_value = ''t'', fetched_at = 5\<rparr>"
  using assms by (simp add: rx_step_def probing_def Let_def finish_fetch_def fetch_outcome_def decode_token_result_def)

lemma probe_forwarded:
  assumes "probing rx" and "hm_get (rx_conns rx) Auth = Some m" and "mc_state m = Authenticating" and "mc_clock m = (\<lambda>n. 0)"
    and "tm_cached (rx_tokens rx) = Some \<lparr>tok_value = ''t'', fetched_at = 5\<rparr>"
  shows "\<exists>f r. rx_log (handle_ws_request_frame 7 ''add_order'' AddOrder JNull rx) = rx_log rx @ [Offered Auth 0 (Requesting 7) f r]"
    and "rx_pending_client_close (handle_ws_request_frame 7 ''add_order'' AddOrder JNull rx) = None"
proof -
  have adm: "request_admitted AddOrder (rx_registry rx) m"
    using assms by (simp add: request_admitted_def is_order_method_def probing_def registry_new_def has_url_entry_def pair_entries_def)
  have tok: "valid_token (now_of m) rx = Some ''t''"
    using assms by (simp add: valid_token_def is_expired_def WS_TOKEN_TTL_def now_of_def)
  show "\<exists>f r. rx_log (handle_ws_request_frame 7 ''add_order'' AddOrder JNull rx) = rx_log rx @ [Offered Auth 0 (Requesting 7) f r]"
    and "rx_pending_client_close (handle_ws_request_frame 7 ''add_order'' AddOrder JNull rx) = None"
    using assms(1,2) adm tok by (simp_all add: handle_ws_request_frame_def probing_def offer_def Let_def split_beta reactor_parts)
qed

lemma probe_sent:
  assumes "probing rx" and "hm_get (rx_conns rx) Auth = Some m" and "mc_state m = Authenticating" and "mc_clock m = (\<lambda>n. 0)"
    and "tm_cached (rx_tokens rx) = Some \<lparr>tok_value = ''t'', fetched_at = 5\<rparr>"
  shows "\<exists>f r. rx_log (rx_step sample_env (\<lambda>e. []) probe_order rx) = rx_log rx @ [Offered Auth 0 (Requesting 7) f r]"
proof -
  have "liveness_epoch (rx_registry rx) = rx_last_liveness_epoch rx" "\<not> rx_exited rx" "rx_bus rx"
    using assms(1) by (simp_all add: probing_def registry_new_def)
  then show ?thesis
    using probe_forwarded [OF assms]
    by (simp add: rx_step_def sync_liveness_def select_arm_def caller_arm_def finish_client_close_def probe_order_def)
qed

lemma probe_run:
  "let rx = rx_run sample_env (\<lambda>e. []) probe_steps sample_reactor in
    probing rx \<and> tm_cached (rx_tokens rx) = Some \<lparr>tok_value = ''t'', fetched_at = 5\<rparr> \<and>
    (\<exists>m. hm_get (rx_conns rx) Auth = Some m \<and> mc_state m = Authenticating \<and> mc_clock m = (\<lambda>n. 0))"
proof -
  define rx1 where "rx1 = rx_step sample_env (\<lambda>e. []) (GotCaller (InFsmEvent Auth (StartConnect 1))) sample_reactor"
  define rx2 where "rx2 = rx_step sample_env (\<lambda>e. []) (GotUpgrade (UpgradeOk Auth 0)) rx1"
  note s1 = probe_started [unfolded Let_def, folded rx1_def]
  have "probing rx2 \<and> (\<exists>m'. hm_get (rx_conns rx2) Auth = Some m' \<and> mc_state m' = Authenticating \<and> mc_clock m' = (\<lambda>n. 0)) \<and>
      (\<exists>t. tm_tasks (rx_tokens rx2) = [t] \<and> rt_phase t = Fetching)"
    using probe_upgraded [of rx1, unfolded Let_def, folded rx2_def] s1 sample_connecting by blast
  then show ?thesis
    using probe_fetched [of rx2] by (auto simp: rx_run_def probe_steps_def rx1_def rx2_def Let_def)
qed

lemma probe_offered:
  "\<exists>f r. rx_log (rx_run sample_env (\<lambda>e. []) (probe_steps @ [probe_order]) sample_reactor) =
     rx_log (rx_run sample_env (\<lambda>e. []) probe_steps sample_reactor) @ [Offered Auth 0 (Requesting 7) f r]"
  using probe_run [unfolded Let_def] probe_sent by (auto simp: rx_run_def)

lemma taken_append: "taken env sh (xs @ ys) rx = taken env sh xs rx @ taken env sh ys (rx_run env sh xs rx)"
  by (induction xs arbitrary: rx) (simp_all add: rx_run_def)

lemma probe_taken: "7 \<in> set (taken sample_env (\<lambda>e. []) (probe_steps @ [probe_order]) sample_reactor)"
  using probe_run [unfolded Let_def] by (simp add: taken_append probe_order_def probing_def)

lemma probe_distinct: "distinct (concat (map request_of (probe_steps @ [probe_order])))"
  by (simp add: probe_steps_def probe_order_def)

theorem orders_answered_once_witness:
  "let rx = rx_run sample_env (\<lambda>e. []) (probe_steps @ [probe_order]) sample_reactor in completions 7 (rx_log rx) + conn_ledger 7 rx = 1"
  using orders_answered_once [OF probe_distinct, of knobs_defaults "\<lambda>n. 0" "\<lambda>n. None" sample_env "\<lambda>e. []" 7] probe_taken
  by (simp add: Let_def sample_reactor_def)

theorem orders_sent_at_most_once_witness:
  "let rx = rx_run sample_env (\<lambda>e. []) (probe_steps @ [probe_order]) sample_reactor in
     completions 7 (rx_log rx) = 0 \<and> request_offers 7 (rx_log rx) = 1 \<and> list_all tokened (rx_log rx)"
  using orders_sent_at_most_once [OF probe_distinct, of sample_env "\<lambda>e. []" knobs_defaults "\<lambda>n. 0" "\<lambda>n. None" 7] probe_offered
  by (auto simp: Let_def sample_reactor_def)

end
