(* ===== verification/Reactor_Close.thy ===== *)
theory Reactor_Close
  imports Reactor_Orders
begin

text \<open>
  The end of the client over whole runs of the reactor: the caller of \<open>close()\<close> is answered once, when both connections are
  closed, and the loop ends there.
\<close>

fun close_reply :: "('d, 'p) rx_effect \<Rightarrow> u64 list" where
  "close_reply (RxDelivered i t ev) = [i]"
| "close_reply e = []"

definition close_replies :: "('d, 'p) rx_effect list \<Rightarrow> u64 list" where
  "close_replies es = concat (map close_reply es)"

fun close_request :: "('d, 'cb) rx_input \<Rightarrow> u64 list" where
  "close_request (GotCaller (InClientClose i t)) = [i]"
| "close_request inp = []"

definition all_closed :: "('d, 'cb, 'p) reactor \<Rightarrow> bool" where
  "all_closed rx \<longleftrightarrow> list_all (\<lambda>(_, m). mc_state m = Closed) (rx_conns rx)"

text \<open>The inputs after which the loop does not look whether the client is closed: a timer it handled itself, and what is not
  its own doing.\<close>

fun skips_check :: "('d, 'cb) rx_input \<Rightarrow> bool" where
  "skips_check GotTimer \<longleftrightarrow> True"
| "skips_check (TokenTask op) \<longleftrightarrow> True"
| "skips_check BusGone \<longleftrightarrow> True"
| "skips_check inp \<longleftrightarrow> False"

lemma close_replies_append [simp]: "close_replies (xs @ ys) = close_replies xs @ close_replies ys"
  by (simp add: close_replies_def)

lemma harmless_silent: "list_all harmless t \<Longrightarrow> close_replies t = []"
proof -
  have "harmless e \<Longrightarrow> close_reply e = []" for e :: "('d, 'p) rx_effect" by (cases e) simp_all
  then show "list_all harmless t \<Longrightarrow> close_replies t = []" by (auto simp: close_replies_def list_all_iff)
qed

interpretation cl: conn_frame "\<lambda>m m'. True" "\<lambda>t t'. True" harmless env for env
  by unfold_locales simp_all

section \<open>The invariant\<close>

definition close_inv :: "u64 list \<Rightarrow> ('d, 'cb, 'p) reactor \<Rightarrow> bool" where
  "close_inv ids rx \<longleftrightarrow>
     set_option (map_option fst (rx_pending_client_close rx)) \<subseteq> set ids \<and>
     (close_replies (rx_log rx) = [] \<or>
      rx_exited rx \<and> all_closed rx \<and> (\<exists>i. i \<in> set ids \<and> close_replies (rx_log rx) = [i]))"

definition waiting :: "u64 list \<Rightarrow> ('d, 'cb, 'p) reactor \<Rightarrow> bool" where
  "waiting ids rx \<longleftrightarrow> set_option (map_option fst (rx_pending_client_close rx)) \<subseteq> set ids \<and> close_replies (rx_log rx) = []"

lemma keeps_waiting: "keeps R T harmless rx rx' \<Longrightarrow> waiting ids rx \<Longrightarrow> waiting ids rx'"
  by (auto simp: keeps_def waiting_def harmless_silent)

lemma forwarded_waiting:
  assumes "waiting ids rx"
  shows "waiting ids (handle_ws_request_frame i mth op ps rx)"
  using assms
  by (auto simp: handle_ws_request_frame_def waiting_def Let_def split_beta offer_def rx_act_def rx_force_refresh_def close_replies_def
      split: option.split)

lemma select_waiting:
  fixes rx :: "('d::linorder, 'cb, 'p) reactor"
  assumes "waiting ids rx"
  shows "waiting (ids @ close_request inp) (fst (select_arm env inp rx))"
proof (cases "forwarding inp")
  case True
  then show ?thesis
  proof (cases inp rule: forwarding.cases)
    case (1 i mth op ps)
    then show ?thesis using forwarded_waiting [OF assms] by (simp add: select_arm_def caller_arm_def)
  next
    case (2 i t)
    have "waiting (ids @ [i]) (rx\<lparr>rx_pending_client_close := Some (i, t)\<rparr>)" using assms by (simp add: waiting_def)
    then show ?thesis using keeps_waiting [OF cl.close_marker [of i t rx]] 2 by (simp add: select_arm_def caller_arm_def)
  next
    case 3
    then show ?thesis using assms by (simp add: select_arm_def waiting_def)
  qed simp_all
next
  case False
  then have "waiting ids (fst (select_arm env inp rx))" using keeps_waiting [OF cl.select [OF cl.refl] assms] by blast
  then show ?thesis by (auto simp: waiting_def)
qed

lemma finish_close: "waiting ids rx \<Longrightarrow> close_inv ids (finish_client_close rx)"
  by (auto simp: waiting_def close_inv_def finish_client_close_def Let_def rx_act_def rx_tick_def all_closed_def close_replies_def
      split: option.split)

lemma waiting_inv: "waiting ids rx \<Longrightarrow> close_inv ids rx"
  by (simp add: waiting_def close_inv_def)

lemma step_close:
  assumes "close_inv ids rx"
  shows "close_inv (ids @ close_request inp) (rx_step env sh inp rx)"
proof (cases "rx_exited rx")
  case True
  then show ?thesis using assms by (auto simp: rx_step_def close_inv_def)
next
  case False
  then have w: "waiting ids rx" using assms by (auto simp: close_inv_def waiting_def)
  have "waiting ids (sync_liveness rx)" by (rule keeps_waiting [OF cl.sync [OF cl.refl] w])
  note s = select_waiting [OF this, of inp env]
  have "close_inv ids (rx\<lparr>rx_tokens := tm\<rparr>)" "close_inv ids (rx\<lparr>rx_bus := b\<rparr>)" "close_inv (ids @ more) (rx\<lparr>rx_exited := b\<rparr>)" for tm b more
    using w by (auto simp: waiting_def close_inv_def)
  note kept = this this(3) [of "[]", simplified]
  show ?thesis
    using False finish_close [OF s] waiting_inv [OF s] by (cases inp) (auto simp: rx_step_def split_beta kept)
qed

lemma close_run:
  assumes "close_inv ids rx"
  shows "close_inv (ids @ concat (map close_request inps)) (rx_run env sh inps rx)"
  using assms
proof (induction inps arbitrary: ids rx)
  case (Cons inp inps)
  then show ?case using Cons.IH [OF step_close [OF Cons.prems, of inp env sh]] by (simp add: rx_run_def)
qed (simp add: rx_run_def)

lemma finish_settles: "rx_exited (finish_client_close rx) \<or> rx_pending_client_close (finish_client_close rx) = None \<or>
    list_ex (\<lambda>(_, m). mc_state m \<noteq> Closed) (rx_conns (finish_client_close rx))"
  by (auto simp: finish_client_close_def Let_def list_ex_iff list_all_iff split: option.split)

lemma step_settles:
  assumes "\<not> skips_check inp"
  shows "rx_exited (rx_step env sh inp rx) \<or> rx_pending_client_close (rx_step env sh inp rx) = None \<or>
    list_ex (\<lambda>(_, m). mc_state m \<noteq> Closed) (rx_conns (rx_step env sh inp rx))"
  using assms finish_settles by (cases inp) (auto simp: rx_step_def select_arm_def)


end
