(* ===== verification/Reactor_Books.thy ===== *)
theory Reactor_Books
  imports Reactor_Orders
begin

text \<open>
  What the reactor hands to data handlers over whole runs: a maintained book is only ever delivered when it matches the checksum
  the exchange sent with it.
\<close>

section \<open>Every entry of the log\<close>

locale log_frame = conn_frame "\<lambda>m m'. True" "\<lambda>t t'. True" P env
  for P :: "('d::linorder, 'p) rx_effect \<Rightarrow> bool" and env :: "('h, 'd, 'cb, 'p) rx_env" +
  assumes untyped: "typed_update e = None \<Longrightarrow> P e"
begin

lemma kept_log: "keeps R T P rx rx' \<Longrightarrow> list_all P (rx_log rx) \<Longrightarrow> list_all P (rx_log rx')"
  by (auto simp: keeps_def)

lemma forwarded_log: "list_all P (rx_log rx) \<Longrightarrow> list_all P (rx_log (handle_ws_request_frame i mth op ps rx))"
  by (simp add: handle_ws_request_frame_def Let_def split_beta offer_def rx_act_def rx_force_refresh_def untyped split: option.split)

lemma finished_log: "list_all P (rx_log rx) \<Longrightarrow> list_all P (rx_log (finish_client_close rx))"
  by (simp add: finish_client_close_def Let_def rx_act_def rx_tick_def untyped split: option.split)

lemma select_log: "list_all P (rx_log rx) \<Longrightarrow> list_all P (rx_log (fst (select_arm env inp rx)))"
proof (cases "forwarding inp")
  case True
  assume l: "list_all P (rx_log rx)"
  from True show ?thesis
  proof (cases inp rule: forwarding.cases)
    case (1 i mth op ps)
    then show ?thesis using forwarded_log [OF l] by (simp add: select_arm_def caller_arm_def)
  next
    case (2 i t)
    then show ?thesis using kept_log [OF close_marker [of i t rx]] l by (simp add: select_arm_def caller_arm_def)
  qed (use l in \<open>simp_all add: select_arm_def\<close>)
next
  case False
  then show "list_all P (rx_log rx) \<Longrightarrow> ?thesis" using kept_log [OF select [OF refl]] by blast
qed

lemma step_log: "list_all P (rx_log rx) \<Longrightarrow> list_all P (rx_log (rx_step env sh inp rx))"
  using select_log [OF kept_log [OF sync [OF refl]]]
  by (cases inp) (simp_all add: rx_step_def split_beta finished_log)

lemma run_log: "list_all P (rx_log rx) \<Longrightarrow> list_all P (rx_log (rx_run env sh inps rx))"
  by (induction inps arbitrary: rx) (simp_all add: rx_run_def step_log)

end

section \<open>Maintained books\<close>

text \<open>An update shows the top of some book whose checksum it carries.\<close>

definition verified :: "'h hasher \<Rightarrow> 'd::linorder order_book_update \<Rightarrow> bool" where
  "verified H u \<longleftrightarrow>
     (\<exists>b. compute_checksum H b = u_checksum u \<and> u_symbol u = b_symbol b \<and>
        u_bids u = map book_level_from (take (caller_depth b) (bt_values (b_bids b))) \<and>
        u_asks u = map book_level_from (take (caller_depth b) (bt_values (b_asks b))))"

definition genuine :: "'h hasher \<Rightarrow> ('d::linorder, 'p) rx_effect \<Rightarrow> bool" where
  "genuine H e \<longleftrightarrow> (case typed_update e of None \<Rightarrow> True | Some u \<Rightarrow> verified H u)"

lemma validated_checksum: "validate_and_record H c b = (b', Inr r) \<Longrightarrow> compute_checksum H b' = c"
  by (auto simp: validate_and_record_def Let_def compute_checksum_def split: if_splits)

lemma applied_checksum:
  "apply_snapshot H bs as c b = (b', Inr r) \<Longrightarrow> compute_checksum H b' = c" "apply_delta H bs as c b = (b', Inr r) \<Longrightarrow> compute_checksum H b' = c"
  by (simp_all add: apply_snapshot_def apply_delta_def validated_checksum)

lemma built_verified: "compute_checksum H b = c \<Longrightarrow> verified H (build_update c t ts b)"
  by (auto simp: verified_def build_update_def)

lemma drive_verified: "drive_update H deser dec snap entry e = (e', Maintained u) \<Longrightarrow> verified H u"
  by (auto simp: drive_update_def Let_def dest!: applied_checksum intro: built_verified
      split: option.splits prod.splits if_splits sum.splits apply_error.splits)

lemma maintained_verified: "handle_update H deser dec ch s snap entry reg = (reg', Maintained u) \<Longrightarrow> verified H u"
  by (auto simp: handle_update_def dest: drive_verified split: option.splits prod.splits)

interpretation books: log_frame "genuine (env_hasher env)" env for env
  by unfold_locales (auto simp: genuine_def dest: maintained_verified)


end
