(* ===== verification/Reactor_Limits.thy ===== *)
theory Reactor_Limits
  imports Reactor_Frame_Rules
begin

text \<open>
  Where the reactor falls behind its connections: a dead writer met while registering leaves the state mirror behind, a resend that
  finds its writer dead ends a close without the check for the end of the client, and a spent resend budget takes a
  connection out of its close.
\<close>

definition mirrored :: "ws_url \<Rightarrow> ('d, 'cb, 'p) reactor \<Rightarrow> bool" where
  "mirrored url rx \<longleftrightarrow> hm_get (rx_state_mirrors rx) url = map_option (as_u8 \<circ> mc_state) (hm_get (rx_conns rx) url)"

lemma abnormal_leaves_open: "mc_state m = Open \<Longrightarrow> mc_state (handle_event (WireAbnormalClose k) m) \<in> {BackingOff, Failed}"
  by (simp add: handle_event_def open_event_def drop_or_escalate_def cap_exhausted_then_escalate_def back_off_dropped_def mc_defs
      leave_open_def Let_def split: option.split prod.split)

text \<open>A subscribe for a new key on an open public connection whose writer has died: the connection leaves \<open>Open\<close>, its mirror does not.\<close>

lemma dead_writer_leaves_mirror:
  assumes "hm_get (rx_conns rx) Public = Some m" "mc_state m = Open" and "hm_get (rx_sockets rx) Public = Some s"
    and "rx_writer rx (rx_offers rx) = Some WriterClosed" and "mirrored Public rx"
  shows "\<not> mirrored Public (send_single_subscribe Public key params rx)"
proof -
  have st: "mc_state (fst (next_subscribe_req_id m)) = Open" using assms(2) by (simp add: next_subscribe_req_id_def)
  have "as_u8 (mc_state (handle_event (WireAbnormalClose k) (fst (next_subscribe_req_id m)))) \<noteq> as_u8 Open" for k
    using abnormal_leaves_open [OF st, of k] by auto
  then show ?thesis
    using assms
    by (auto simp: mirrored_def send_single_subscribe_def send_and_arm_def take_req_id_def send_subscribe_frame_def offer_def
        drive_writer_closed_abnormal_def Let_def rx_act_def)
qed

interpretation any: conn_frame "\<lambda>m m'. True" "\<lambda>t t'. True" "\<lambda>e. True" env for env
  by unfold_locales simp_all

lemma mirror_and_project_conns: "rx_conns (mirror_and_project url rx) = rx_conns rx"
  by (simp add: mirror_and_project_def write_mirror_def mirror_state_def project_socket_and_wire_bridge_def Let_def split: option.split)

lemma abnormal_closes:
  "mc_state m = Closing \<Longrightarrow> pending_reconnect_request_id m = None \<Longrightarrow> mc_state (handle_event (WireAbnormalClose k) m) = Closed"
  by (simp add: handle_event_def closing_event_def enter_closed_or_reconnect_def mc_defs Let_def drain_fields split: option.split)

text \<open>The last connection of a closing client closes on a resend whose writer has died: the loop goes on, with nothing left that would
  wake it.\<close>

lemma resend_misses_client_close:
  assumes live: "\<not> rx_exited rx" "rx_bus rx" "liveness_epoch (rx_registry rx) = rx_last_liveness_epoch rx"
    and pending: "rx_pending_client_close rx = Some c"
    and conns: "rx_conns rx = [(Public, m), (Auth, a)]" "mc_state a = Closed" "mc_state m = Closing" "pending_reconnect_request_id m = None"
    and timer: "earliest_timer (rx_conns rx) = Some (Public, due, TimerSubscribeResendDue ch pair)"
    and sent: "params_for (rx_registry rx) ch pair = Some ps" "hm_get (rx_sockets rx) Public = Some s" "rx_writer rx (rx_offers rx) = Some WriterClosed"
  shows "let rx' = rx_step env sh GotTimer rx in
    list_all (\<lambda>(_, m). mc_state m = Closed) (rx_conns rx') \<and> \<not> rx_exited rx' \<and> rx_pending_client_close rx' = Some c"
proof -
  define m1 where "m1 = fst (next_subscribe_req_id (pop_timer_for_event (TimerSubscribeResendDue ch pair) m))"
  define rx1 where "rx1 = on_conn Public (pop_timer_for_event (TimerSubscribeResendDue ch pair)) rx"
  define rx2 where "rx2 = handle_subscribe_resend Public (ch, pair) rx1"
  have "core m1 = core m" by (simp add: m1_def)
  then have "mc_state m1 = Closing" "pending_reconnect_request_id m1 = None" using conns by (simp_all add: core_def)
  note closes = abnormal_closes [OF this]
  have "rx_conns rx1 = [(Public, pop_timer_for_event (TimerSubscribeResendDue ch pair) m), (Auth, a)]"
    by (simp add: rx1_def on_conn_def conns)
  moreover have "params_for (rx_registry rx1) ch pair = Some ps" "hm_get (rx_sockets rx1) Public = Some s"
    "rx_writer rx1 (rx_offers rx1) = Some WriterClosed"
    using sent by (simp_all add: rx1_def)
  ultimately have "rx_conns rx2 = [(Public, handle_event (WireAbnormalClose (AbnormalClose (writer_closed_context Resend))) m1), (Auth, a)]"
    by (simp add: rx2_def handle_subscribe_resend_def send_and_arm_def take_req_id_def send_subscribe_frame_def
        offer_def drive_writer_closed_abnormal_def on_conn_def rx_act_def Let_def m1_def)
  then have "list_all (\<lambda>(_, m). mc_state m = Closed) (rx_conns rx2)" using closes conns by simp
  moreover have "keeps (\<lambda>m m'. True) (\<lambda>t t'. True) (\<lambda>e. True) rx (fst (timer_arm Public (TimerSubscribeResendDue ch pair) rx))"
    by (rule any.timer [OF any.refl])
  ultimately show ?thesis
    using live timer pending conns(1)
    by (simp add: rx_step_def sync_liveness_def select_arm_def timer_arm_def Let_def rx1_def [symmetric] rx2_def [symmetric] keeps_def
        mirror_and_project_conns)
qed

text \<open>A closing connection whose subscribe runs out of resends goes to back off, from where it reconnects.\<close>

lemma spent_budget_leaves_closing:
  fixes m :: managed_connection and ch :: channel_name and p :: "string option"
  defines "m1 \<equiv> forget_subscribe_req_id_for_key (ch, p) (drop_entry_timers (ch, p) m)"
  assumes "mc_state m = Closing" and "snd (burn_ack_budget (ch, p) m1) = 0"
  shows "mc_state (handle_subscribe_failure ch p True None m) = BackingOff"
proof -
  have "mc_state m1 = Closing"
    using assms(2) by (simp add: m1_def forget_subscribe_req_id_for_key_def drop_entry_timers_def set_timers_def split: option.split)
  then have "mc_state (exit_resubscribing_teardown (fst (burn_ack_budget (ch, p) m1))) \<noteq> Open"
    by (simp add: burn_ack_budget_def exit_resubscribing_teardown_def drain_fields mc_defs Let_def)
  then have "handle_subscribe_failure ch p True None m =
      back_off_attempt_failed SubscribeBudgetExhausted (Some (SubscribeBudgetText (ch, p))) None None
        (exit_resubscribing_teardown (fst (burn_ack_budget (ch, p) m1)))"
    using assms(3) by (simp add: handle_subscribe_failure_def m1_def [symmetric] Let_def split_beta)
  moreover have "mc_state (back_off_attempt_failed c e h k x) = BackingOff" for c e h k x
    by (simp add: back_off_attempt_failed_def mc_defs Let_def split_beta)
  ultimately show ?thesis by simp
qed

end
