(* ===== verification/Order_Requests.thy ===== *)
theory Order_Requests
  imports Rest_Retry
begin

text \<open>
  The orders a caller can place: \<open>src/rust/src/api/trade/types/enums.rs\<close> and \<open>requests.rs\<close>, with the errors of
  \<open>api/trade/error.rs\<close> the validators give. Requests are records, their setters one function on a datatype of changes. A
  \<open>Decimal\<close> of the crate \<open>rust_decimal\<close> is a value of a type parameter with the operations the code uses of it: its text, its sign, the
  comparison with zero, and whether its text reads as a JSON number. Symbols and client order ids are their texts.
\<close>

section \<open>Vocabulary\<close>

datatype order_type =
    Market | Limit | Iceberg | StopLoss | TakeProfit | StopLossLimit | TakeProfitLimit
  | TrailingStop | TrailingStopLimit | SettlePosition | UnknownOrderType

fun order_type_str :: "order_type \<Rightarrow> string" where
  "order_type_str Market = ''market''"
| "order_type_str Limit = ''limit''"
| "order_type_str Iceberg = ''iceberg''"
| "order_type_str StopLoss = ''stop-loss''"
| "order_type_str TakeProfit = ''take-profit''"
| "order_type_str StopLossLimit = ''stop-loss-limit''"
| "order_type_str TakeProfitLimit = ''take-profit-limit''"
| "order_type_str TrailingStop = ''trailing-stop''"
| "order_type_str TrailingStopLimit = ''trailing-stop-limit''"
| "order_type_str SettlePosition = ''settle-position''"
| "order_type_str UnknownOrderType = ''unknown''"

datatype oflag = Post | Fcib | Fciq | Nompp

fun oflag_str :: "oflag \<Rightarrow> string" where
  "oflag_str Post = ''post''"
| "oflag_str Fcib = ''fcib''"
| "oflag_str Fciq = ''fciq''"
| "oflag_str Nompp = ''nompp''"

fun join_comma :: "string list \<Rightarrow> string" where
  "join_comma [] = []"
| "join_comma [s] = s"
| "join_comma (s # ss) = s @ '','' @ join_comma ss"

definition oflags_to_wire :: "oflag list \<Rightarrow> string option" where
  "oflags_to_wire flags = (if flags = [] then None else Some (join_comma (map oflag_str flags)))"

datatype stp_type = CancelNewest | CancelOldest | CancelBoth

fun stp_type_str :: "stp_type \<Rightarrow> string" where
  "stp_type_str CancelNewest = ''cancel-newest''"
| "stp_type_str CancelOldest = ''cancel-oldest''"
| "stp_type_str CancelBoth = ''cancel-both''"

fun stp_type_ws :: "stp_type \<Rightarrow> string" where
  "stp_type_ws CancelNewest = ''cancel_newest''"
| "stp_type_ws CancelOldest = ''cancel_oldest''"
| "stp_type_ws CancelBoth = ''cancel_both''"

datatype trigger_kind = LastPrice | IndexPrice

fun trigger_kind_str :: "trigger_kind \<Rightarrow> string" where
  "trigger_kind_str LastPrice = ''last''"
| "trigger_kind_str IndexPrice = ''index''"

definition trigger_from_wire_str :: "string \<Rightarrow> trigger_kind option" where
  "trigger_from_wire_str s = (if s = ''last'' then Some LastPrice else if s = ''index'' then Some IndexPrice else None)"

datatype time_in_force = Gtc | Ioc | Gtd | Fok

fun tif_str :: "time_in_force \<Rightarrow> string" where
  "tif_str Gtc = ''gtc''"
| "tif_str Ioc = ''ioc''"
| "tif_str Gtd = ''gtd''"
| "tif_str Fok = ''fok''"

datatype side = Buy | Sell

fun side_str :: "side \<Rightarrow> string" where
  "side_str Buy = ''buy''"
| "side_str Sell = ''sell''"

definition is_limit_price_bearing :: "order_type \<Rightarrow> bool" where
  "is_limit_price_bearing t \<longleftrightarrow> t \<in> {Limit, Iceberg, StopLossLimit, TakeProfitLimit, TrailingStopLimit}"

section \<open>Instants\<close>

text \<open>Seconds since the Unix epoch, an \<open>i64\<close>.\<close>

type_synonym time_spec = int

definition from_unix_secs :: "int \<Rightarrow> time_spec" where
  "from_unix_secs t = max t 0"

text \<open>\<open>None\<close> is a time before the epoch, else the seconds since it, a \<open>u64\<close>.\<close>

definition from_system_time :: "nat option \<Rightarrow> time_spec option" where
  "from_system_time since = map_option (\<lambda>n. min (int n) (2 ^ 63 - 1)) since"

definition int_text :: "int \<Rightarrow> string" where
  "int_text n = (if n < 0 then ''-'' @ dec_string (nat (- n)) else dec_string (nat n))"

definition time_rest_form :: "time_spec \<Rightarrow> string" where
  "time_rest_form t = int_text t"

definition civil_from_days :: "int \<Rightarrow> int \<times> int \<times> int" where
  "civil_from_days days =
     (let z = days + 719468;
          era = z div 146097;
          doe = z - era * 146097;
          yoe = (doe - doe div 1460 + doe div 36524 - doe div 146096) div 365;
          doy = doe - (365 * yoe + yoe div 4 - yoe div 100);
          mp = (5 * doy + 2) div 153;
          d = doy - (153 * mp + 2) div 5 + 1;
          m = (if mp < 10 then mp + 3 else mp - 9);
          y = yoe + era * 400 + (if m \<le> 2 then 1 else 0)
      in (y, m, d))"

definition time_of_day :: "int \<Rightarrow> int \<times> int \<times> int" where
  "time_of_day tod = (tod div 3600, tod mod 3600 div 60, tod mod 60)"

definition padded :: "nat \<Rightarrow> int \<Rightarrow> string" where
  "padded w n = (let s = int_text n in replicate (w - length s) (CHR ''0'') @ s)"

definition unix_secs_to_rfc3339_utc :: "int \<Rightarrow> string" where
  "unix_secs_to_rfc3339_utc t =
     (let (hh, mi, ss) = time_of_day (t mod 86400);
          (y, m, d) = civil_from_days (t div 86400)
      in padded 4 y @ ''-'' @ padded 2 m @ ''-'' @ padded 2 d @ ''T'' @ padded 2 hh @ '':'' @ padded 2 mi @ '':'' @ padded 2 ss @ ''Z'')"

definition time_to_ws :: "time_spec \<Rightarrow> string" where
  "time_to_ws t = unix_secs_to_rfc3339_utc t"

section \<open>Prices\<close>

record 'x dec_ops =
  dx_text :: "'x \<Rightarrow> string"
  dx_negative :: "'x \<Rightarrow> bool"
  dx_above_zero :: "'x \<Rightarrow> bool"
  dx_number :: "string \<Rightarrow> bool"

datatype price_unit = QuoteUnit | PercentUnit

datatype 'x price = Absolute 'x | Offset price_unit 'x

fun price_rest_form :: "'x dec_ops \<Rightarrow> 'x price \<Rightarrow> string" where
  "price_rest_form D (Absolute d) = dx_text D d"
| "price_rest_form D (Offset unit v) =
     (let signed = (if dx_negative D v then dx_text D v else ''+'' @ dx_text D v)
      in case unit of QuoteUnit \<Rightarrow> signed | PercentUnit \<Rightarrow> signed @ ''%'')"

fun price_to_ws :: "'x price \<Rightarrow> 'x \<times> string" where
  "price_to_ws (Absolute d) = (d, ''static'')"
| "price_to_ws (Offset QuoteUnit v) = (v, ''quote'')"
| "price_to_ws (Offset PercentUnit v) = (v, ''pct'')"

section \<open>Conditional closes\<close>

datatype close_order_type =
    CloseLimit | CloseStopLoss | CloseTakeProfit | CloseStopLossLimit | CloseTakeProfitLimit
  | CloseTrailingStop | CloseTrailingStopLimit

fun to_order_type :: "close_order_type \<Rightarrow> order_type" where
  "to_order_type CloseLimit = Limit"
| "to_order_type CloseStopLoss = StopLoss"
| "to_order_type CloseTakeProfit = TakeProfit"
| "to_order_type CloseStopLossLimit = StopLossLimit"
| "to_order_type CloseTakeProfitLimit = TakeProfitLimit"
| "to_order_type CloseTrailingStop = TrailingStop"
| "to_order_type CloseTrailingStopLimit = TrailingStopLimit"

record 'x conditional_close =
  cc_ordertype :: close_order_type
  cc_price :: "'x price"
  cc_price2 :: "'x price option"

definition conditional_close_new :: "close_order_type \<Rightarrow> 'x price \<Rightarrow> 'x conditional_close" where
  "conditional_close_new t p = \<lparr>cc_ordertype = t, cc_price = p, cc_price2 = None\<rparr>"

definition flat_legs :: "'x conditional_close option \<Rightarrow> order_type option \<times> 'x price option \<times> 'x price option" where
  "flat_legs cc =
     (case cc of Some c \<Rightarrow> (Some (to_order_type (cc_ordertype c)), Some (cc_price c), cc_price2 c) | None \<Rightarrow> (None, None, None))"

type_synonym form = "(string \<times> string) list"

text \<open>An optional field of a form; the Rust code pushes it when it is set.\<close>

definition field :: "string \<Rightarrow> string option \<Rightarrow> form" where
  "field k v = (case v of None \<Rightarrow> [] | Some s \<Rightarrow> [(k, s)])"

definition push_close_form :: "'x dec_ops \<Rightarrow> string \<Rightarrow> 'x conditional_close \<Rightarrow> form" where
  "push_close_form D pre c =
     [(pre @ ''[ordertype]'', order_type_str (to_order_type (cc_ordertype c))), (pre @ ''[price]'', price_rest_form D (cc_price c))] @
     field (pre @ ''[price2]'') (map_option (price_rest_form D) (cc_price2 c))"

section \<open>Requests\<close>

record 'x order_request =
  oq_side :: side
  oq_pair :: string
  oq_volume :: 'x
  oq_order_type :: order_type
  oq_price :: "'x price option"
  oq_price2 :: "'x price option"
  oq_leverage :: "u8 option"
  oq_margin :: bool
  oq_oflags :: "oflag list"
  oq_reduce_only :: "bool option"
  oq_stp_type :: "stp_type option"
  oq_trigger :: "trigger_kind option"
  oq_time_in_force :: "time_in_force option"
  oq_display_vol :: "'x option"
  oq_start_time :: "time_spec option"
  oq_expire_time :: "time_spec option"
  oq_deadline :: "duration option"
  oq_userref :: "int option"
  oq_cl_ord_id :: "string option"
  oq_conditional_close :: "'x conditional_close option"
  oq_validate :: bool

definition order_request_new :: "string \<Rightarrow> 'x \<Rightarrow> side \<Rightarrow> 'x order_request" where
  "order_request_new pair volume s =
     \<lparr>oq_side = s, oq_pair = pair, oq_volume = volume, oq_order_type = Market, oq_price = None, oq_price2 = None,
      oq_leverage = None, oq_margin = False, oq_oflags = [], oq_reduce_only = None, oq_stp_type = None, oq_trigger = None,
      oq_time_in_force = None, oq_display_vol = None, oq_start_time = None, oq_expire_time = None, oq_deadline = None,
      oq_userref = None, oq_cl_ord_id = None, oq_conditional_close = None, oq_validate = False\<rparr>"

definition set_post_only :: "bool \<Rightarrow> oflag list \<Rightarrow> oflag list" where
  "set_post_only on flags =
     (if on then if Post \<in> set flags then flags else flags @ [Post] else filter (\<lambda>f. f \<noteq> Post) flags)"

datatype 'x order_setter =
    SetPrice "'x price" | SetPrice2 "'x price" | SetLeverage u8 | SetMargin bool | SetOflags "oflag list"
  | SetReduceOnly bool | SetStpType stp_type | SetTrigger trigger_kind | SetTimeInForce time_in_force | SetDisplayVol 'x
  | SetStartTime time_spec | SetExpireTime time_spec | SetUserref int | SetClOrdId string
  | SetConditionalClose "'x conditional_close" | SetValidateOnly bool | SetOrderType order_type | SetPostOnly bool

fun order_set :: "'x order_setter \<Rightarrow> 'x order_request \<Rightarrow> 'x order_request" where
  "order_set (SetPrice p) r = r\<lparr>oq_price := Some p\<rparr>"
| "order_set (SetPrice2 p) r = r\<lparr>oq_price2 := Some p\<rparr>"
| "order_set (SetLeverage l) r = r\<lparr>oq_leverage := Some l\<rparr>"
| "order_set (SetMargin b) r = r\<lparr>oq_margin := b\<rparr>"
| "order_set (SetOflags fs) r = r\<lparr>oq_oflags := fs\<rparr>"
| "order_set (SetReduceOnly b) r = r\<lparr>oq_reduce_only := Some b\<rparr>"
| "order_set (SetStpType s) r = r\<lparr>oq_stp_type := Some s\<rparr>"
| "order_set (SetTrigger t) r = r\<lparr>oq_trigger := Some t\<rparr>"
| "order_set (SetTimeInForce t) r = r\<lparr>oq_time_in_force := Some t\<rparr>"
| "order_set (SetDisplayVol d) r = r\<lparr>oq_display_vol := Some d\<rparr>"
| "order_set (SetStartTime t) r = r\<lparr>oq_start_time := Some t\<rparr>"
| "order_set (SetExpireTime t) r = r\<lparr>oq_expire_time := Some t\<rparr>"
| "order_set (SetUserref u) r = r\<lparr>oq_userref := Some u\<rparr>"
| "order_set (SetClOrdId c) r = r\<lparr>oq_cl_ord_id := Some c\<rparr>"
| "order_set (SetConditionalClose c) r = r\<lparr>oq_conditional_close := Some c\<rparr>"
| "order_set (SetValidateOnly b) r = r\<lparr>oq_validate := b\<rparr>"
| "order_set (SetOrderType t) r = r\<lparr>oq_order_type := t\<rparr>"
| "order_set (SetPostOnly on) r = r\<lparr>oq_oflags := set_post_only on (oq_oflags r)\<rparr>"

record 'x amend_request =
  am_cl_ord_id :: string
  am_order_volume :: "'x option"
  am_limit_price :: "'x price option"
  am_post_only :: "bool option"
  am_trigger_price :: "'x price option"
  am_display_qty :: "'x option"

definition amend_request_new :: "string \<Rightarrow> 'x amend_request" where
  "amend_request_new c =
     \<lparr>am_cl_ord_id = c, am_order_volume = None, am_limit_price = None, am_post_only = None, am_trigger_price = None, am_display_qty = None\<rparr>"

record 'x batch_order_entry =
  be_ordertype :: order_type
  be_side :: side
  be_volume :: 'x
  be_price :: "'x price option"
  be_price2 :: "'x price option"
  be_leverage :: "u8 option"
  be_margin :: bool
  be_reduce_only :: "bool option"
  be_stp_type :: "stp_type option"
  be_trigger :: "trigger_kind option"
  be_display_vol :: "'x option"
  be_start_time :: "time_spec option"
  be_expire_time :: "time_spec option"
  be_cl_ord_id :: "string option"
  be_userref :: "int option"
  be_oflags :: "oflag list option"
  be_time_in_force :: "time_in_force option"
  be_conditional_close :: "'x conditional_close option"

definition batch_order_entry_new :: "order_type \<Rightarrow> side \<Rightarrow> 'x \<Rightarrow> 'x batch_order_entry" where
  "batch_order_entry_new t s v =
     \<lparr>be_ordertype = t, be_side = s, be_volume = v, be_price = None, be_price2 = None, be_leverage = None, be_margin = False,
      be_reduce_only = None, be_stp_type = None, be_trigger = None, be_display_vol = None, be_start_time = None, be_expire_time = None,
      be_cl_ord_id = None, be_userref = None, be_oflags = None, be_time_in_force = None, be_conditional_close = None\<rparr>"

record 'x batch_request =
  ba_pair :: string
  ba_orders :: "'x batch_order_entry list"
  ba_deadline :: "duration option"
  ba_validate :: bool

definition batch_request_new :: "string \<Rightarrow> 'x batch_order_entry list \<Rightarrow> 'x batch_request" where
  "batch_request_new pair orders = \<lparr>ba_pair = pair, ba_orders = orders, ba_deadline = None, ba_validate = False\<rparr>"

section \<open>Errors\<close>

text \<open>The texts of the SDK's own rejections, by their cause.\<close>

datatype order_detail =
    TrailingNotPositive | TrailingAbsolute | TrailingMissing | TrailingLimitMissing | TrailingLimitAbsolute
  | DeadlineUnsupported | Unplaceable string string | BatchUnplaceable string string | UnknownTypePlaced | FokNotLimit
  | KrakenDetail string

datatype malformed_detail = ShapeDetail shape_text | MissingAmendId | MissingClOrdId | MissingCount | RowCount nat nat

datatype transport = Rest | WsV2Public | WsV2Auth | WsV2L3 | FuturesRest | FuturesWs

datatype trade_error =
    InsufficientFunds "string option"
  | InsufficientMargin "string option"
  | InvalidOrder order_detail "string option"
  | ConflictingOrderIdentifiers
  | SettlePositionRequiresLeverage
  | ReduceOnlyRequiresLeverage
  | EmptyAmendRequest
  | NoAmendableParameters "string option"
  | UnknownOrder "string option"
  | BatchSizeOutOfRange u32 u32
  | SystemStatusBlocked string string
  | TradeRateLimited "nat option" "string option"
  | TradeTransport transport_error_kind bool "string option"
  | MalformedResponse malformed_detail "string option"
  | TradeClientClosed
  | TradeLoopDead
  | WsUnsupportedOrderField string
  | RestUnsupportedOrderField string
  | UnsupportedTransport transport "transport list"
  | WsSurfaceUnavailable
  | TradeQueueFull "string option"
  | TradeUnknown string string "string option"

definition is_sent_ambiguous :: "transport_error_kind \<Rightarrow> bool" where
  "is_sent_ambiguous kind \<longleftrightarrow>
     (case kind of RequestSentNoResponse \<Rightarrow> True | SocketReset \<Rightarrow> True | AbnormalClose _ \<Rightarrow> True | CloseFrame _ _ \<Rightarrow> True | _ \<Rightarrow> False)"

fun trade_code :: "trade_error \<Rightarrow> string" where
  "trade_code (InsufficientFunds _) = ''INSUFFICIENT_FUNDS''"
| "trade_code (InsufficientMargin _) = ''INSUFFICIENT_MARGIN''"
| "trade_code (InvalidOrder _ _) = ''INVALID_ORDER''"
| "trade_code ConflictingOrderIdentifiers = ''INVALID_CL_ORD_ID''"
| "trade_code (NoAmendableParameters _) = ''NON_AMENDABLE_FIELD''"
| "trade_code (UnknownOrder _) = ''ORDER_NOT_FOUND''"
| "trade_code (SystemStatusBlocked _ _) = ''SYSTEM_STATUS_MAINTENANCE''"
| "trade_code (TradeRateLimited _ _) = ''RATE_LIMIT_EXCEEDED''"
| "trade_code (TradeQueueFull _) = ''QUEUE_FULL''"
| "trade_code (TradeTransport _ _ _) = ''CONNECTION_ERROR''"
| "trade_code (MalformedResponse _ _) = ''MALFORMED_RESPONSE''"
| "trade_code TradeClientClosed = ''CLIENT_CLOSED''"
| "trade_code TradeLoopDead = ''LOOP_DEAD''"
| "trade_code (TradeUnknown _ _ _) = ''UNKNOWN''"
| "trade_code _ = ''INVALID_ARGUMENTS''"

fun trade_retryable :: "trade_error \<Rightarrow> bool" where
  "trade_retryable (TradeRateLimited _ _) = True"
| "trade_retryable (TradeQueueFull _) = True"
| "trade_retryable (TradeTransport kind transient _) = (transient \<and> \<not> is_sent_ambiguous kind)"
| "trade_retryable _ = False"

text \<open>The first stamp wins.\<close>

definition stamp :: "string \<Rightarrow> string option \<Rightarrow> string option" where
  "stamp i r = (case r of None \<Rightarrow> Some i | Some j \<Rightarrow> Some j)"

fun with_request_id :: "string \<Rightarrow> trade_error \<Rightarrow> trade_error" where
  "with_request_id i (InsufficientFunds r) = InsufficientFunds (stamp i r)"
| "with_request_id i (InsufficientMargin r) = InsufficientMargin (stamp i r)"
| "with_request_id i (NoAmendableParameters r) = NoAmendableParameters (stamp i r)"
| "with_request_id i (UnknownOrder r) = UnknownOrder (stamp i r)"
| "with_request_id i (InvalidOrder d r) = InvalidOrder d (stamp i r)"
| "with_request_id i (TradeRateLimited t r) = TradeRateLimited t (stamp i r)"
| "with_request_id i (TradeTransport k t r) = TradeTransport k t (stamp i r)"
| "with_request_id i (MalformedResponse d r) = MalformedResponse d (stamp i r)"
| "with_request_id i (TradeQueueFull r) = TradeQueueFull (stamp i r)"
| "with_request_id i (TradeUnknown c m r) = TradeUnknown c m (stamp i r)"
| "with_request_id i e = e"

definition trim_end_dots :: "string \<Rightarrow> string" where
  "trim_end_dots s = rev (dropWhile (\<lambda>c. c = CHR ''.'') (rev s))"

definition ends_with :: "string \<Rightarrow> string \<Rightarrow> bool" where
  "ends_with suf s \<longleftrightarrow> take (length suf) (rev s) = rev suf"

definition classify_kraken_error_string :: "string \<Rightarrow> trade_error" where
  "classify_kraken_error_string msg =
     (if is_kraken_rate_limit msg then TradeRateLimited (parse_throttle_code msg) None
      else if str_contains ''Insufficient funds'' msg then InsufficientFunds None
      else if str_contains ''Insufficient'' msg \<and> str_contains ''margin'' msg then InsufficientMargin None
      else if str_contains ''No amendable parameters'' msg then NoAmendableParameters None
      else if ends_with ''Unknown order'' (trim_end_dots msg) then UnknownOrder None
      else if str_contains ''EOrder'' msg \<or> str_contains ''Invalid arguments'' msg \<or> str_contains ''price(s) not found'' msg \<or>
         str_contains ''Price(s) not found'' msg \<or> str_contains ''Invalid timeout argument'' msg
      then InvalidOrder (KrakenDetail (trim_end_dots msg)) None
      else TradeUnknown (kraken_eclass_code msg) msg None)"

text \<open>\<open>auth_text\<close> is the text of an authentication error.\<close>

definition trade_from_rest :: "(auth_error \<Rightarrow> string) \<Rightarrow> rest_error \<Rightarrow> trade_error" where
  "trade_from_rest auth_text e =
     (case e of
        RestTransport kind transient \<Rightarrow> TradeTransport kind transient None
      | UnexpectedShape s \<Rightarrow> MalformedResponse (ShapeDetail s) None
      | RestRateLimit _ \<Rightarrow> TradeRateLimited None None
      | RestAuth a \<Rightarrow> TradeUnknown ''AUTH'' (auth_text a) None
      | RestKraken codes \<Rightarrow> classify_kraken_error_string (case codes of [] \<Rightarrow> [] | c # _ \<Rightarrow> c))"

section \<open>Transports\<close>

definition ws_unrepresentable_field :: "bool \<Rightarrow> 'x price option \<Rightarrow> 'x price option \<Rightarrow> string option" where
  "ws_unrepresentable_field has_leverage close_price close_price2 =
     (if has_leverage then Some ''leverage''
      else case close_price of
             Some (Offset _ _) \<Rightarrow> Some ''close[price]''
           | _ \<Rightarrow> (case close_price2 of Some (Offset _ _) \<Rightarrow> Some ''close[price2]'' | _ \<Rightarrow> None))"

definition rest_unrepresentable_field :: "bool \<Rightarrow> string option" where
  "rest_unrepresentable_field has_margin = (if has_margin then Some ''margin'' else None)"

section \<open>Validation\<close>

abbreviation invalid :: "order_detail \<Rightarrow> trade_error + unit" where
  "invalid d \<equiv> Inl (InvalidOrder d None)"

definition validate_trailing_price :: "'x dec_ops \<Rightarrow> order_type \<Rightarrow> 'x price option \<Rightarrow> 'x price option \<Rightarrow> trade_error + unit" where
  "validate_trailing_price D t price price2 =
     (if t \<notin> {TrailingStop, TrailingStopLimit} then Inr ()
      else case price of
             None \<Rightarrow> invalid TrailingMissing
           | Some (Absolute _) \<Rightarrow> invalid TrailingAbsolute
           | Some (Offset _ v) \<Rightarrow>
               if \<not> dx_above_zero D v then invalid TrailingNotPositive
               else if t = TrailingStopLimit \<and> price2 = None then invalid TrailingLimitMissing
               else (case price2 of Some (Absolute _) \<Rightarrow> invalid TrailingLimitAbsolute | _ \<Rightarrow> Inr ()))"

definition reject_unsupported_deadline :: "duration option \<Rightarrow> trade_error + unit" where
  "reject_unsupported_deadline d = (if d \<noteq> None then invalid DeadlineUnsupported else Inr ())"

definition validate_order_gates :: "order_type \<Rightarrow> u8 option \<Rightarrow> bool \<Rightarrow> bool option \<Rightarrow> time_in_force option \<Rightarrow> trade_error + unit" where
  "validate_order_gates t leverage margin reduce_only tif =
     (if t = UnknownOrderType then invalid UnknownTypePlaced
      else if t = SettlePosition \<and> (case leverage of None \<Rightarrow> True | Some l \<Rightarrow> l = 0) then Inl SettlePositionRequiresLeverage
      else if reduce_only = Some True \<and> (case leverage of None \<Rightarrow> True | Some l \<Rightarrow> l \<le> 1) \<and> \<not> margin then Inl ReduceOnlyRequiresLeverage
      else if tif = Some Fok \<and> \<not> is_limit_price_bearing t then invalid FokNotLimit
      else Inr ())"

definition validate_close :: "'x dec_ops \<Rightarrow> 'x conditional_close option \<Rightarrow> trade_error + unit" where
  "validate_close D cc =
     (case cc of
        None \<Rightarrow> Inr ()
      | Some c \<Rightarrow> validate_trailing_price D (to_order_type (cc_ordertype c)) (Some (cc_price c)) (cc_price2 c))"

text \<open>The operator \<open>?\<close> between two checks.\<close>

definition also_check :: "trade_error + unit \<Rightarrow> trade_error + unit \<Rightarrow> trade_error + unit" where
  "also_check a b = (case a of Inl e \<Rightarrow> Inl e | Inr _ \<Rightarrow> b)"

definition validate_add_order :: "'x dec_ops \<Rightarrow> 'x order_request \<Rightarrow> trade_error + unit" where
  "validate_add_order D r =
     (if oq_userref r \<noteq> None \<and> oq_cl_ord_id r \<noteq> None then Inl ConflictingOrderIdentifiers
      else (let (_, close_price, close_price2) = flat_legs (oq_conditional_close r)
            in case (rest_unrepresentable_field (oq_margin r), ws_unrepresentable_field (oq_leverage r \<noteq> None) close_price close_price2) of
                 (Some r1, Some w1) \<Rightarrow> invalid (Unplaceable r1 w1)
               | _ \<Rightarrow>
                   also_check (validate_order_gates (oq_order_type r) (oq_leverage r) (oq_margin r) (oq_reduce_only r) (oq_time_in_force r))
                     (also_check (validate_trailing_price D (oq_order_type r) (oq_price r) (oq_price2 r))
                       (validate_close D (oq_conditional_close r)))))"

definition order_validate :: "'x dec_ops \<Rightarrow> 'x order_request \<Rightarrow> trade_error + unit" where
  "order_validate D r = also_check (reject_unsupported_deadline (oq_deadline r)) (validate_add_order D r)"

definition amend_validate :: "'x amend_request \<Rightarrow> trade_error + unit" where
  "amend_validate r =
     (if am_order_volume r = None \<and> am_limit_price r = None \<and> am_post_only r = None \<and> am_trigger_price r = None \<and> am_display_qty r = None
      then Inl EmptyAmendRequest else Inr ())"

fun find_map :: "('a \<Rightarrow> 'b option) \<Rightarrow> 'a list \<Rightarrow> 'b option" where
  "find_map f [] = None"
| "find_map f (x # xs) = (case f x of None \<Rightarrow> find_map f xs | Some y \<Rightarrow> Some y)"

definition entry_ws_blocked :: "'x batch_order_entry \<Rightarrow> string option" where
  "entry_ws_blocked e =
     (let (_, cp, cp2) = flat_legs (be_conditional_close e) in ws_unrepresentable_field (be_leverage e \<noteq> None) cp cp2)"

definition entry_validate :: "'x dec_ops \<Rightarrow> 'x batch_order_entry \<Rightarrow> trade_error + unit" where
  "entry_validate D e =
     also_check (validate_trailing_price D (be_ordertype e) (be_price e) (be_price2 e))
       (also_check (validate_order_gates (be_ordertype e) (be_leverage e) (be_margin e) (be_reduce_only e) (be_time_in_force e))
         (validate_close D (be_conditional_close e)))"

fun check_all :: "('a \<Rightarrow> trade_error + unit) \<Rightarrow> 'a list \<Rightarrow> trade_error + unit" where
  "check_all f [] = Inr ()"
| "check_all f (x # xs) = also_check (f x) (check_all f xs)"

definition batch_validate :: "'x dec_ops \<Rightarrow> 'x batch_request \<Rightarrow> trade_error + unit" where
  "batch_validate D r =
     also_check (reject_unsupported_deadline (ba_deadline r))
       (let n = (word_of_nat (length (ba_orders r)) :: u32)
        in if n < 2 \<or> n > 15 then Inl (BatchSizeOutOfRange 2 15)
           else case (find_map (\<lambda>e. rest_unrepresentable_field (be_margin e)) (ba_orders r), find_map entry_ws_blocked (ba_orders r)) of
                  (Some r1, Some w1) \<Rightarrow> invalid (BatchUnplaceable r1 w1)
                | _ \<Rightarrow> check_all (entry_validate D) (ba_orders r))"

section \<open>REST forms\<close>

abbreviation flag_text :: "bool \<Rightarrow> string option" where
  "flag_text b \<equiv> if b then Some ''true'' else None"

definition add_order_to_form :: "'x dec_ops \<Rightarrow> 'x order_request \<Rightarrow> form" where
  "add_order_to_form D r =
     [(''pair'', oq_pair r), (''volume'', dx_text D (oq_volume r)), (''ordertype'', order_type_str (oq_order_type r))] @
     field ''price'' (map_option (price_rest_form D) (oq_price r)) @
     field ''price2'' (map_option (price_rest_form D) (oq_price2 r)) @
     field ''leverage'' (map_option (dec_string \<circ> unat) (oq_leverage r)) @
     field ''oflags'' (oflags_to_wire (oq_oflags r)) @
     field ''reduce_only'' (flag_text (oq_reduce_only r = Some True)) @
     field ''stptype'' (map_option stp_type_str (oq_stp_type r)) @
     field ''trigger'' (map_option trigger_kind_str (oq_trigger r)) @
     field ''timeinforce'' (map_option tif_str (oq_time_in_force r)) @
     field ''displayvol'' (map_option (dx_text D) (oq_display_vol r)) @
     field ''starttm'' (map_option time_rest_form (oq_start_time r)) @
     field ''expiretm'' (map_option time_rest_form (oq_expire_time r)) @
     field ''userref'' (map_option int_text (oq_userref r)) @
     field ''cl_ord_id'' (oq_cl_ord_id r) @
     (case oq_conditional_close r of None \<Rightarrow> [] | Some c \<Rightarrow> push_close_form D ''close'' c) @
     field ''validate'' (flag_text (oq_validate r))"

definition order_to_form :: "'x dec_ops \<Rightarrow> 'x order_request \<Rightarrow> form" where
  "order_to_form D r = add_order_to_form D r @ [(''type'', side_str (oq_side r))]"

definition amend_to_form :: "'x dec_ops \<Rightarrow> 'x amend_request \<Rightarrow> form" where
  "amend_to_form D r =
     [(''cl_ord_id'', am_cl_ord_id r)] @
     field ''order_qty'' (map_option (dx_text D) (am_order_volume r)) @
     field ''limit_price'' (map_option (price_rest_form D) (am_limit_price r)) @
     field ''post_only'' (map_option (\<lambda>b. if b then ''true'' else ''false'') (am_post_only r)) @
     field ''trigger_price'' (map_option (price_rest_form D) (am_trigger_price r)) @
     field ''display_qty'' (map_option (dx_text D) (am_display_qty r))"

definition cancel_to_form :: "string \<Rightarrow> form" where
  "cancel_to_form c = [(''cl_ord_id'', c)]"

definition deadman_to_form :: "u32 \<Rightarrow> form" where
  "deadman_to_form timeout_secs = [(''timeout'', dec_string (unat timeout_secs))]"

definition bracket :: "nat \<Rightarrow> string \<Rightarrow> string" where
  "bracket n k = ''orders['' @ dec_string n @ ''][''  @ k @ '']''"

definition entry_to_form :: "'x dec_ops \<Rightarrow> nat \<Rightarrow> 'x batch_order_entry \<Rightarrow> form" where
  "entry_to_form D n e =
     [(bracket n ''type'', side_str (be_side e)), (bracket n ''ordertype'', order_type_str (be_ordertype e)),
      (bracket n ''volume'', dx_text D (be_volume e))] @
     field (bracket n ''price'') (map_option (price_rest_form D) (be_price e)) @
     field (bracket n ''price2'') (map_option (price_rest_form D) (be_price2 e)) @
     field (bracket n ''leverage'') (map_option (dec_string \<circ> unat) (be_leverage e)) @
     field (bracket n ''reduce_only'') (flag_text (be_reduce_only e = Some True)) @
     field (bracket n ''stptype'') (map_option stp_type_str (be_stp_type e)) @
     field (bracket n ''trigger'') (map_option trigger_kind_str (be_trigger e)) @
     field (bracket n ''displayvol'') (map_option (dx_text D) (be_display_vol e)) @
     field (bracket n ''starttm'') (map_option time_rest_form (be_start_time e)) @
     field (bracket n ''expiretm'') (map_option time_rest_form (be_expire_time e)) @
     field (bracket n ''cl_ord_id'') (be_cl_ord_id e) @
     field (bracket n ''userref'') (map_option int_text (be_userref e)) @
     field (bracket n ''oflags'') (Option.bind (be_oflags e) oflags_to_wire) @
     field (bracket n ''timeinforce'') (map_option tif_str (be_time_in_force e)) @
     (case be_conditional_close e of None \<Rightarrow> [] | Some c \<Rightarrow> push_close_form D (bracket n ''close'') c)"

definition batch_to_form :: "'x dec_ops \<Rightarrow> 'x batch_request \<Rightarrow> form" where
  "batch_to_form D r =
     [(''pair'', ba_pair r)] @ concat (map (\<lambda>(n, e). entry_to_form D n e) (enumerate 0 (ba_orders r))) @
     field ''validate'' (flag_text (ba_validate r))"

end
