(* ===== verification/Order_Wire.thy ===== *)
theory Order_Wire
  imports Order_Requests
begin

text \<open>
  Orders on the WebSocket: the composers and reply decoders of \<open>src/rust/src/api/trade/ws_compose.rs\<close>. A \<open>serde_json\<close> map is the
  association list of an object, built in the order of the code.
\<close>

section \<open>Composing\<close>

definition decimal_to_json :: "'x dec_ops \<Rightarrow> 'x \<Rightarrow> json" where
  "decimal_to_json D d = (let s = dx_text D d in if dx_number D s then JNumber s else JStr s)"

record 'x add_order_ws_view =
  vw_side :: string
  vw_pair :: string
  vw_volume :: 'x
  vw_order_type :: order_type
  vw_price :: "'x price option"
  vw_price2 :: "'x price option"
  vw_oflags :: "oflag list"
  vw_margin :: bool
  vw_reduce_only :: "bool option"
  vw_stp_type :: "stp_type option"
  vw_trigger :: "trigger_kind option"
  vw_time_in_force :: "time_in_force option"
  vw_display_vol :: "'x option"
  vw_start_time :: "time_spec option"
  vw_expire_time :: "time_spec option"
  vw_userref :: "int option"
  vw_cl_ord_id :: "string option"
  vw_close_ordertype :: "order_type option"
  vw_close_price :: "'x price option"
  vw_close_price2 :: "'x price option"
  vw_validate :: bool

datatype ws_price_shape = NoPrice | LimitShape | TriggerShape bool

fun price_shape :: "order_type \<Rightarrow> ws_price_shape" where
  "price_shape Market = NoPrice"
| "price_shape SettlePosition = NoPrice"
| "price_shape Limit = LimitShape"
| "price_shape Iceberg = LimitShape"
| "price_shape StopLoss = TriggerShape False"
| "price_shape TakeProfit = TriggerShape False"
| "price_shape StopLossLimit = TriggerShape True"
| "price_shape TakeProfitLimit = TriggerShape True"
| "price_shape TrailingStop = TriggerShape False"
| "price_shape TrailingStopLimit = TriggerShape True"
| "price_shape UnknownOrderType = NoPrice"

type_synonym obj = "(string \<times> json) list"

text \<open>\<open>p.insert(k, v)\<close> under an \<open>if let Some\<close>.\<close>

definition put :: "string \<Rightarrow> json option \<Rightarrow> obj \<Rightarrow> obj" where
  "put k v p = (case v of None \<Rightarrow> p | Some j \<Rightarrow> obj_insert k j p)"

definition put_price :: "'x dec_ops \<Rightarrow> string \<Rightarrow> 'x price option \<Rightarrow> obj \<Rightarrow> obj" where
  "put_price D k price p =
     (case price of
        None \<Rightarrow> p
      | Some x \<Rightarrow> (case price_to_ws x of (v, t) \<Rightarrow> obj_insert (k @ ''_type'') (JStr t) (obj_insert k (decimal_to_json D v) p)))"

definition trigger_object :: "'x dec_ops \<Rightarrow> 'x add_order_ws_view \<Rightarrow> json" where
  "trigger_object D v = JObj (put_price D ''price'' (vw_price v) (put ''reference'' (map_option (JStr \<circ> trigger_kind_str) (vw_trigger v)) []))"

definition put_prices :: "'x dec_ops \<Rightarrow> 'x add_order_ws_view \<Rightarrow> obj \<Rightarrow> obj" where
  "put_prices D v p =
     (case price_shape (vw_order_type v) of
        NoPrice \<Rightarrow> p
      | LimitShape \<Rightarrow> put_price D ''limit_price'' (vw_price v) p
      | TriggerShape limit_leg \<Rightarrow>
          (let p1 = obj_insert ''triggers'' (trigger_object D v) p
           in if limit_leg then put_price D ''limit_price'' (vw_price2 v) p1 else p1))"

fun put_flag :: "oflag \<Rightarrow> obj \<Rightarrow> obj" where
  "put_flag Post p = obj_insert ''post_only'' (JBool True) p"
| "put_flag Fcib p = obj_insert ''fee_preference'' (JStr ''base'') p"
| "put_flag Fciq p = (if map_of p ''fee_preference'' = None then obj_insert ''fee_preference'' (JStr ''quote'') p else p)"
| "put_flag Nompp p = obj_insert ''no_mpp'' (JBool True) p"

definition json_int :: "int \<Rightarrow> json" where
  "json_int n = (if n < 0 then JNumber (int_text n) else JNum (nat n))"

definition close_object :: "'x dec_ops \<Rightarrow> order_type \<Rightarrow> 'x price option \<Rightarrow> 'x price option \<Rightarrow> json" where
  "close_object D t price price2 =
     (let plain = map_option (decimal_to_json D \<circ> fst \<circ> price_to_ws);
          cond = obj_insert ''order_type'' (JStr (order_type_str t)) []
      in JObj (if t \<in> {StopLoss, TakeProfit, StopLossLimit, TakeProfitLimit}
               then put ''limit_price'' (plain price2) (put ''trigger_price'' (plain price) cond)
               else if t = Limit then put ''limit_price'' (plain price) cond
               else cond))"

abbreviation true_if :: "bool \<Rightarrow> json option" where
  "true_if b \<equiv> if b then Some (JBool True) else None"

definition compose_add_order_params :: "'x dec_ops \<Rightarrow> 'x add_order_ws_view \<Rightarrow> json" where
  "compose_add_order_params D v =
     (let p0 = obj_insert ''symbol'' (JStr (vw_pair v)) (obj_insert ''order_qty'' (decimal_to_json D (vw_volume v))
                 (obj_insert ''side'' (JStr (vw_side v)) (obj_insert ''order_type'' (JStr (order_type_str (vw_order_type v))) [])));
          p1 = fold put_flag (vw_oflags v) (put_prices D v (put ''cl_ord_id'' (map_option JStr (vw_cl_ord_id v)) p0));
          p2 = put ''reduce_only'' (true_if (vw_reduce_only v = Some True)) (put ''margin'' (true_if (vw_margin v)) p1);
          p3 = put ''time_in_force'' (map_option (JStr \<circ> tif_str) (vw_time_in_force v))
                 (put ''stp_type'' (map_option (JStr \<circ> stp_type_ws) (vw_stp_type v)) p2);
          p4 = put ''expire_time'' (map_option (JStr \<circ> time_to_ws) (vw_expire_time v))
                 (put ''effective_time'' (map_option (JStr \<circ> time_to_ws) (vw_start_time v))
                   (put ''display_qty'' (map_option (decimal_to_json D) (vw_display_vol v)) p3));
          p5 = put ''conditional'' (map_option (\<lambda>t. close_object D t (vw_close_price v) (vw_close_price2 v)) (vw_close_ordertype v))
                 (put ''order_userref'' (map_option json_int (vw_userref v)) p4)
      in JObj (put ''validate'' (true_if (vw_validate v)) p5))"

text \<open>The view of a single order and of an entry of a batch.\<close>

definition order_view :: "'x order_request \<Rightarrow> 'x add_order_ws_view" where
  "order_view r =
     (let (ct, cp, cp2) = flat_legs (oq_conditional_close r)
      in \<lparr>vw_side = side_str (oq_side r), vw_pair = oq_pair r, vw_volume = oq_volume r, vw_order_type = oq_order_type r,
          vw_price = oq_price r, vw_price2 = oq_price2 r, vw_oflags = oq_oflags r, vw_margin = oq_margin r,
          vw_reduce_only = oq_reduce_only r, vw_stp_type = oq_stp_type r, vw_trigger = oq_trigger r,
          vw_time_in_force = oq_time_in_force r, vw_display_vol = oq_display_vol r, vw_start_time = oq_start_time r,
          vw_expire_time = oq_expire_time r, vw_userref = oq_userref r, vw_cl_ord_id = oq_cl_ord_id r, vw_close_ordertype = ct,
          vw_close_price = cp, vw_close_price2 = cp2, vw_validate = oq_validate r\<rparr>)"

definition entry_view :: "string \<Rightarrow> 'x batch_order_entry \<Rightarrow> 'x add_order_ws_view" where
  "entry_view pair e =
     (let (ct, cp, cp2) = flat_legs (be_conditional_close e)
      in \<lparr>vw_side = side_str (be_side e), vw_pair = pair, vw_volume = be_volume e, vw_order_type = be_ordertype e,
          vw_price = be_price e, vw_price2 = be_price2 e, vw_oflags = (case be_oflags e of None \<Rightarrow> [] | Some fs \<Rightarrow> fs),
          vw_margin = be_margin e, vw_reduce_only = be_reduce_only e, vw_stp_type = be_stp_type e, vw_trigger = be_trigger e,
          vw_time_in_force = be_time_in_force e, vw_display_vol = be_display_vol e, vw_start_time = be_start_time e,
          vw_expire_time = be_expire_time e, vw_userref = be_userref e, vw_cl_ord_id = be_cl_ord_id e, vw_close_ordertype = ct,
          vw_close_price = cp, vw_close_price2 = cp2, vw_validate = False\<rparr>)"

definition without_symbol :: "json \<Rightarrow> json" where
  "without_symbol j = (case j of JObj p \<Rightarrow> JObj (AList.delete ''symbol'' p) | _ \<Rightarrow> j)"

fun compose_entries :: "'x dec_ops \<Rightarrow> string \<Rightarrow> 'x batch_order_entry list \<Rightarrow> trade_error + json list" where
  "compose_entries D pair [] = Inr []"
| "compose_entries D pair (e # es) =
     (case entry_ws_blocked e of
        Some k \<Rightarrow> Inl (WsUnsupportedOrderField k)
      | None \<Rightarrow>
          (case compose_entries D pair es of
             Inl err \<Rightarrow> Inl err
           | Inr js \<Rightarrow> Inr (without_symbol (compose_add_order_params D (entry_view pair e)) # js)))"

definition compose_batch_add_params :: "'x dec_ops \<Rightarrow> 'x batch_request \<Rightarrow> trade_error + json" where
  "compose_batch_add_params D r =
     (case compose_entries D (ba_pair r) (ba_orders r) of
        Inl e \<Rightarrow> Inl e
      | Inr orders \<Rightarrow>
          Inr (JObj (put ''validate'' (true_if (ba_validate r))
            (obj_insert ''orders'' (JArr orders) (obj_insert ''symbol'' (JStr (ba_pair r)) [])))))"

definition compose_amend_order_params :: "'x dec_ops \<Rightarrow> 'x amend_request \<Rightarrow> json" where
  "compose_amend_order_params D r =
     JObj (put_price D ''trigger_price'' (am_trigger_price r)
       (put ''post_only'' (map_option JBool (am_post_only r))
         (put_price D ''limit_price'' (am_limit_price r)
           (put ''order_qty'' (map_option (decimal_to_json D) (am_order_volume r))
             (obj_insert ''cl_ord_id'' (JStr (am_cl_ord_id r)) [])))))"

definition compose_cancel_order_params :: "string \<Rightarrow> json" where
  "compose_cancel_order_params c = JObj [(''cl_ord_id'', JArr [JStr c])]"

section \<open>Decoding replies\<close>

fun json_str :: "json \<Rightarrow> string option" where
  "json_str (JStr s) = Some s"
| "json_str _ = None"

definition text_of :: "json \<Rightarrow> string \<Rightarrow> string option" where
  "text_of j k = Option.bind (json_get j k) json_str"

definition nonempty_text :: "json \<Rightarrow> string \<Rightarrow> string option" where
  "nonempty_text j k = (case text_of j k of Some s \<Rightarrow> if s = [] then None else Some s | None \<Rightarrow> None)"

definition classify_ws_error :: "string option \<Rightarrow> trade_error" where
  "classify_ws_error e = classify_kraken_error_string (case e of None \<Rightarrow> ''WS request rejected'' | Some m \<Rightarrow> m)"

record batch_order_result =
  br_txid :: "string option"
  br_error :: "string option"

definition batch_row :: "json \<Rightarrow> batch_order_result" where
  "batch_row row = \<lparr>br_txid = nonempty_text row ''order_id'', br_error = text_of row ''error''\<rparr>"

definition decode_ws_batch_add :: "ws_response \<Rightarrow> trade_error + batch_order_result list" where
  "decode_ws_batch_add resp =
     (case r_result resp of JArr rows \<Rightarrow> Inr (map batch_row rows) | _ \<Rightarrow> Inl (classify_ws_error (r_error resp)))"

record add_order_response =
  ar_txid :: "string option"
  ar_cl_ord_id :: "string option"

text \<open>\<open>new_id\<close> is \<open>ClOrdId::new\<close>.\<close>

definition decode_ws_add_order :: "(string \<Rightarrow> string option) \<Rightarrow> ws_response \<Rightarrow> string option \<Rightarrow> trade_error + add_order_response" where
  "decode_ws_add_order new_id resp fallback =
     (if \<not> r_success resp then Inl (classify_ws_error (r_error resp))
      else Inr \<lparr>ar_txid = nonempty_text (r_result resp) ''order_id'',
                ar_cl_ord_id = (case Option.bind (text_of (r_result resp) ''cl_ord_id'') new_id of Some c \<Rightarrow> Some c | None \<Rightarrow> fallback)\<rparr>)"

definition decode_ws_amend_order :: "ws_response \<Rightarrow> trade_error + string" where
  "decode_ws_amend_order resp =
     (if \<not> r_success resp then Inl (classify_ws_error (r_error resp))
      else case nonempty_text (r_result resp) ''amend_id'' of
             None \<Rightarrow> Inl (MalformedResponse MissingAmendId None)
           | Some i \<Rightarrow> Inr i)"

record cancel_order_response =
  cr_count :: u32
  cr_pending :: bool

definition decode_ws_cancel_order :: "ws_response \<Rightarrow> trade_error + cancel_order_response" where
  "decode_ws_cancel_order resp =
     (if \<not> r_success resp then Inl (classify_ws_error (r_error resp))
      else case text_of (r_result resp) ''cl_ord_id'' of
             None \<Rightarrow> Inl (MalformedResponse MissingClOrdId None)
           | Some _ \<Rightarrow> Inr \<lparr>cr_count = 1, cr_pending = False\<rparr>)"

fun json_u64 :: "json \<Rightarrow> u64 option" where
  "json_u64 (JNum n) = (if n < 2 ^ 64 then Some (word_of_nat n) else None)"
| "json_u64 (JNumber s) = map_option word_of_nat (parse_u64 s)"
| "json_u64 _ = None"

definition decode_ws_cancel_all :: "ws_response \<Rightarrow> trade_error + u32" where
  "decode_ws_cancel_all resp =
     (if \<not> r_success resp then Inl (classify_ws_error (r_error resp))
      else case Option.bind (json_get (r_result resp) ''count'') json_u64 of
             None \<Rightarrow> Inl (MalformedResponse MissingCount None)
           | Some n \<Rightarrow> Inr (ucast n))"

record deadman_response =
  dr_current_time :: string
  dr_trigger_time :: "string option"

text \<open>\<open>get\<close> of the first key, else of the second, then as a text, else the empty one.\<close>

definition text_or_empty :: "json \<Rightarrow> string \<Rightarrow> string \<Rightarrow> string" where
  "text_or_empty j k k' =
     (case (case json_get j k of Some v \<Rightarrow> Some v | None \<Rightarrow> json_get j k') of
        Some (JStr s) \<Rightarrow> s | _ \<Rightarrow> [])"

definition decode_ws_deadman :: "ws_response \<Rightarrow> trade_error + deadman_response" where
  "decode_ws_deadman resp =
     (if \<not> r_success resp then Inl (classify_ws_error (r_error resp))
      else let trigger = text_or_empty (r_result resp) ''triggerTime'' ''trigger_time''
           in Inr \<lparr>dr_current_time = text_or_empty (r_result resp) ''currentTime'' ''current_time'',
                   dr_trigger_time = (if trigger = [] \<or> trigger = ''0'' then None else Some trigger)\<rparr>)"

section \<open>Placing\<close>

text \<open>
  What the executors of \<open>api/trade/executors.rs\<close> hand to each transport before they send it: for REST the form with the retry policy, for
  the WebSocket the parameters, or the rejection.
\<close>

definition placement_policy :: "bool \<Rightarrow> retry_policy" where
  "placement_policy dry = (if dry then never_retry_except_nonce else never_retry)"

definition order_rest_call :: "'x dec_ops \<Rightarrow> 'x order_request \<Rightarrow> trade_error + form \<times> retry_policy" where
  "order_rest_call D r =
     (case order_validate D r of
        Inl e \<Rightarrow> Inl e
      | Inr _ \<Rightarrow>
          (case rest_unrepresentable_field (oq_margin r) of
             Some f \<Rightarrow> Inl (RestUnsupportedOrderField f)
           | None \<Rightarrow> Inr (order_to_form D r, placement_policy (oq_validate r))))"

definition order_ws_params :: "'x dec_ops \<Rightarrow> 'x order_request \<Rightarrow> trade_error + json" where
  "order_ws_params D r =
     (case order_validate D r of
        Inl e \<Rightarrow> Inl e
      | Inr _ \<Rightarrow>
          (let (_, close_price, close_price2) = flat_legs (oq_conditional_close r)
           in case ws_unrepresentable_field (oq_leverage r \<noteq> None) close_price close_price2 of
                Some f \<Rightarrow> Inl (WsUnsupportedOrderField f)
              | None \<Rightarrow> Inr (compose_add_order_params D (order_view r))))"

definition amend_rest_form :: "'x dec_ops \<Rightarrow> 'x amend_request \<Rightarrow> trade_error + form" where
  "amend_rest_form D r = (case amend_validate r of Inl e \<Rightarrow> Inl e | Inr _ \<Rightarrow> Inr (amend_to_form D r))"

definition amend_ws_params :: "'x dec_ops \<Rightarrow> 'x amend_request \<Rightarrow> trade_error + json" where
  "amend_ws_params D r =
     (case amend_validate r of
        Inl e \<Rightarrow> Inl e
      | Inr _ \<Rightarrow>
          if am_display_qty r \<noteq> None then Inl (WsUnsupportedOrderField ''display_qty'') else Inr (compose_amend_order_params D r))"

definition batch_rest_call :: "'x dec_ops \<Rightarrow> 'x batch_request \<Rightarrow> trade_error + form \<times> retry_policy" where
  "batch_rest_call D b =
     (case batch_validate D b of
        Inl e \<Rightarrow> Inl e
      | Inr _ \<Rightarrow>
          (case find_map (\<lambda>e. rest_unrepresentable_field (be_margin e)) (ba_orders b) of
             Some f \<Rightarrow> Inl (RestUnsupportedOrderField f)
           | None \<Rightarrow> Inr (batch_to_form D b, placement_policy (ba_validate b))))"

definition batch_ws_params :: "'x dec_ops \<Rightarrow> 'x batch_request \<Rightarrow> trade_error + json" where
  "batch_ws_params D b = (case batch_validate D b of Inl e \<Rightarrow> Inl e | Inr _ \<Rightarrow> compose_batch_add_params D b)"

definition guard_batch_row_count :: "nat \<Rightarrow> nat \<Rightarrow> trade_error + unit" where
  "guard_batch_row_count n got = (if n \<noteq> got then Inl (MalformedResponse (RowCount got n) None) else Inr ())"

definition decode_and_guard_ws_batch :: "nat \<Rightarrow> ws_response \<Rightarrow> trade_error + batch_order_result list" where
  "decode_and_guard_ws_batch n resp =
     (case decode_ws_batch_add resp of
        Inl e \<Rightarrow> Inl e
      | Inr rows \<Rightarrow> (case guard_batch_row_count n (length rows) of Inl e \<Rightarrow> Inl e | Inr _ \<Rightarrow> Inr rows))"

end
