(* ===== verification/Order_Properties.thy ===== *)
theory Order_Properties
  imports Order_Wire
begin

text \<open>
  What the order builders promise: a form names one order, a dry run stays a dry run on every transport, a trailing order stays
  relative, and what the validators accept has a transport that can carry it.
\<close>

section \<open>Texts name values\<close>

lemma char_digit_inj: "(n::nat) < 10 \<Longrightarrow> m < 10 \<Longrightarrow> char_of (48 + n) = (char_of (48 + m) :: char) \<longleftrightarrow> n = m"
  by (auto dest: arg_cong [of _ _ "of_char :: char \<Rightarrow> nat"])

lemma dec_string_inj: "dec_string n = dec_string m \<longleftrightarrow> n = m"
proof (induction n arbitrary: m rule: dec_string.induct)
  case (1 n)
  have ne: "dec_string k \<noteq> []" for k using dec_string_digits [of k] by simp
  show ?case
  proof (cases "n < 10")
    case True
    then show ?thesis
      using ne [of "m div 10"] by (cases "m < 10") (auto simp: dec_string.simps [of n] dec_string.simps [of m] char_digit_inj)
  next
    case n: False
    show ?thesis
    proof (cases "m < 10")
      case True
      then show ?thesis using n ne [of "n div 10"] by (auto simp: dec_string.simps [of n] dec_string.simps [of m])
    next
      case False
      then have "dec_string n = dec_string m \<longleftrightarrow> n div 10 = m div 10 \<and> n mod 10 = m mod 10"
        using n 1 by (simp add: dec_string.simps [of n] dec_string.simps [of m] char_digit_inj)
      then show ?thesis by (metis div_mult_mod_eq)
    qed
  qed
qed

lemma minus_not_digit: "CHR ''-'' \<notin> set (dec_string n)"
  using dec_string_digits [of n] by (auto simp: list_all_iff is_ascii_digit_def)

lemma int_text_inj: "int_text n = int_text m \<longleftrightarrow> n = m"
proof -
  have "dec_string k \<noteq> CHR ''-'' # dec_string l" for k l using minus_not_digit [of k] by auto
  then show ?thesis unfolding int_text_def by (auto simp: dec_string_inj) (metis)+
qed

lemma order_type_str_inj: "order_type_str a = order_type_str b \<longleftrightarrow> a = b"
  by (cases a; cases b) simp_all

lemma close_type_inj: "to_order_type a = to_order_type b \<longleftrightarrow> a = b"
  by (cases a; cases b) simp_all

lemma side_str_inj: "side_str s = side_str s' \<longleftrightarrow> s = s'"
  by (cases s; cases s'; simp)

lemma stp_type_str_inj: "stp_type_str p = stp_type_str p' \<longleftrightarrow> p = p'"
  by (cases p; cases p'; simp)

lemma trigger_kind_str_inj: "trigger_kind_str t = trigger_kind_str t' \<longleftrightarrow> t = t'"
  by (cases t; cases t'; simp)

lemma tif_str_inj: "tif_str f = tif_str f' \<longleftrightarrow> f = f'"
  by (cases f; cases f'; simp)

lemma flag_then_comma:
  "oflag_str f @ CHR '','' # x = oflag_str g @ CHR '','' # y \<longleftrightarrow> f = g \<and> x = y"
  "oflag_str f \<noteq> oflag_str g @ CHR '','' # y" "oflag_str f @ CHR '','' # x \<noteq> oflag_str g" "oflag_str f = oflag_str g \<longleftrightarrow> f = g"
  by (cases f; cases g; simp)+

lemma join_flags:
  "join_comma (map oflag_str (f # fs)) =
     (if fs = [] then oflag_str f else oflag_str f @ CHR '','' # join_comma (map oflag_str fs))"
  by (cases fs) simp_all

lemma oflags_join_inj:
  "fs \<noteq> [] \<Longrightarrow> gs \<noteq> [] \<Longrightarrow> join_comma (map oflag_str fs) = join_comma (map oflag_str gs) \<Longrightarrow> fs = gs"
proof (induction fs arbitrary: gs)
  case (Cons f fs)
  then obtain g gs' where g: "gs = g # gs'" by (cases gs) auto
  have e: "join_comma (map oflag_str (f # fs)) = join_comma (map oflag_str (g # gs'))" using Cons.prems(3) g by simp
  show ?case
  proof (cases "fs = [] \<or> gs' = []")
    case True
    with e show ?thesis unfolding join_flags g by (simp add: flag_then_comma split: if_splits)
  next
    case False
    with e have "f = g \<and> join_comma (map oflag_str fs) = join_comma (map oflag_str gs')"
      unfolding join_flags by (simp add: flag_then_comma)
    with False Cons.IH show ?thesis by (simp add: g)
  qed
qed simp

lemma oflags_to_wire_inj: "oflags_to_wire fs = oflags_to_wire gs \<longleftrightarrow> fs = gs"
  using oflags_join_inj by (auto simp: oflags_to_wire_def split: if_splits)

section \<open>Prices\<close>

text \<open>
  What the documentation of \<open>rust_decimal\<close> promises of the text of a decimal: it determines the decimal, it opens with a minus exactly
  when the sign is negative, and it has neither a plus nor a percent sign.
\<close>

definition dec_texts :: "'x dec_ops \<Rightarrow> bool" where
  "dec_texts D \<longleftrightarrow>
     (\<forall>x y. dx_text D x = dx_text D y \<longrightarrow> x = y) \<and>
     (\<forall>x. (take 1 (dx_text D x) = ''-'' \<longleftrightarrow> dx_negative D x) \<and> CHR ''+'' \<notin> set (dx_text D x) \<and> CHR ''%'' \<notin> set (dx_text D x))"

fun price_ok :: "'x dec_ops \<Rightarrow> 'x price \<Rightarrow> bool" where
  "price_ok D (Absolute d) = (\<not> dx_negative D d)"
| "price_ok D (Offset unit v) = True"

lemma dec_text_inj: "dec_texts D \<Longrightarrow> dx_text D x = dx_text D y \<longleftrightarrow> x = y"
  by (auto simp: dec_texts_def)

lemma dec_text_signs:
  assumes "dec_texts D"
  shows "dx_text D x \<noteq> CHR ''+'' # s" "dx_text D x \<noteq> s @ ''%''"
proof -
  have "CHR ''+'' \<notin> set (dx_text D x)" "CHR ''%'' \<notin> set (dx_text D x)" using assms by (auto simp: dec_texts_def)
  then show "dx_text D x \<noteq> CHR ''+'' # s" "dx_text D x \<noteq> s @ ''%''" by auto
qed

definition signed_text :: "'x dec_ops \<Rightarrow> 'x \<Rightarrow> string" where
  "signed_text D v = (if dx_negative D v then dx_text D v else CHR ''+'' # dx_text D v)"

lemma signed_text_inj: "dec_texts D \<Longrightarrow> signed_text D v = signed_text D w \<longleftrightarrow> v = w"
  using dec_text_signs(1) [of D v] dec_text_signs(1) [of D w, THEN not_sym] by (auto simp: signed_text_def dec_text_inj)

lemma signed_text_percent: "dec_texts D \<Longrightarrow> signed_text D v \<noteq> s @ ''%''"
proof -
  assume "dec_texts D"
  then have "CHR ''%'' \<notin> set (signed_text D v)" by (auto simp: dec_texts_def signed_text_def)
  then show ?thesis by auto
qed

lemma text_not_signed: "dec_texts D \<Longrightarrow> \<not> dx_negative D d \<Longrightarrow> dx_text D d \<noteq> signed_text D v"
  using dec_text_signs(1) [of D d "dx_text D v"] by (auto simp: signed_text_def dec_text_inj)

lemma price_rest_form_signed:
  "price_rest_form D (Offset unit v) = (case unit of QuoteUnit \<Rightarrow> signed_text D v | PercentUnit \<Rightarrow> signed_text D v @ ''%'')"
  by (cases unit) (simp_all add: signed_text_def Let_def)

lemma price_text_inj:
  assumes D: "dec_texts D" and "price_ok D p" "price_ok D q"
  shows "price_rest_form D p = price_rest_form D q \<longleftrightarrow> p = q"
proof (cases p)
  case p: (Absolute d)
  show ?thesis
  proof (cases q)
    case (Offset unit v)
    then show ?thesis
      using assms p text_not_signed [OF D, of d v] dec_text_signs(2) [OF D, of d "signed_text D v"]
      by (cases unit) (simp_all add: price_rest_form_signed del: price_rest_form.simps(2))
  qed (simp add: p dec_text_inj [OF D])
next
  case p: (Offset unit v)
  show ?thesis
  proof (cases q)
    case (Absolute d)
    then show ?thesis
      using assms p text_not_signed [OF D, of d v] dec_text_signs(2) [OF D, of d "signed_text D v"]
      by (cases unit) (auto simp: price_rest_form_signed simp del: price_rest_form.simps(2))
  next
    case (Offset unit' w)
    then show ?thesis
      using p signed_text_percent [OF D, of v "signed_text D w"] signed_text_percent [OF D, of w "signed_text D v"]
      by (cases unit; cases unit') (auto simp: price_rest_form_signed signed_text_inj [OF D] simp del: price_rest_form.simps(2))
  qed
qed

text \<open>Without the condition on absolute prices the form is ambiguous.\<close>

lemma negative_absolute_reads_as_offset:
  "dx_negative D d \<Longrightarrow> price_rest_form D (Absolute d) = price_rest_form D (Offset QuoteUnit d)"
  by simp

section \<open>Forms\<close>

lemma map_of_field: "map_of (field k v @ xs) k' = (if k = k' then case v of None \<Rightarrow> map_of xs k' | Some s \<Rightarrow> Some s else map_of xs k')"
  by (auto simp: field_def split: option.splits)

lemma map_of_field_end: "map_of (field k v) k' = (if k = k' then v else None)"
  by (auto simp: field_def split: option.splits)

definition close_fields :: "'x dec_ops \<Rightarrow> 'x conditional_close option \<Rightarrow> form" where
  "close_fields D cc =
     field ''close[ordertype]'' (map_option (order_type_str \<circ> to_order_type \<circ> cc_ordertype) cc) @
     field ''close[price]'' (map_option (price_rest_form D \<circ> cc_price) cc) @
     field ''close[price2]'' (map_option (price_rest_form D) (Option.bind cc cc_price2))"

lemma close_fields: "(case cc of None \<Rightarrow> [] | Some c \<Rightarrow> push_close_form D ''close'' c) = close_fields D cc"
  by (cases cc) (simp_all add: close_fields_def push_close_form_def field_def)

lemmas form_lookup = order_to_form_def add_order_to_form_def close_fields close_fields_def map_of_field map_of_field_end

text \<open>The value of a key, absent when the order does not set it.\<close>

lemma order_form_fields:
  "map_of (order_to_form D r) ''pair'' = Some (oq_pair r)"
  "map_of (order_to_form D r) ''volume'' = Some (dx_text D (oq_volume r))"
  "map_of (order_to_form D r) ''ordertype'' = Some (order_type_str (oq_order_type r))"
  "map_of (order_to_form D r) ''price'' = map_option (price_rest_form D) (oq_price r)"
  "map_of (order_to_form D r) ''price2'' = map_option (price_rest_form D) (oq_price2 r)"
  "map_of (order_to_form D r) ''leverage'' = map_option (dec_string \<circ> unat) (oq_leverage r)"
  "map_of (order_to_form D r) ''oflags'' = oflags_to_wire (oq_oflags r)"
  "map_of (order_to_form D r) ''reduce_only'' = (if oq_reduce_only r = Some True then Some ''true'' else None)"
  "map_of (order_to_form D r) ''stptype'' = map_option stp_type_str (oq_stp_type r)"
  "map_of (order_to_form D r) ''trigger'' = map_option trigger_kind_str (oq_trigger r)"
  "map_of (order_to_form D r) ''timeinforce'' = map_option tif_str (oq_time_in_force r)"
  "map_of (order_to_form D r) ''displayvol'' = map_option (dx_text D) (oq_display_vol r)"
  "map_of (order_to_form D r) ''starttm'' = map_option time_rest_form (oq_start_time r)"
  "map_of (order_to_form D r) ''expiretm'' = map_option time_rest_form (oq_expire_time r)"
  "map_of (order_to_form D r) ''userref'' = map_option int_text (oq_userref r)"
  "map_of (order_to_form D r) ''cl_ord_id'' = oq_cl_ord_id r"
  "map_of (order_to_form D r) ''close[ordertype]'' = map_option (order_type_str \<circ> to_order_type \<circ> cc_ordertype) (oq_conditional_close r)"
  "map_of (order_to_form D r) ''close[price]'' = map_option (price_rest_form D \<circ> cc_price) (oq_conditional_close r)"
  "map_of (order_to_form D r) ''close[price2]'' = map_option (price_rest_form D) (Option.bind (oq_conditional_close r) cc_price2)"
  "map_of (order_to_form D r) ''validate'' = (if oq_validate r then Some ''true'' else None)"
  "map_of (order_to_form D r) ''type'' = Some (side_str (oq_side r))"
  by (simp_all add: form_lookup del: map_of_append split: option.split)

definition sent_prices :: "'x order_request \<Rightarrow> 'x price set" where
  "sent_prices r =
     set_option (oq_price r) \<union> set_option (oq_price2 r) \<union> cc_price ` set_option (oq_conditional_close r) \<union>
     set_option (Option.bind (oq_conditional_close r) cc_price2)"

lemma validated_has_no_deadline: "order_validate D r = Inr () \<Longrightarrow> oq_deadline r = None"
  by (auto simp: order_validate_def also_check_def reject_unsupported_deadline_def split: if_splits)

lemma same_field:
  assumes "map_option f x = map_option f y" "\<And>a b. a \<in> set_option x \<Longrightarrow> b \<in> set_option y \<Longrightarrow> f a = f b \<Longrightarrow> a = b"
  shows "x = y"
  using assms by (cases x; cases y) auto

lemma same_close:
  assumes "map_option (order_type_str \<circ> to_order_type \<circ> cc_ordertype) x = map_option (order_type_str \<circ> to_order_type \<circ> cc_ordertype) y"
    and "map_option cc_price x = map_option cc_price y" "Option.bind x cc_price2 = Option.bind y cc_price2"
  shows "x = (y :: 'x conditional_close option)"
  using assms by (cases x; cases y) (auto simp: order_type_str_inj close_type_inj)

text \<open>Equal forms, field by field.\<close>

lemma same_form_texts:
  assumes D: "dec_texts D" and form: "order_to_form D r = order_to_form D r'"
  shows "oq_pair r = oq_pair r'" "oq_cl_ord_id r = oq_cl_ord_id r'" "oq_volume r = oq_volume r'" "oq_order_type r = oq_order_type r'"
    "oq_oflags r = oq_oflags r'" "oq_side r = oq_side r'" "oq_validate r = oq_validate r'"
    "oq_reduce_only r = Some True \<longleftrightarrow> oq_reduce_only r' = Some True"
proof -
  have same: "map_of (order_to_form D r) k = map_of (order_to_form D r') k" for k by (simp only: form)
  show "oq_pair r = oq_pair r'" "oq_cl_ord_id r = oq_cl_ord_id r'"
    using same [of "''pair''", unfolded order_form_fields] same [of "''cl_ord_id''", unfolded order_form_fields] by simp_all
  show "oq_volume r = oq_volume r'"
    using same [of "''volume''", unfolded order_form_fields] by (simp add: dec_text_inj [OF D])
  show "oq_order_type r = oq_order_type r'"
    using same [of "''ordertype''", unfolded order_form_fields] by (simp add: order_type_str_inj)
  show "oq_oflags r = oq_oflags r'"
    using same [of "''oflags''", unfolded order_form_fields] by (simp add: oflags_to_wire_inj)
  show "oq_side r = oq_side r'"
    using same [of "''type''", unfolded order_form_fields] by (simp add: side_str_inj)
  show "oq_validate r = oq_validate r'"
    using same [of "''validate''", unfolded order_form_fields] by (simp split: if_splits)
  show "oq_reduce_only r = Some True \<longleftrightarrow> oq_reduce_only r' = Some True"
    using same [of "''reduce_only''", unfolded order_form_fields] by (simp split: if_splits)
qed

lemma same_form_options:
  assumes D: "dec_texts D" and form: "order_to_form D r = order_to_form D r'"
  shows "oq_leverage r = oq_leverage r'" "oq_stp_type r = oq_stp_type r'" "oq_trigger r = oq_trigger r'"
    "oq_time_in_force r = oq_time_in_force r'" "oq_display_vol r = oq_display_vol r'" "oq_start_time r = oq_start_time r'"
    "oq_expire_time r = oq_expire_time r'" "oq_userref r = oq_userref r'"
proof -
  have same: "map_of (order_to_form D r) k = map_of (order_to_form D r') k" for k by (simp only: form)
  show "oq_leverage r = oq_leverage r'"
    by (rule same_field [OF same [of "''leverage''", unfolded order_form_fields]]) (simp add: dec_string_inj word_unat_eq_iff)
  show "oq_stp_type r = oq_stp_type r'"
    by (rule same_field [OF same [of "''stptype''", unfolded order_form_fields]]) (simp add: stp_type_str_inj)
  show "oq_trigger r = oq_trigger r'"
    by (rule same_field [OF same [of "''trigger''", unfolded order_form_fields]]) (simp add: trigger_kind_str_inj)
  show "oq_time_in_force r = oq_time_in_force r'"
    by (rule same_field [OF same [of "''timeinforce''", unfolded order_form_fields]]) (simp add: tif_str_inj)
  show "oq_display_vol r = oq_display_vol r'"
    by (rule same_field [OF same [of "''displayvol''", unfolded order_form_fields]]) (simp add: dec_text_inj [OF D])
  show "oq_start_time r = oq_start_time r'"
    by (rule same_field [OF same [of "''starttm''", unfolded order_form_fields]]) (simp add: time_rest_form_def int_text_inj)
  show "oq_expire_time r = oq_expire_time r'"
    by (rule same_field [OF same [of "''expiretm''", unfolded order_form_fields]]) (simp add: time_rest_form_def int_text_inj)
  show "oq_userref r = oq_userref r'"
    by (rule same_field [OF same [of "''userref''", unfolded order_form_fields]]) (simp add: int_text_inj)
qed

lemma same_form_prices:
  assumes D: "dec_texts D" and prices: "\<forall>p \<in> sent_prices r \<union> sent_prices r'. price_ok D p"
    and form: "order_to_form D r = order_to_form D r'"
  shows "oq_price r = oq_price r'" "oq_price2 r = oq_price2 r'" "oq_conditional_close r = oq_conditional_close r'"
proof -
  have same: "map_of (order_to_form D r) k = map_of (order_to_form D r') k" for k by (simp only: form)
  have ptext: "price_rest_form D p = price_rest_form D q \<longleftrightarrow> p = q" if "p \<in> sent_prices r" "q \<in> sent_prices r'" for p q
    using that prices price_text_inj [OF D] by blast
  show "oq_price r = oq_price r'"
    by (rule same_field [OF same [of "''price''", unfolded order_form_fields]]) (simp add: ptext sent_prices_def)
  show "oq_price2 r = oq_price2 r'"
    by (rule same_field [OF same [of "''price2''", unfolded order_form_fields]]) (simp add: ptext sent_prices_def)
  have close: "map_option cc_price (oq_conditional_close r) = map_option cc_price (oq_conditional_close r')"
    by (rule same_field [of "price_rest_form D"])
      (use same [of "''close[price]''", unfolded order_form_fields] in \<open>auto simp: option.map_comp ptext sent_prices_def\<close>)
  have close2: "Option.bind (oq_conditional_close r) cc_price2 = Option.bind (oq_conditional_close r') cc_price2"
    by (rule same_field [OF same [of "''close[price2]''", unfolded order_form_fields]]) (simp add: ptext sent_prices_def)
  show "oq_conditional_close r = oq_conditional_close r'"
    by (rule same_close [OF same [of "''close[ordertype]''", unfolded order_form_fields] close close2])
qed

lemma order_rest_call_parts:
  assumes "order_rest_call D r = Inr call"
  shows "order_validate D r = Inr ()" "\<not> oq_margin r" "fst call = order_to_form D r" "snd call = placement_policy (oq_validate r)"
  using assms by (auto simp: order_rest_call_def rest_unrepresentable_field_def split: sum.splits option.splits if_splits)

lemma order_ws_params_parts:
  assumes "order_ws_params D r = Inr j"
  shows "order_validate D r = Inr ()" "j = compose_add_order_params D (order_view r)"
    "(let (_, cp, cp2) = flat_legs (oq_conditional_close r) in ws_unrepresentable_field (oq_leverage r \<noteq> None) cp cp2) = None"
  using assms by (auto simp: order_ws_params_def Let_def split: sum.splits option.splits prod.splits)

text \<open>
  Property C8. The REST call of an order names that order: two orders placed by the same call, whose absolute prices are not
  negative, are the same order, but for a \<open>reduce_only\<close> that is off in both (unset or set to false).
\<close>

theorem rest_form_names_order:
  assumes D: "dec_texts D" and calls: "order_rest_call D r = Inr call" "order_rest_call D r' = Inr call"
    and prices: "\<forall>p \<in> sent_prices r \<union> sent_prices r'. price_ok D p"
  shows "r' = r\<lparr>oq_reduce_only := oq_reduce_only r'\<rparr> \<and> (oq_reduce_only r = Some True \<longleftrightarrow> oq_reduce_only r' = Some True)"
proof
  have form: "order_to_form D r = order_to_form D r'"
    using order_rest_call_parts(3) [OF calls(1)] order_rest_call_parts(3) [OF calls(2)] by simp
  have "oq_deadline r = None" "oq_deadline r' = None" "oq_margin r = oq_margin r'"
    using order_rest_call_parts [OF calls(1)] order_rest_call_parts [OF calls(2)] validated_has_no_deadline by blast+
  then show "r' = r\<lparr>oq_reduce_only := oq_reduce_only r'\<rparr>"
    using same_form_texts [OF D form] same_form_options [OF D form] same_form_prices [OF D prices form]
    by (intro order_request.equality) simp_all
  show "oq_reduce_only r = Some True \<longleftrightarrow> oq_reduce_only r' = Some True" by (rule same_form_texts [OF D form])
qed

section \<open>Dry runs\<close>

lemma map_of_put [simp]:
  "map_of (put k v p) k' = (if k = k' then case v of None \<Rightarrow> map_of p k' | Some j \<Rightarrow> Some j else map_of p k')"
  by (simp add: put_def split: option.split)

lemma map_of_put_price [simp]:
  "map_of (put_price D k price p) k' =
     (case price of
        None \<Rightarrow> map_of p k'
      | Some x \<Rightarrow>
          if k' = k @ ''_type'' then Some (JStr (snd (price_to_ws x)))
          else if k' = k then Some (decimal_to_json D (fst (price_to_ws x))) else map_of p k')"
  by (simp add: put_price_def split: option.split prod.split)

lemma map_of_put_prices:
  "k \<notin> {''limit_price'', ''limit_price_type'', ''triggers''} \<Longrightarrow> map_of (put_prices D v p) k = map_of p k"
  by (simp add: put_prices_def Let_def split: ws_price_shape.split option.split)

lemma map_of_put_flags:
  "k \<notin> {''post_only'', ''fee_preference'', ''no_mpp''} \<Longrightarrow> map_of (fold put_flag fs p) k = map_of p k"
proof (induction fs arbitrary: p)
  case (Cons f fs)
  then have "map_of (put_flag f p) k = map_of p k" by (cases f) simp_all
  with Cons show ?case by simp
qed simp

lemma add_params_validate:
  "json_get (compose_add_order_params D v) ''validate'' = (if vw_validate v then Some (JBool True) else None)"
  by (simp add: compose_add_order_params_def map_of_put_flags map_of_put_prices Let_def)

lemma view_validate: "vw_validate (order_view r) = oq_validate r"
  by (simp add: order_view_def flat_legs_def split: option.split)

lemma entry_keys: "(k, s) \<in> set (entry_to_form D n e) \<Longrightarrow> take 7 k = ''orders[''"
  by (auto simp: entry_to_form_def field_def push_close_form_def bracket_def split: option.splits if_splits)

lemma batch_form_validate: "map_of (batch_to_form D b) ''validate'' = (if ba_validate b then Some ''true'' else None)"
proof -
  let ?es = "concat (map (\<lambda>(n, e). entry_to_form D n e) (enumerate 0 (ba_orders b)))"
  have "map_of ?es ''validate'' = None"
    using entry_keys [of "''validate''" _ D] by (fastforce simp: map_of_eq_None_iff)
  then show ?thesis by (simp add: batch_to_form_def field_def map_add_def)
qed

lemma batch_params_validate:
  "compose_batch_add_params D b = Inr j \<Longrightarrow> json_get j ''validate'' = (if ba_validate b then Some (JBool True) else None)"
  by (auto simp: compose_batch_add_params_def split: sum.splits)

text \<open>
  Property C9. A dry run stays a dry run, and only a dry run is one: whatever is placed, an order or a batch, on REST or on the WebSocket, carries
  the flag \<open>validate\<close> exactly when the request asks to be validated only; and a REST placement that is no dry run is never sent twice.
\<close>

theorem dry_run_on_every_transport:
  shows "(case order_rest_call D r of
       Inl _ \<Rightarrow> True
     | Inr (form, policy) \<Rightarrow>
         map_of form ''validate'' = (if oq_validate r then Some ''true'' else None) \<and> (oq_validate r \<or> policy = never_retry)) \<and>
    (case order_ws_params D r of
       Inl _ \<Rightarrow> True
     | Inr j \<Rightarrow> json_get j ''validate'' = (if oq_validate r then Some (JBool True) else None)) \<and>
    (case batch_rest_call D b of
       Inl _ \<Rightarrow> True
     | Inr (form, policy) \<Rightarrow>
         map_of form ''validate'' = (if ba_validate b then Some ''true'' else None) \<and> (ba_validate b \<or> policy = never_retry)) \<and>
    (case batch_ws_params D b of
       Inl _ \<Rightarrow> True
     | Inr j \<Rightarrow> json_get j ''validate'' = (if ba_validate b then Some (JBool True) else None))"
proof (intro conjI)
  show "case order_rest_call D r of
       Inl _ \<Rightarrow> True
     | Inr (form, policy) \<Rightarrow>
         map_of form ''validate'' = (if oq_validate r then Some ''true'' else None) \<and> (oq_validate r \<or> policy = never_retry)"
    by (auto simp: order_rest_call_def order_form_fields placement_policy_def split: sum.split option.split)
  show "case order_ws_params D r of
       Inl _ \<Rightarrow> True
     | Inr j \<Rightarrow> json_get j ''validate'' = (if oq_validate r then Some (JBool True) else None)"
    by (auto simp: add_params_validate view_validate split: sum.split dest: order_ws_params_parts(2))
  show "case batch_rest_call D b of
       Inl _ \<Rightarrow> True
     | Inr (form, policy) \<Rightarrow>
         map_of form ''validate'' = (if ba_validate b then Some ''true'' else None) \<and> (ba_validate b \<or> policy = never_retry)"
    by (auto simp: batch_rest_call_def batch_form_validate placement_policy_def split: sum.split option.split)
  show "case batch_ws_params D b of
       Inl _ \<Rightarrow> True
     | Inr j \<Rightarrow> json_get j ''validate'' = (if ba_validate b then Some (JBool True) else None)"
    by (auto simp: batch_ws_params_def batch_params_validate split: sum.split)
qed

section \<open>Relative prices\<close>

lemma add_params_triggers:
  "price_shape (vw_order_type v) = TriggerShape leg \<Longrightarrow>
     json_get (compose_add_order_params D v) ''triggers'' = Some (trigger_object D v)"
  by (simp add: compose_add_order_params_def map_of_put_flags put_prices_def Let_def split: option.split)

lemma add_params_limit_type:
  "price_shape (vw_order_type v) = TriggerShape True \<Longrightarrow> vw_price2 v = Some p \<Longrightarrow>
     json_get (compose_add_order_params D v) ''limit_price'' = Some (decimal_to_json D (fst (price_to_ws p))) \<and>
     json_get (compose_add_order_params D v) ''limit_price_type'' = Some (JStr (snd (price_to_ws p)))"
  by (simp add: compose_add_order_params_def map_of_put_flags put_prices_def Let_def)

lemma add_params_conditional:
  "json_get (compose_add_order_params D v) ''conditional'' =
     map_option (\<lambda>t. close_object D t (vw_close_price v) (vw_close_price2 v)) (vw_close_ordertype v)"
  by (simp add: compose_add_order_params_def map_of_put_flags map_of_put_prices Let_def split: option.split)

fun unit_type :: "price_unit \<Rightarrow> string" where
  "unit_type QuoteUnit = ''quote''"
| "unit_type PercentUnit = ''pct''"

lemma offset_to_ws: "price_to_ws (Offset unit v) = (v, unit_type unit)"
  by (cases unit) simp_all

lemma validated_trailing:
  assumes "validate_trailing_price D t price price2 = Inr ()" "t \<in> {TrailingStop, TrailingStopLimit}"
  obtains unit v where "price = Some (Offset unit v)" "dx_above_zero D v"
    "t = TrailingStopLimit \<Longrightarrow> \<exists>unit2 v2. price2 = Some (Offset unit2 v2)"
  using assms that by (fastforce simp: validate_trailing_price_def split: option.splits price.splits if_splits)

lemma validated_parts:
  assumes "order_validate D r = Inr ()"
  shows "validate_trailing_price D (oq_order_type r) (oq_price r) (oq_price2 r) = Inr ()"
    "validate_close D (oq_conditional_close r) = Inr ()"
  using assms
  by (auto simp: order_validate_def validate_add_order_def also_check_def Let_def split: if_splits option.splits sum.splits prod.splits)

text \<open>
  Property C11. A trailing order placed on the WebSocket is relative: its trigger carries the offset of the request, positive, with the type
  of its unit, and its limit leg, present for a trailing stop limit, carries that offset with its type. No trailing price is sent as an absolute one.
\<close>

theorem trailing_order_stays_relative:
  assumes sent: "order_ws_params D r = Inr j" and trailing: "oq_order_type r \<in> {TrailingStop, TrailingStopLimit}"
  shows "\<exists>unit v. oq_price r = Some (Offset unit v) \<and> dx_above_zero D v \<and>
    json_get (the (json_get j ''triggers'')) ''price'' = Some (decimal_to_json D v) \<and>
    json_get (the (json_get j ''triggers'')) ''price_type'' = Some (JStr (unit_type unit)) \<and>
    (if oq_order_type r = TrailingStop then json_get j ''limit_price'' = None
     else \<exists>unit2 v2. oq_price2 r = Some (Offset unit2 v2) \<and> json_get j ''limit_price'' = Some (decimal_to_json D v2) \<and>
       json_get j ''limit_price_type'' = Some (JStr (unit_type unit2)))"
proof -
  note valid = order_ws_params_parts(1) [OF sent] and j = order_ws_params_parts(2) [OF sent]
  obtain unit v where p: "oq_price r = Some (Offset unit v)" "dx_above_zero D v"
    and limit: "oq_order_type r = TrailingStopLimit \<Longrightarrow> \<exists>unit2 v2. oq_price2 r = Some (Offset unit2 v2)"
    using validated_trailing [OF validated_parts(1) [OF valid] trailing] by metis
  have view: "vw_order_type (order_view r) = oq_order_type r" "vw_price (order_view r) = oq_price r" "vw_price2 (order_view r) = oq_price2 r"
    by (simp_all add: order_view_def flat_legs_def split: option.split)
  have "price_shape (oq_order_type r) = TriggerShape (oq_order_type r = TrailingStopLimit)" using trailing by auto
  note shape = add_params_triggers [of "order_view r", unfolded view, OF this]
  have t: "json_get (trigger_object D (order_view r)) ''price'' = Some (decimal_to_json D v)"
    "json_get (trigger_object D (order_view r)) ''price_type'' = Some (JStr (unit_type unit))"
    by (simp_all add: trigger_object_def view p offset_to_ws del: price_to_ws.simps)
  show ?thesis
  proof (cases "oq_order_type r = TrailingStop")
    case True
    then have "json_get (compose_add_order_params D (order_view r)) ''limit_price'' = None"
      by (simp add: compose_add_order_params_def map_of_put_flags put_prices_def view Let_def split: option.split)
    then show ?thesis using True p t shape by (simp add: j)
  next
    case False
    then have lim: "oq_order_type r = TrailingStopLimit" using trailing by simp
    then obtain unit2 v2 where p2: "oq_price2 r = Some (Offset unit2 v2)" using limit by blast
    have "json_get (compose_add_order_params D (order_view r)) ''limit_price'' = Some (decimal_to_json D v2) \<and>
        json_get (compose_add_order_params D (order_view r)) ''limit_price_type'' = Some (JStr (unit_type unit2))"
      using add_params_limit_type [of "order_view r" "Offset unit2 v2" D] lim p2 by (simp add: view offset_to_ws del: price_to_ws.simps)
    then show ?thesis using lim p p2 t shape by (simp add: j)
  qed
qed

section \<open>Closes and batches\<close>

text \<open>A conditional close the WebSocket accepts has an absolute price, which is sent.\<close>

lemma ws_close_keeps_price:
  assumes "order_ws_params D r = Inr j" "oq_conditional_close r = Some c"
  shows "\<exists>p. cc_price c = Absolute p \<and>
    json_get (the (json_get j ''conditional''))
      (if cc_ordertype c = CloseLimit then ''limit_price'' else ''trigger_price'') = Some (decimal_to_json D p)"
proof -
  obtain p where p: "cc_price c = Absolute p"
    using order_ws_params_parts(3) [OF assms(1)] assms(2)
    by (auto simp: ws_unrepresentable_field_def flat_legs_def split: if_splits price.splits)
  have "cc_ordertype c \<notin> {CloseTrailingStop, CloseTrailingStopLimit}"
    using validated_parts(2) [OF order_ws_params_parts(1) [OF assms(1)]] assms(2) p by (auto simp: validate_close_def validate_trailing_price_def)
  then have "cc_ordertype c \<in> {CloseLimit, CloseStopLoss, CloseTakeProfit, CloseStopLossLimit, CloseTakeProfitLimit}"
    by (cases "cc_ordertype c") simp_all
  then show ?thesis
    using assms(2) p order_ws_params_parts(2) [OF assms(1)] by (auto simp: add_params_conditional order_view_def flat_legs_def close_object_def Let_def)
qed

lemma compose_entries_ok: "(\<forall>e \<in> set es. entry_ws_blocked e = None) \<Longrightarrow> \<exists>js. compose_entries D pair es = Inr js \<and> length js = length es"
  by (induction es) auto

lemma find_map_None: "find_map f xs = None \<longleftrightarrow> (\<forall>x \<in> set xs. f x = None)"
  by (induction xs) (auto split: option.splits)

lemma batch_transports:
  assumes "batch_validate D b = Inr ()"
  shows "find_map (\<lambda>e. rest_unrepresentable_field (be_margin e)) (ba_orders b) = None \<or> find_map entry_ws_blocked (ba_orders b) = None"
  using assms by (auto simp: batch_validate_def also_check_def Let_def split: sum.splits if_splits option.splits)

lemma order_transports:
  assumes "order_validate D r = Inr ()"
  shows "rest_unrepresentable_field (oq_margin r) = None \<or>
    (let (_, cp, cp2) = flat_legs (oq_conditional_close r) in ws_unrepresentable_field (oq_leverage r \<noteq> None) cp cp2) = None"
  using assms
  by (auto simp: order_validate_def validate_add_order_def also_check_def Let_def split: sum.splits if_splits option.splits prod.splits)

lemma order_placeable: "order_validate D r = Inr () \<Longrightarrow> (\<exists>call. order_rest_call D r = Inr call) \<or> (\<exists>j. order_ws_params D r = Inr j)"
  using order_transports [of D r] by (auto simp: order_rest_call_def order_ws_params_def split: prod.splits)

lemma batch_placeable:
  assumes valid: "batch_validate D b = Inr ()"
  shows "(\<exists>call. batch_rest_call D b = Inr call) \<or>
     (\<exists>j js. batch_ws_params D b = Inr j \<and> json_get j ''orders'' = Some (JArr js) \<and> length js = length (ba_orders b))"
proof (cases "find_map (\<lambda>e. rest_unrepresentable_field (be_margin e)) (ba_orders b)")
  case None
  then show ?thesis by (simp add: batch_rest_call_def valid)
next
  case Some
  then have "\<forall>e \<in> set (ba_orders b). entry_ws_blocked e = None"
    using batch_transports [OF valid] by (simp add: find_map_None)
  then obtain js where "compose_entries D (ba_pair b) (ba_orders b) = Inr js" "length js = length (ba_orders b)"
    using compose_entries_ok by blast
  then show ?thesis by (simp add: batch_ws_params_def valid compose_batch_add_params_def)
qed

text \<open>
  Property C10. The validators promise a transport, no more and no less: an order passes them exactly when its REST call or its WebSocket
  parameters can be made, a rejected order is rejected with the same error on both; and a batch passes exactly when its REST call can be made or
  its parameters, with one entry for each of its orders.
\<close>

theorem validated_has_transport:
  shows "(case order_validate D r of
       Inl e \<Rightarrow> order_rest_call D r = Inl e \<and> order_ws_params D r = Inl e
     | Inr _ \<Rightarrow> (\<exists>call. order_rest_call D r = Inr call) \<or> (\<exists>j. order_ws_params D r = Inr j)) \<and>
    (case batch_validate D b of
       Inl e \<Rightarrow> batch_rest_call D b = Inl e \<and> batch_ws_params D b = Inl e
     | Inr _ \<Rightarrow>
         (\<exists>call. batch_rest_call D b = Inr call) \<or>
         (\<exists>j js. batch_ws_params D b = Inr j \<and> json_get j ''orders'' = Some (JArr js) \<and> length js = length (ba_orders b)))"
proof
  show "case order_validate D r of
       Inl e \<Rightarrow> order_rest_call D r = Inl e \<and> order_ws_params D r = Inl e
     | Inr _ \<Rightarrow> (\<exists>call. order_rest_call D r = Inr call) \<or> (\<exists>j. order_ws_params D r = Inr j)"
  proof (cases "order_validate D r")
    case (Inr u)
    then show ?thesis using order_placeable [of D r] by simp
  qed (simp add: order_rest_call_def order_ws_params_def)
  show "case batch_validate D b of
       Inl e \<Rightarrow> batch_rest_call D b = Inl e \<and> batch_ws_params D b = Inl e
     | Inr _ \<Rightarrow>
         (\<exists>call. batch_rest_call D b = Inr call) \<or>
         (\<exists>j js. batch_ws_params D b = Inr j \<and> json_get j ''orders'' = Some (JArr js) \<and> length js = length (ba_orders b))"
  proof (cases "batch_validate D b")
    case (Inr u)
    then show ?thesis using batch_placeable [of D b] by simp
  qed (simp add: batch_rest_call_def batch_ws_params_def)
qed

section \<open>Witnesses\<close>

definition int_decimals :: "int dec_ops" where
  "int_decimals = \<lparr>dx_text = int_text, dx_negative = (\<lambda>n. n < 0), dx_above_zero = (\<lambda>n. 0 < n), dx_number = (\<lambda>s. True)\<rparr>"

lemma int_decimals_texts: "dec_texts int_decimals"
proof -
  have d: "c \<in> set (dec_string k) \<Longrightarrow> is_ascii_digit c" for c k using dec_string_digits [of k] by (auto simp: list_all_iff)
  have "take 1 (dec_string k) \<noteq> ''-''" for k
    using d [of "hd (dec_string k)" k] dec_string_digits [of k] by (cases "dec_string k") (auto simp: is_ascii_digit_def)
  moreover have "CHR ''+'' \<notin> set (dec_string k)" "CHR ''%'' \<notin> set (dec_string k)" for k
    using d [of "CHR ''+''" k] d [of "CHR ''%''" k] by (auto simp: is_ascii_digit_def)
  ultimately show ?thesis by (auto simp: dec_texts_def int_decimals_def int_text_inj) (auto simp: int_text_def split: if_splits)
qed

lemmas order_eval =
  order_request_new_def order_rest_call_def order_ws_params_def order_validate_def validate_add_order_def also_check_def
  reject_unsupported_deadline_def flat_legs_def rest_unrepresentable_field_def ws_unrepresentable_field_def validate_order_gates_def
  validate_trailing_price_def validate_close_def int_decimals_def word_le_nat_alt

definition plain_order :: "int order_request" where
  "plain_order = order_set (SetOrderType Limit) (order_set (SetPrice (Absolute 30000)) (order_request_new ''BTC/USD'' 5 Sell))"

definition sample_order :: "int order_request" where
  "sample_order =
     fold order_set [SetOrderType TrailingStopLimit, SetPrice (Offset PercentUnit 2), SetPrice2 (Offset QuoteUnit (- 1)), SetMargin True, SetReduceOnly True]
       (order_request_new ''BTC/USD'' 5 Sell)"

lemma rest_form_names_order_witness:
  "order_set (SetReduceOnly False) plain_order = plain_order\<lparr>oq_reduce_only := Some False\<rparr> \<and>
   (\<exists>call. order_rest_call int_decimals plain_order = Inr call \<and> order_rest_call int_decimals (order_set (SetReduceOnly False) plain_order) = Inr call)"
proof -
  define call where "call = (order_to_form int_decimals plain_order, never_retry)"
  have calls: "order_rest_call int_decimals plain_order = Inr call"
    "order_rest_call int_decimals (order_set (SetReduceOnly False) plain_order) = Inr call"
    by (simp_all add: call_def plain_order_def order_eval placement_policy_def order_to_form_def add_order_to_form_def)
  moreover have "\<forall>p \<in> sent_prices plain_order \<union> sent_prices (order_set (SetReduceOnly False) plain_order). price_ok int_decimals p"
    by (simp add: sent_prices_def plain_order_def order_eval)
  ultimately show ?thesis using rest_form_names_order [OF int_decimals_texts calls] by simp
qed

lemma trailing_order_stays_relative_witness:
  "\<exists>j. order_ws_params int_decimals sample_order = Inr j \<and>
    (\<exists>unit v. oq_price sample_order = Some (Offset unit v) \<and> 0 < v \<and>
       json_get (the (json_get j ''triggers'')) ''price_type'' = Some (JStr (unit_type unit)))"
proof -
  have "order_ws_params int_decimals sample_order = Inr (compose_add_order_params int_decimals (order_view sample_order))"
    "oq_order_type sample_order \<in> {TrailingStop, TrailingStopLimit}"
    by (simp_all add: sample_order_def order_eval)
  from this(1) trailing_order_stays_relative [OF this] show ?thesis by (auto simp: int_decimals_def)
qed

end
