(* ===== verification/Order_Calendar.thy ===== *)
theory Order_Calendar
  imports Order_Requests
begin

text \<open>
  The instants of orders on the WebSocket are dates of the Gregorian calendar: the closed formula of the code is the day-by-day count
  from the first of January 1970.
\<close>

section \<open>The calendar\<close>

definition leap :: "int \<Rightarrow> bool" where
  "leap y \<longleftrightarrow> 4 dvd y \<and> (\<not> 100 dvd y \<or> 400 dvd y)"

definition month_days :: "int \<Rightarrow> int \<Rightarrow> int" where
  "month_days y m = (if m = 2 then if leap y then 29 else 28 else if m \<in> {4, 6, 9, 11} then 30 else 31)"

fun next_day :: "int \<times> int \<times> int \<Rightarrow> int \<times> int \<times> int" where
  "next_day (y, m, d) =
     (if d < month_days y m then (y, m, d + 1) else if m < 12 then (y, m + 1, 1) else (y + 1, 1, 1))"

section \<open>Years of 400\<close>

text \<open>A year of the code runs from March to February: its number is \<open>Y\<close>, its last day is \<open>364\<close> or \<open>365\<close>.\<close>

definition year_start :: "int \<Rightarrow> int" where
  "year_start Y = 365 * Y + Y div 4 - Y div 100"

definition last_doy :: "int \<Rightarrow> int" where
  "last_doy Y = (if leap (Y + 1) then 365 else 364)"

definition year_of :: "int \<Rightarrow> int" where
  "year_of doe = (doe - doe div 1460 + doe div 36524 - doe div 146096) div 365"

lemma div_unique: "(a::int) = b * q + r \<Longrightarrow> 0 \<le> r \<Longrightarrow> r < b \<Longrightarrow> a div b = q"
  by simp

lemma year_parts:
  assumes "0 \<le> Y" "Y < 400"
  obtains c q r where "Y = 100 * c + 4 * q + r" "0 \<le> c" "c \<le> 3" "0 \<le> q" "q \<le> 24" "0 \<le> r" "r \<le> 3"
    "year_start Y = 36524 * c + 1461 * q + 365 * r" "leap (Y + 1) \<longleftrightarrow> r = 3 \<and> (q \<noteq> 24 \<or> c = 3)"
proof
  define c q r where "c = Y div 100" and "q = Y mod 100 div 4" and "r = Y mod 4"
  have "Y mod 100 mod 4 = Y mod 4" by (simp add: mod_mod_cancel)
  then have "4 * q + r = Y mod 100" using mult_div_mod_eq [of 4 "Y mod 100"] by (simp add: q_def r_def)
  moreover have "100 * c + Y mod 100 = Y" unfolding c_def by (rule mult_div_mod_eq)
  ultimately show y: "Y = 100 * c + 4 * q + r" by simp
  show b: "0 \<le> c" "c \<le> 3" "0 \<le> q" "q \<le> 24" "0 \<le> r" "r \<le> 3"
    using assms pos_mod_bound [of 100 Y] pos_mod_sign [of 100 Y] pos_mod_bound [of 4 Y] by (simp_all add: c_def q_def r_def)
  have "Y div 4 = 25 * c + q" by (rule div_unique [of _ _ _ r]) (use y b in auto)
  moreover have "Y div 100 = c" by (simp add: c_def)
  ultimately show "year_start Y = 36524 * c + 1461 * q + 365 * r" using y by (simp add: year_start_def)
  have "Y + 1 = 4 * (25 * c + q) + (r + 1)" using y by simp
  then have "4 dvd Y + 1 \<longleftrightarrow> 4 dvd r + 1" by (simp only: dvd_add_right_iff dvd_triv_left)
  moreover have "4 dvd r + 1 \<longleftrightarrow> r = 3" using b(5,6) by presburger
  moreover have "Y + 1 = 100 * c + (4 * q + r + 1)" using y by simp
  then have "100 dvd Y + 1 \<longleftrightarrow> 100 dvd 4 * q + r + 1" by (simp only: dvd_add_right_iff dvd_triv_left)
  moreover have "100 dvd 4 * q + r + 1 \<longleftrightarrow> 4 * q + r + 1 = 100"
    using b zdvd_imp_le [of 100 "4 * q + r + 1"] by auto
  moreover have "400 dvd Y + 1 \<longleftrightarrow> Y + 1 = 400" using assms zdvd_imp_le [of 400 "Y + 1"] by auto
  ultimately show "leap (Y + 1) \<longleftrightarrow> r = 3 \<and> (q \<noteq> 24 \<or> c = 3)" using y b unfolding leap_def by auto
qed

lemma year_of_start:
  assumes "0 \<le> Y" "Y < 400" and "0 \<le> doy" "doy \<le> last_doy Y"
  shows "year_of (year_start Y + doy) = Y"
proof -
  obtain c q r where y: "Y = 100 * c + 4 * q + r" and b: "0 \<le> c" "c \<le> 3" "0 \<le> q" "q \<le> 24" "0 \<le> r" "r \<le> 3"
    and s: "year_start Y = 36524 * c + 1461 * q + 365 * r" and l: "leap (Y + 1) \<longleftrightarrow> r = 3 \<and> (q \<noteq> 24 \<or> c = 3)"
    using year_parts [OF assms(1,2)] .
  define doe where "doe = year_start Y + doy"
  define k where "k = 24 * c + q + 365 * r + doy"
  have doy: "doy \<le> 365" "doy = 365 \<Longrightarrow> r = 3 \<and> (q \<noteq> 24 \<or> c = 3)"
    using assms(4) l by (auto simp: last_doy_def split: if_splits)
  show ?thesis
  proof (cases "c = 3 \<and> q = 24 \<and> r = 3 \<and> doy = 365")
    case True
    then have "doe = 146096" "Y = 399" using s y by (simp_all add: doe_def)
    then show ?thesis by (simp add: year_of_def doe_def)
  next
    case False
    have le: "doe < 146096" using False b doy(1) s by (auto simp: doe_def)
    have e1: "doe div 146096 = 0" using le b assms(3) s by (simp add: doe_def)
    have "1461 * q + 365 * r + doy < 36524" using b doy False by (cases "q = 24"; cases "r = 3"; cases "doy = 365") auto
    then have e2: "doe div 36524 = c" by (intro div_unique [of _ _ _ "1461 * q + 365 * r + doy"]) (use b assms(3) s in \<open>auto simp: doe_def\<close>)
    define dl where "dl = (if k < 1460 then 0 else (1::int))"
    have k: "0 \<le> k - 1460 * dl" "k - 1460 * dl < 1460" using b assms(3) doy(1) by (auto simp: dl_def k_def)
    have e3: "doe div 1460 = 25 * c + q + dl"
      by (rule div_unique [of _ _ _ "k - 1460 * dl"]) (use k s in \<open>auto simp: doe_def k_def\<close>)
    have "doy < 365 \<or> dl = 1" using b doy by (cases "doy = 365") (auto simp: dl_def k_def)
    then have d: "0 \<le> doy - dl" "doy - dl < 365"
      using assms(3) b doy(1) by (auto simp: dl_def k_def split: if_splits)
    have "year_of doe = (36500 * c + 1460 * q + 365 * r + doy - dl) div 365"
      using e1 e2 e3 s by (simp add: year_of_def doe_def)
    also have "\<dots> = Y" by (rule div_unique [of _ _ _ "doy - dl"]) (use d y in auto)
    finally show ?thesis by (simp add: doe_def)
  qed
qed

section \<open>Days of a year\<close>

text \<open>Month (from March, as \<open>0\<close>) and day of a day of the year.\<close>

definition month_day :: "int \<Rightarrow> int \<times> int" where
  "month_day doy = (let mp = (5 * doy + 2) div 153 in (mp, doy - (153 * mp + 2) div 5 + 1))"

definition long_month :: "int \<Rightarrow> int" where
  "long_month mp = (if mp = 11 then 29 else if mp \<in> {1, 3, 6, 8} then 30 else 31)"

definition moves_on :: "int \<Rightarrow> bool" where
  "moves_on doy \<longleftrightarrow>
     (case month_day doy of (mp, d) \<Rightarrow>
        month_day (doy + 1) = (if d < long_month mp then (mp, d + 1) else (mp + 1, 1)) \<and> 0 \<le> mp \<and> mp \<le> 11 \<and> 1 \<le> d \<and>
        (mp = 11 \<longrightarrow> d = doy - 336))"

lemma year_moves_on: "list_all moves_on [0..364]"
  by code_simp

lemma moves_on: "0 \<le> doy \<Longrightarrow> doy \<le> 364 \<Longrightarrow> moves_on doy"
  using year_moves_on by (simp add: list_all_iff)

definition date_of :: "int \<Rightarrow> int \<times> int \<Rightarrow> int \<times> int \<times> int" where
  "date_of y md =
     (case md of (mp, d) \<Rightarrow> let m = (if mp < 10 then mp + 3 else mp - 9) in (y + (if m \<le> 2 then 1 else 0), m, d))"

definition date_at :: "int \<Rightarrow> int \<Rightarrow> int \<Rightarrow> int \<times> int \<times> int" where
  "date_at era Y doy = date_of (Y + era * 400) (month_day doy)"

definition day_ok :: "int \<Rightarrow> int \<Rightarrow> bool" where
  "day_ok Y doy \<longleftrightarrow> 0 \<le> Y \<and> Y < 400 \<and> 0 \<le> doy \<and> doy \<le> last_doy Y"

lemma leap_era: "leap (Y + era * 400 + 1) = leap (Y + 1)"
proof -
  have "k dvd Y + era * 400 + 1 \<longleftrightarrow> k dvd Y + 1" if "k dvd 400" for k :: int
    using that dvd_add_left_iff [of k "era * 400" "Y + 1"] by (simp add: ac_simps)
  from this [of 4] this [of 100] this [of 400] show ?thesis by (simp add: leap_def)
qed

lemma parts_unique:
  assumes "100 * c + 4 * q + r = 100 * c' + 4 * q' + (r' :: int)"
    and "0 \<le> q" "q \<le> 24" "0 \<le> r" "r \<le> 3" and "0 \<le> q'" "q' \<le> 24" "0 \<le> r'" "r' \<le> 3"
  shows "c' = c \<and> q' = q \<and> r' = r"
proof -
  define x where "x = 100 * c + 4 * q + r"
  have "x div 100 = c" by (rule div_unique [of _ _ _ "4 * q + r"]) (use assms in \<open>auto simp: x_def\<close>)
  moreover have "x div 100 = c'" by (rule div_unique [of _ _ _ "4 * q' + r'"]) (use assms in \<open>auto simp: x_def\<close>)
  ultimately have "c' = c" by simp
  moreover have "x div 4 = 25 * c + q" by (rule div_unique [of _ _ _ r]) (use assms in \<open>auto simp: x_def\<close>)
  moreover have "x div 4 = 25 * c' + q'" by (rule div_unique [of _ _ _ r']) (use assms in \<open>auto simp: x_def\<close>)
  ultimately show ?thesis using assms(1) by simp
qed

lemma year_start_Suc:
  assumes "0 \<le> Y" "Y < 399"
  shows "year_start (Y + 1) = year_start Y + last_doy Y + 1"
proof -
  have "0 \<le> Y" "Y < 400" "0 \<le> Y + 1" "Y + 1 < 400" using assms by auto
  obtain c q r where y: "Y = 100 * c + 4 * q + r" and b: "0 \<le> c" "c \<le> 3" "0 \<le> q" "q \<le> 24" "0 \<le> r" "r \<le> 3"
    and s: "year_start Y = 36524 * c + 1461 * q + 365 * r" and l: "leap (Y + 1) \<longleftrightarrow> r = 3 \<and> (q \<noteq> 24 \<or> c = 3)"
    using year_parts [OF \<open>0 \<le> Y\<close> \<open>Y < 400\<close>] .
  obtain c' q' r' where y': "Y + 1 = 100 * c' + 4 * q' + r'" and b': "0 \<le> c'" "c' \<le> 3" "0 \<le> q'" "q' \<le> 24" "0 \<le> r'" "r' \<le> 3"
    and s': "year_start (Y + 1) = 36524 * c' + 1461 * q' + 365 * r'"
    using year_parts [OF \<open>0 \<le> Y + 1\<close> \<open>Y + 1 < 400\<close>] .
  consider "r < 3" | "r = 3" "q < 24" | "r = 3" "q = 24" using b by linarith
  then show ?thesis
  proof cases
    case 1
    then have "c' = c \<and> q' = q \<and> r' = r + 1" by (intro parts_unique) (use y y' b b' in auto)
    then show ?thesis using 1 s s' l by (simp add: last_doy_def)
  next
    case 2
    then have "c' = c \<and> q' = q + 1 \<and> r' = 0" by (intro parts_unique) (use y y' b b' in auto)
    then show ?thesis using 2 s s' l by (simp add: last_doy_def)
  next
    case 3
    then have "c' = c + 1 \<and> q' = 0 \<and> r' = 0" by (intro parts_unique) (use y y' b b' in auto)
    moreover have "c \<noteq> 3" using 3 y assms(2) by auto
    ultimately show ?thesis using 3 s s' l by (simp add: last_doy_def)
  qed
qed

lemma doe_range:
  assumes "day_ok Y doy"
  shows "0 \<le> year_start Y + doy" "year_start Y + doy < 146097"
proof -
  have Y: "0 \<le> Y" "Y < 400" using assms by (simp_all add: day_ok_def)
  obtain c q r where b: "0 \<le> c" "c \<le> 3" "0 \<le> q" "q \<le> 24" "0 \<le> r" "r \<le> 3"
    and s: "year_start Y = 36524 * c + 1461 * q + 365 * r"
    using year_parts [OF Y] .
  have "0 \<le> doy" "doy \<le> 365" using assms by (auto simp: day_ok_def last_doy_def split: if_splits)
  then show "0 \<le> year_start Y + doy" "year_start Y + doy < 146097" using b s by linarith+
qed

lemma civil_from_days_date_at:
  "civil_from_days days =
     (let z = days + 719468; era = z div 146097; doe = z - era * 146097; Y = year_of doe in date_at era Y (doe - year_start Y))"
  by (simp only: civil_from_days_def date_at_def date_of_def month_day_def year_of_def year_start_def Let_def prod.case)

lemma civil_at:
  assumes "day_ok Y doy" "days + 719468 = era * 146097 + (year_start Y + doy)"
  shows "civil_from_days days = date_at era Y doy"
proof -
  have "(days + 719468) div 146097 = era"
    by (rule div_unique [of _ _ _ "year_start Y + doy"]) (use doe_range [OF assms(1)] assms(2) in auto)
  moreover have "days + 719468 - era * 146097 = year_start Y + doy" using assms(2) by simp
  moreover have "year_of (year_start Y + doy) = Y" using assms(1) by (intro year_of_start) (simp_all add: day_ok_def)
  ultimately show ?thesis by (simp only: civil_from_days_date_at Let_def add_diff_cancel_left')
qed

section \<open>Day by day\<close>

lemma month_day_bounds:
  assumes "0 \<le> doy" "doy \<le> 364"
  obtains mp d where "month_day doy = (mp, d)" "0 \<le> mp" "mp \<le> 11" "1 \<le> d" "mp = 11 \<longrightarrow> d = doy - 336"
    "month_day (doy + 1) = (if d < long_month mp then (mp, d + 1) else (mp + 1, 1))"
  using moves_on [OF assms] that by (auto simp: moves_on_def split: prod.splits)

lemma next_date_of:
  assumes "mp \<in> {0, 1, 2, 3, 4, 5, 6, 7, 8, 9, 10, 11}" "1 \<le> d" and "mp = 11 \<Longrightarrow> d < 28 \<or> d = 28 \<and> leap (y + 1)"
  shows "next_day (date_of y (mp, d)) = date_of y (if d < long_month mp then (mp, d + 1) else (mp + 1, 1))"
  using assms by (elim insertE emptyE) (auto simp: date_of_def long_month_def month_days_def)

lemma date_at_next:
  assumes "day_ok Y doy" "doy < last_doy Y"
  shows "date_at era Y (doy + 1) = next_day (date_at era Y doy)"
proof -
  have doy: "0 \<le> doy" "doy \<le> 364" "doy = 364 \<Longrightarrow> leap (Y + 1)"
    using assms by (auto simp: day_ok_def last_doy_def split: if_splits)
  obtain mp d where md: "month_day doy = (mp, d)" and b: "0 \<le> mp" "mp \<le> 11" "1 \<le> d" "mp = 11 \<longrightarrow> d = doy - 336"
    and n: "month_day (doy + 1) = (if d < long_month mp then (mp, d + 1) else (mp + 1, 1))"
    using month_day_bounds [OF doy(1,2)] .
  have "mp \<in> {0, 1, 2, 3, 4, 5, 6, 7, 8, 9, 10, 11}" using b(1,2) by (simp only: insert_iff empty_iff) presburger
  moreover have "d < 28 \<or> d = 28 \<and> leap (Y + era * 400 + 1)" if "mp = 11"
    using that b(4) doy leap_era [of Y era] by (cases "doy = 364") auto
  ultimately have "next_day (date_of (Y + era * 400) (mp, d)) = date_of (Y + era * 400) (month_day (doy + 1))"
    unfolding n using b(3) by (intro next_date_of)
  then show ?thesis by (simp add: date_at_def md)
qed

lemma date_at_new_year:
  assumes "doy = last_doy Y"
  shows "next_day (date_at era Y doy) = (Y + era * 400 + 1, 3, 1)"
proof -
  have "month_day doy = (11, if leap (Y + 1) then 29 else 28)"
    using assms by (simp add: month_day_def last_doy_def)
  moreover have "leap (Y + era * 400 + 1) = leap (Y + 1)" by (rule leap_era)
  ultimately show ?thesis by (cases "leap (Y + 1)") (simp_all add: date_at_def date_of_def month_days_def)
qed

lemma date_at_first: "date_at era Y 0 = (Y + era * 400, 3, 1)"
  by (simp add: date_at_def date_of_def month_day_def)

definition day_number :: "int \<Rightarrow> int \<Rightarrow> int \<Rightarrow> int \<Rightarrow> bool" where
  "day_number days era Y doy \<longleftrightarrow> day_ok Y doy \<and> days + 719468 = era * 146097 + (year_start Y + doy)"

lemma day_number_next:
  assumes "day_number days era Y doy"
  shows "\<exists>era' Y' doy'. day_number (days + 1) era' Y' doy' \<and> date_at era' Y' doy' = next_day (date_at era Y doy)"
proof -
  have ok: "day_ok Y doy" and n: "days + 719468 = era * 146097 + (year_start Y + doy)"
    using assms by (simp_all add: day_number_def)
  have Y: "0 \<le> Y" "Y < 400" and doy: "0 \<le> doy" "doy \<le> last_doy Y" using ok by (simp_all add: day_ok_def)
  consider "doy < last_doy Y" | "doy = last_doy Y" "Y < 399" | "doy = last_doy Y" "Y = 399" using Y doy by linarith
  then show ?thesis
  proof cases
    case 1
    then have "day_number (days + 1) era Y (doy + 1)" using ok n by (simp add: day_number_def day_ok_def)
    then show ?thesis using date_at_next [OF ok 1] by blast
  next
    case 2
    then have "day_number (days + 1) era (Y + 1) 0"
      using n Y year_start_Suc [OF Y(1)] by (simp add: day_number_def day_ok_def last_doy_def)
    moreover have "date_at era (Y + 1) 0 = next_day (date_at era Y doy)"
      using 2 by (simp add: date_at_first date_at_new_year)
    ultimately show ?thesis by blast
  next
    case 3
    then have "day_number (days + 1) (era + 1) 0 0"
      using n by (simp add: day_number_def day_ok_def last_doy_def year_start_def leap_def)
    moreover have "date_at (era + 1) 0 0 = next_day (date_at era Y doy)"
      using 3 by (simp add: date_at_first date_at_new_year)
    ultimately show ?thesis by blast
  qed
qed

text \<open>The calendar from the day of the epoch, one day at a time.\<close>

primrec calendar :: "nat \<Rightarrow> int \<times> int \<times> int" where
  "calendar 0 = (1970, 1, 1)"
| "calendar (Suc n) = next_day (calendar n)"

lemma calendar_day_number: "\<exists>era Y doy. day_number (int n) era Y doy \<and> date_at era Y doy = calendar n"
proof (induction n)
  case 0
  have "day_number 0 4 369 306" by (simp add: day_number_def day_ok_def last_doy_def leap_def year_start_def)
  moreover have "date_at 4 369 306 = calendar 0" by (simp add: date_at_def date_of_def month_day_def)
  ultimately show ?case by auto
next
  case (Suc n)
  then obtain era Y doy where "day_number (int n) era Y doy" "date_at era Y doy = calendar n" by blast
  then show ?case using day_number_next [of "int n" era Y doy] by (auto simp: ac_simps)
qed

lemma civil_is_calendar: "civil_from_days (int n) = calendar n"
  using calendar_day_number [of n] civil_at by (auto simp: day_number_def)

text \<open>
  Property C32. The instant an order carries on the WebSocket is the date and time of the Gregorian calendar in UTC: the closed formula of the code
  agrees, for every second from the epoch on, with counting the calendar day by day, leap years included.
\<close>

theorem instant_text_is_calendar:
  fixes n :: nat
  shows "unix_secs_to_rfc3339_utc (int n) =
     (let (y, m, d) = calendar (n div 86400); s = n mod 86400
      in padded 4 y @ ''-'' @ padded 2 m @ ''-'' @ padded 2 d @ ''T'' @ padded 2 (int (s div 3600)) @ '':'' @
         padded 2 (int (s div 60 mod 60)) @ '':'' @ padded 2 (int (s mod 60)) @ ''Z'')"
proof -
  have "civil_from_days (int n div 86400) = calendar (n div 86400)"
    using civil_is_calendar [of "n div 86400"] by (simp add: zdiv_int)
  moreover have "s mod 3600 div 60 = s div 60 mod 60" for s :: int
    using zmod_zmult2_eq [of 60 s 60] by simp
  ultimately show ?thesis
    by (simp add: unix_secs_to_rfc3339_utc_def time_of_day_def zdiv_int zmod_int split: prod.split)
qed

end
