(* ===== verification/Spec2Isabelle.thy ===== *)
theory Spec2Isabelle
  imports Connection_Contracts Registry_Properties Rate_Limit_Properties Rest_Properties Bus_Properties Ws_Properties Token_Properties
    Reactor_Close Reactor_Books Reactor_Limits Order_Properties Order_Calendar
begin

text \<open>
  A model of the Kraken API SDK (Rust), \<open>src/rust/src\<close>, and what is proved of it.

  \<^bold>\<open>The program.\<close> A client holds two WebSocket connections (public and authenticated) driven by one reactor, a
  REST pipeline, and the state both share. The reactor feeds events, expired timers and caller requests to a
  connection's state machine (\<open>conn/managed_connection\<close>); the machine consults the connect budget
  (\<open>conn/rate_budget.rs\<close>), draws jittered backoff from the knobs (\<open>build/knobs.rs\<close>, \<open>jitter\<close>), keeps the order requests in
  flight, and on a reconnect replays what the subscription registry (\<open>conn/subscription_registry.rs\<close>) declares. Book
  frames go through the registry to an order-book builder (\<open>book\<close>), which verifies a checksum and asks for a
  resync on a gap. REST calls (\<open>rest\<close>) consult the local rate-limit trackers (\<open>rate_limit\<close>), are signed with a fresh nonce
  (\<open>auth\<close>), sent, classified and retried. Callers reach the reactor through a bounded queue
  (\<open>dispatch/event_bus\<close>, \<open>api/ws_surface\<close>); what the reactor publishes goes through a drop-oldest ring to the dispatch loop, which resolves
  correlated awaits and calls subscribers and data handlers. Orders (\<open>api/trade\<close>) are validated, then rendered as a REST form or as the parameters of a
  WebSocket request.

  \<^bold>\<open>The theories.\<close> In the order of their imports:
  \<^item> \<open>Prelude\<close>: machine integers and their saturating operations, instants and durations in nanoseconds, ordered and
    hash maps as association lists; the locales \<open>keyed_store\<close> and \<open>mirrored_stores\<close>.
  \<^item> \<open>Wire_Types\<close> (\<open>types/connection.rs\<close>, \<open>channel.rs\<close>, \<open>asset.rs\<close>, \<open>symbol.rs\<close>): the enums with their codes and the
    parsers of symbols and asset codes; which texts a symbol accepts.
  \<^item> \<open>Book_Checksum\<close> (\<open>book/checksum.rs\<close>): the buffered checksum; the locale \<open>crc_hasher\<close> states what the
    hasher of the crate \<open>crc32fast\<close> promises and is interpreted on the bitwise CRC-32; the stream hashes the stripped text.
  \<^item> \<open>Order_Book\<close> (\<open>book/builder.rs\<close>, \<open>wire.rs\<close>): builder, snapshots, deltas, trimming, published updates, frame decoding;
    refinement of price maps, checksum headroom, acceptance exactly on a matching checksum, sorted output.
  \<^item> \<open>Json\<close>: the JSON values frames and responses are made of.
  \<^item> \<open>Subscription_Registry\<close> and \<open>Registry_Properties\<close>: every operation of the registry with its well-formedness
    invariant; reference counts, the mirror, guards of dead generations, replay lists and frames, bounded book
    recovery, sequence gaps.
  \<^item> \<open>F64\<close> and \<open>F64_Duration\<close>: binary64 arithmetic on rationals with round-to-nearest-even, and
    durations as binary64 seconds; \<open>rounding\<close> is the locale of what the bounds below need of the rounding.
  \<^item> \<open>Knobs\<close> (\<open>build/knobs.rs\<close>, \<open>jitter/mod.rs\<close>, \<open>next_backoff\<close>): the knob cells, the SplitMix64 jitter, the backoff, which
    never exceeds its ceiling.
  \<^item> \<open>Rate_Budget\<close> (\<open>conn/rate_budget.rs\<close>): the sliding window is a hard cap and every refusal ends.
  \<^item> \<open>Managed_Connection\<close> (data and helpers of \<open>mod.rs\<close>, \<open>inner.rs\<close>), \<open>Connection_Fsm\<close> (\<open>handle_event.rs\<close>, one definition per source
    state), \<open>Connection_Invariants\<close> (the invariant of each state, event by event), \<open>Connection_Properties\<close> and
    \<open>Connection_Contracts\<close> (runs): no run wedges, every admitted request is resolved once, close calls are answered
    once and in order, socket openings respect the connect budget, wire replies are attributed to the right
    subscription, the reactor sleeps until the earliest timer.
  \<^item> \<open>Rate_Limit\<close> and \<open>Rate_Limit_Properties\<close> (\<open>rate_limit\<close>): counters, tiers, order-age costs and both trackers; counters
    stay in range under every rounding, the scope cache is least-recently-used, consults and rejections are exact.
  \<^item> \<open>Rust_Text\<close>: decimal numbers, searching and trimming of Rust strings.
  \<^item> \<open>Request_Signing\<close> (\<open>auth/nonce.rs\<close>, \<open>signer.rs\<close>, \<open>sign_form\<close> and the form encoder of \<open>mod.rs\<close>): the nonce source as a step
    relation over concurrent callers; nonces increase, the form encoding is unambiguous, the signature
    covers the request.
  \<^item> \<open>Rest_Retry\<close> (\<open>rest/retry.rs\<close>), \<open>Rest_Surface\<close> (\<open>rest/surface.rs\<close>) and \<open>Rest_Properties\<close>: the pipeline, its retry loop with
    a termination proof, and the reconciliation walk; placements are sent at most once, retries stay within budget, are
    announced and use fresh nonces, a local rejection costs nothing.
  \<^item> \<open>Order_Requests\<close> and \<open>Order_Wire\<close> (\<open>api/trade/types/enums.rs\<close>, \<open>requests.rs\<close>, \<open>api/trade/error.rs\<close>, \<open>ws_compose.rs\<close>, the arms of
    \<open>executors.rs\<close> up to the send): the order requests with their validators, REST forms, WebSocket parameters and replies;
    \<open>Order_Properties\<close>: a REST call names one order, a dry run stays one on every transport, what the validators accept has a transport, trailing
    orders stay relative; \<open>Order_Calendar\<close>: the instants of orders are dates of the Gregorian calendar.
  \<^item> \<open>Correlated_Waits\<close> (\<open>dispatch/event_bus/mod.rs\<close>, \<open>events.rs\<close>): the events and the registry of one-shot waiters with its miss-buffer, every
    critical section a function, the interleavings of subscribers, publishers, cancellations and loop deaths a step
    relation; completions are conserved, no wake-up is lost, no waiter is resolved twice.
  \<^item> \<open>Event_Bus\<close> and \<open>Bus_Properties\<close>: the ring, publishing with its drop accounting, subscribers, the dispatch loop and loop
    deaths; the locale \<open>lossy_queue\<close> is the contract of the ring and \<open>bus_frame\<close> what a round of the loop may change. A closed ring
    drains, a death fails every await, sequential delivery is a run of the concurrent steps.
  \<^item> \<open>Handler_Registry\<close> (\<open>dispatch/handler_registry.rs\<close>): callbacks per channel and the presence mirror, as interleaved steps; the mirror is exact.
  \<^item> \<open>Ws_Surface\<close> and \<open>Ws_Properties\<close> (\<open>api/ws_surface/mod.rs\<close>, the queue side of \<open>dispatch/event_bus/mod.rs\<close>): posting with deferred teardowns,
    handlers, subscriptions, requests and read models; teardowns are never lost, a guarded subscription
    happens whole or not at all, the read models agree.
  \<^item> \<open>Token_Lifecycle\<close> and \<open>Token_Properties\<close> (\<open>auth/token_lifecycle.rs\<close>): the token cache, the fetch over the REST pipeline, and the
    refresh tasks as interleaved steps; proactive refreshes are single-flight, every reactive one reports once.
  \<^item> \<open>Reactor_Sends\<close>, \<open>Reactor_Inbound\<close>, \<open>Reactor_Frames\<close> and \<open>Reactor\<close> (\<open>dispatch/io_reactor\<close>): the state of the reactor, what it sends, the
    messages of callers, the routing of frames and responses, and one iteration of its loop as a step on what it received.
  \<^item> \<open>Reactor_Frame_Rules\<close>: the locale \<open>conn_frame\<close>, what every reactor operation may do to the connections, the tokens and the log, proved
    once for all relations the components respect. \<open>Reactor_Orders\<close>, \<open>Reactor_Close\<close> and \<open>Reactor_Books\<close> interpret it on the laws of the
    connection, the tokens and the registry: over whole runs an order is answered once and sent at most once with a token, the
    caller of \<open>close()\<close> is answered once, and every maintained book delivered matches its checksum. \<open>Reactor_Limits\<close> shows three corners in
    which the reactor falls behind its connections.

  \<^bold>\<open>How state and effects are modelled.\<close> A struct is a record passed through the operations. The injected clock, the wall clock, minted ids and
  the answers of the network are functions of how many were taken so far, so each reading of the
  source is one reading of the model, in the source's order. Published events, resolved futures, opened sockets, sent requests
  and sleeps are appended to a trace. Errors are the left values of a sum. A hash map is an association
  list whose order stands for one iteration order. Every loop is a total function, the retry
  loop, the re-latching of completions and the trimming loops with an explicit measure, except two: \<open>next_nonce\<close> is a step relation whose compare-exchange may fail
  spuriously, and \<open>dispatch_loop\<close>, which runs as long as there are publishers, has fuel, of which enough
  is proved to exist once the ring is closed.

  \<^bold>\<open>Conventions of the model.\<close> The code is read in release mode: debug assertions are left out. Sums of
  instants and durations are unbounded, as are reference counts and generations; counters the code keeps in a
  fixed width (attempts, request ids, nonces, budgets) are words of that width. The sign of a floating-point
  zero is not kept. In the theories of the connection and of REST an event published is an entry of the trace, before the ring that may drop it. Texts built by \<open>format!\<close> are
  kept as the values they format. A REST call runs alone; concurrent callers are modelled for the nonce source, the correlated waits and the handler registry.
  Third-party code is a parameter: the CRC hasher, the decimal parser, the text, sign and comparison with zero of decimals, SHA-256, HMAC and base64, the key fingerprint, the bounded queue of
  \<open>tokio\<close>. User callbacks are parameters too.

  The reactor's record holds the connections, the registry, the handlers and the token manager of the other theories, and its steps call their
  operations. Which of several ready sources an iteration takes is left open, so what is proved holds for every order; posting deferred
  teardowns at the top of the loop is part of \<open>Ws_Surface\<close>. Frames are JSON values: printing and parsing their text is left out, as are the typed decoders of
  data rows, which are a parameter. A socket's writer is a function of how many frames were offered.

  \<^bold>\<open>Not modelled.\<close> The transports (\<open>transport\<close>, except the error kinds), which are I/O over third-party crates, and the one-shots that bridge their
  upgrade outcomes to the reactor; the
  index of client order ids (\<open>rate_limit/cl_ord_id_index.rs\<close>), a shell over the crate \<open>lru\<close>; client construction (\<open>build/client\<close>), the
  configuration resolver (\<open>build/config_resolver.rs\<close>), which reads files and the environment, and the typed
  namespaces (\<open>api\<close>, except the order requests), which wire the parts together and convert values.
\<close>

end
